(* ===== verification/Prelude.thy ===== *)
theory Prelude
  imports Main "HOL-Library.Word"
begin

text \<open>
  Shared vocabulary of the development: the machine integer types, checked 64-bit arithmetic
  over naturals, the state-and-error computations every component is written in, the loop
  combinators that stand for the source's \<open>for\<close> loops, and the two rule collections the
  component proofs use.

  A fallible operation that mutates its \<open>&mut\<close> arguments is a function from the state to a
  pair of a result (\<open>Inl\<close> the error, \<open>Inr\<close> the value) and the new state. The state is
  kept on the error path too, because the callers go on using it after an error (the scan for an
  embedded signature continues with the budget that a failed candidate has left).

  \<open>success\<close> collects the rules that invert a successful run; \<open>run\<close> collects the equations
  that evaluate an operation on a given state; \<open>frame\<close> collects the
  facts that an operation moves the state along a preorder only.
\<close>

named_theorems success \<open>inversion rules for successful runs\<close>
named_theorems run \<open>one-step evaluation of computations on a state\<close>
named_theorems frame \<open>every run moves the state along the preorder at hand\<close>

type_synonym u8 = "8 word"
type_synonym u16 = "16 word"
type_synonym u32 = "32 word"
type_synonym u64 = "64 word"

section \<open>Checked arithmetic of 64-bit unsigned values\<close>

text \<open>
  Counts, sizes and offsets (Rust \<open>u64\<close> and, on the 64-bit targets modelled, \<open>usize\<close>)
  are the natural numbers they denote; every operation of the source on them is checked, so the
  bound is written into the operation.
\<close>

definition checked_add :: "nat \<Rightarrow> nat \<Rightarrow> nat option" where
  "checked_add a b = (if a + b < 2 ^ 64 then Some (a + b) else None)"

definition checked_sub :: "nat \<Rightarrow> nat \<Rightarrow> nat option" where
  "checked_sub a b = (if b \<le> a then Some (a - b) else None)"

lemma checked_add_Some [simp]: "checked_add a b = Some c \<longleftrightarrow> c = a + b \<and> a + b < 2 ^ 64"
  by (auto simp: checked_add_def)

lemma checked_add_None [simp]: "checked_add a b = None \<longleftrightarrow> 2 ^ 64 \<le> a + b"
  by (auto simp: checked_add_def)

lemma checked_sub_Some [simp]: "checked_sub a b = Some c \<longleftrightarrow> b \<le> a \<and> c = a - b"
  by (auto simp: checked_sub_def)

lemma checked_sub_None [simp]: "checked_sub a b = None \<longleftrightarrow> a < b"
  by (auto simp: checked_sub_def)

section \<open>Computations with state and errors\<close>

type_synonym ('s, 'e, 'a) comp = "'s \<Rightarrow> ('e + 'a) \<times> 's"

definition ret :: "'a \<Rightarrow> ('s, 'e, 'a) comp" where
  "ret x s = (Inr x, s)"

definition fail :: "'e \<Rightarrow> ('s, 'e, 'a) comp" where
  "fail e s = (Inl e, s)"

definition bind :: "('s, 'e, 'a) comp \<Rightarrow> ('a \<Rightarrow> ('s, 'e, 'b) comp) \<Rightarrow> ('s, 'e, 'b) comp" where
  "bind m f s = (case m s of (Inl e, t) \<Rightarrow> (Inl e, t) | (Inr x, t) \<Rightarrow> f x t)"

definition ok_or :: "'a option \<Rightarrow> 'e \<Rightarrow> ('s, 'e, 'a) comp" where
  "ok_or x e = (case x of None \<Rightarrow> fail e | Some v \<Rightarrow> ret v)"

definition guard :: "bool \<Rightarrow> 'e \<Rightarrow> ('s, 'e, unit) comp" where
  "guard b e = (if b then ret () else fail e)"

definition get_state :: "('s, 'e, 's) comp" where
  "get_state s = (Inr s, s)"

definition modify :: "('s \<Rightarrow> 's) \<Rightarrow> ('s, 'e, unit) comp" where
  "modify f s = (Inr (), f s)"

text \<open>A branch taken on a state; the same as \<open>if\<close>, with the congruence rule a loop needs.\<close>

definition branch :: "bool \<Rightarrow> ('s, 'e, 'a) comp \<Rightarrow> ('s, 'e, 'a) comp \<Rightarrow> ('s, 'e, 'a) comp" where
  "branch b m n s = (if b then m s else n s)"

primrec repeat_for :: "nat \<Rightarrow> ('s, 'e, 'a) comp \<Rightarrow> ('s, 'e, 'a list) comp" where
  "repeat_for 0 m = ret []"
| "repeat_for (Suc n) m = bind m (\<lambda>x. bind (repeat_for n m) (\<lambda>xs. ret (x # xs)))"

primrec map_for :: "('a \<Rightarrow> ('s, 'e, 'b) comp) \<Rightarrow> 'a list \<Rightarrow> ('s, 'e, 'b list) comp" where
  "map_for f [] = ret []"
| "map_for f (x # xs) = bind (f x) (\<lambda>y. bind (map_for f xs) (\<lambda>ys. ret (y # ys)))"

primrec fold_for :: "('a \<Rightarrow> 'b \<Rightarrow> ('s, 'e, 'b) comp) \<Rightarrow> 'a list \<Rightarrow> 'b \<Rightarrow> ('s, 'e, 'b) comp" where
  "fold_for f [] acc = ret acc"
| "fold_for f (x # xs) acc = bind (f x acc) (fold_for f xs)"

lemma bind_cong [fundef_cong]:
  assumes "m1 s2 = m2 s2"
    and "\<And>x t. m2 s2 = (Inr x, t) \<Longrightarrow> f1 x t = f2 x t"
    and "s1 = s2"
  shows "bind m1 f1 s1 = bind m2 f2 s2"
  using assms by (auto simp: bind_def split: prod.splits sum.splits)

lemma branch_cong [fundef_cong]:
  assumes "b = c" and "s = t"
    and "c \<Longrightarrow> m t = m' t" and "\<not> c \<Longrightarrow> n t = n' t"
  shows "branch b m n s = branch c m' n' t"
  using assms by (simp add: branch_def)

lemma branch_eq: "branch b m n = (if b then m else n)"
  by (simp add: branch_def fun_eq_iff)

lemma ret_run [run]: "ret x s = (Inr x, s)"
  by (simp add: ret_def)

lemma fail_run [run]: "fail e s = (Inl e, s)"
  by (simp add: fail_def)

lemma get_state_run [run]: "get_state s = (Inr s, s)"
  by (simp add: get_state_def)

lemma modify_run [run]: "modify f s = (Inr (), f s)"
  by (simp add: modify_def)

lemma bind_ret [simp]: "bind (ret x) f = f x"
  by (simp add: bind_def ret_def fail_def fun_eq_iff)

lemma bind_fail [simp]: "bind (fail e) f = fail e"
  by (simp add: bind_def ret_def fail_def fun_eq_iff)

lemma bind_assoc: "bind (bind m f) g = bind m (\<lambda>x. bind (f x) g)"
  by (simp add: bind_def fun_eq_iff split: prod.splits sum.splits)

lemma bind_Inr [success]:
  "bind m f s = (Inr y, t) \<longleftrightarrow> (\<exists>x u. m s = (Inr x, u) \<and> f x u = (Inr y, t))"
  by (auto simp: bind_def split: prod.splits sum.splits)

lemma bind_Inl:
  "bind m f s = (Inl e, t) \<longleftrightarrow> m s = (Inl e, t) \<or> (\<exists>x u. m s = (Inr x, u) \<and> f x u = (Inl e, t))"
  by (auto simp: bind_def split: prod.splits sum.splits)

lemma bind_run [run]: "bind m f s = (case m s of (Inl e, t) \<Rightarrow> (Inl e, t) | (Inr x, t) \<Rightarrow> f x t)"
  by (rule bind_def)

lemma fst_run: "fst r = x \<Longrightarrow> \<exists>t. r = (x, t)"
  by (cases r) simp

lemma bind_step: "m s = (Inr x, t) \<Longrightarrow> bind m f s = f x t"
  by (simp add: bind_def)

lemma bind_stop: "m s = (Inl e, t) \<Longrightarrow> bind m f s = (Inl e, t)"
  by (simp add: bind_def)

lemma ret_Inr [success]: "ret x s = (Inr y, t) \<longleftrightarrow> y = x \<and> t = s"
  by (auto simp: ret_def)

lemma fail_Inr [success]: "fail e s = (Inr y, t) \<longleftrightarrow> False"
  by (auto simp: fail_def)

lemma ok_or_Inr [success]: "ok_or x e s = (Inr y, t) \<longleftrightarrow> x = Some y \<and> t = s"
  by (auto simp: ok_or_def ret_def fail_def split: option.splits)

lemma ok_or_simps [simp]: "ok_or (Some x) e = ret x" "ok_or None e = fail e"
  by (simp_all add: ok_or_def)

lemma guard_Inr [success]: "guard b e s = (Inr y, t) \<longleftrightarrow> b \<and> t = s"
  by (auto simp: guard_def ret_def fail_def split: if_splits)

lemma guard_simps [simp]: "guard True e = ret ()" "guard False e = fail e"
  by (simp_all add: guard_def)

lemma if_run [run]: "(if b then m else n) s = (if b then m s else n s)"
  by simp

lemma if_Inr [success]:
  "(if b then m else n) s = (Inr y, t) \<longleftrightarrow> (b \<and> m s = (Inr y, t)) \<or> (\<not> b \<and> n s = (Inr y, t))"
  by simp

lemma case_sum_Inr [success]:
  "(case z of Inl a \<Rightarrow> f a | Inr b \<Rightarrow> g b) s = (Inr y, t) \<longleftrightarrow>
     (\<exists>a. z = Inl a \<and> f a s = (Inr y, t)) \<or> (\<exists>b. z = Inr b \<and> g b s = (Inr y, t))"
  by (cases z) simp_all

lemma case_option_Inr [success]:
  "(case z of None \<Rightarrow> m | Some x \<Rightarrow> f x) s = (Inr y, t) \<longleftrightarrow>
     (z = None \<and> m s = (Inr y, t)) \<or> (\<exists>x. z = Some x \<and> f x s = (Inr y, t))"
  by (cases z) simp_all

lemma length_repeat_for: "repeat_for n m s = (Inr xs, t) \<Longrightarrow> length xs = n"
  by (induction n arbitrary: s xs) (auto simp: success)

lemma length_map_for: "map_for f xs s = (Inr ys, t) \<Longrightarrow> length ys = length xs"
  by (induction xs arbitrary: s ys) (auto simp: success)

lemma repeat_for_all:
  assumes "repeat_for n m s = (Inr xs, t)"
    and "\<And>s x t. m s = (Inr x, t) \<Longrightarrow> P x"
  shows "\<forall>x\<in>set xs. P x"
  using assms(1) by (induction n arbitrary: s xs) (auto simp: success dest: assms(2))

lemma map_for_all2:
  assumes "map_for f xs s = (Inr ys, t)"
    and "\<And>x s y t. x \<in> set xs \<Longrightarrow> f x s = (Inr y, t) \<Longrightarrow> P x y"
  shows "list_all2 P xs ys"
  using assms
proof (induction xs arbitrary: s ys)
  case Nil
  then show ?case by (auto simp: success)
next
  case (Cons x xs)
  from Cons.prems(1) obtain y ys' u where ys: "ys = y # ys'" and y: "f x s = (Inr y, u)"
    and rest: "map_for f xs u = (Inr ys', t)"
    by (auto simp: success)
  have "list_all2 P xs ys'" by (rule Cons.IH [OF rest Cons.prems(2)]) auto
  with ys y Cons.prems(2) show ?case by auto
qed

lemma fold_for_append: "fold_for f (xs @ ys) acc = bind (fold_for f xs acc) (fold_for f ys)"
proof (induction xs arbitrary: acc)
  case Nil
  then show ?case by simp
next
  case (Cons x xs)
  from Cons.IH have "fold_for f (xs @ ys) = (\<lambda>acc. bind (fold_for f xs acc) (fold_for f ys))"
    by (rule ext)
  then show ?case by (simp add: bind_assoc)
qed

section \<open>Frame contracts\<close>

text \<open>
  Every component keeps an order on its state: the work budget is only spent, the reader only
  advances, the counters only grow. The locale states such an order once; the lemmas in it lift
  the contract of the single operations to sequences and loops, for whichever order a component
  interprets it on.
\<close>

locale state_order =
  fixes le :: "'s \<Rightarrow> 's \<Rightarrow> bool"
  assumes le_refl: "le s s"
    and le_trans: "le s t \<Longrightarrow> le t u \<Longrightarrow> le s u"
begin

definition keeps :: "('s, 'e, 'a) comp \<Rightarrow> bool" where
  "keeps m \<longleftrightarrow> (\<forall>s. le s (snd (m s)))"

lemma keepsI: "(\<And>s r t. m s = (r, t) \<Longrightarrow> le s t) \<Longrightarrow> keeps m"
  by (simp add: keeps_def) (metis prod.collapse)

lemma keepsD: "keeps m \<Longrightarrow> m s = (r, t) \<Longrightarrow> le s t"
  by (auto simp: keeps_def dest: spec [of _ s])

lemma keeps_ret: "keeps (ret x)"
  by (simp add: keeps_def le_refl ret_def fail_def)

lemma keeps_fail: "keeps (fail e)"
  by (simp add: keeps_def le_refl ret_def fail_def)

lemma keeps_ok_or: "keeps (ok_or x e)"
  by (cases x) (simp_all add: keeps_ret keeps_fail)

lemma keeps_guard: "keeps (guard b e)"
  by (cases b) (simp_all add: keeps_ret keeps_fail)

lemma keeps_bind: "keeps m \<Longrightarrow> (\<And>x. keeps (f x)) \<Longrightarrow> keeps (bind m f)"
proof (rule keepsI)
  fix s r t
  assume m: "keeps m" and f: "\<And>x. keeps (f x)" and run: "bind m f s = (r, t)"
  show "le s t"
  proof (cases "m s")
    case (Pair r' u)
    with m have su: "le s u" by (rule keepsD)
    show ?thesis
    proof (cases r')
      case (Inl e)
      with run Pair su show ?thesis by (simp add: bind_def)
    next
      case (Inr x)
      with run Pair have "f x u = (r, t)" by (simp add: bind_def)
      with f have "le u t" by (rule keepsD)
      with su show ?thesis by (rule le_trans)
    qed
  qed
qed

text \<open>The same rule at one state, for loops that are not a \<open>for\<close>.\<close>

lemma le_bind:
  assumes "keeps m" and "\<And>x t. m s = (Inr x, t) \<Longrightarrow> le t (snd (f x t))"
  shows "le s (snd (bind m f s))"
proof (cases "m s")
  case (Pair r u)
  with assms(1) have su: "le s u" by (rule keepsD)
  show ?thesis
  proof (cases r)
    case (Inl e)
    with Pair su show ?thesis by (simp add: bind_def)
  next
    case (Inr x)
    with Pair assms(2) have "le u (snd (f x u))" by simp
    with su Inr Pair show ?thesis by (auto simp: bind_def intro: le_trans)
  qed
qed

lemma le_branch:
  "(b \<Longrightarrow> le s (snd (m s))) \<Longrightarrow> (\<not> b \<Longrightarrow> le s (snd (n s))) \<Longrightarrow> le s (snd (branch b m n s))"
  by (simp add: branch_def)

lemma le_ret: "le s (snd (ret x s))"
  by (simp add: ret_def le_refl)

lemma keeps_if: "(b \<Longrightarrow> keeps m) \<Longrightarrow> (\<not> b \<Longrightarrow> keeps n) \<Longrightarrow> keeps (if b then m else n)"
  by simp

lemma keeps_option:
  "keeps m \<Longrightarrow> (\<And>x. keeps (f x)) \<Longrightarrow> keeps (case z of None \<Rightarrow> m | Some x \<Rightarrow> f x)"
  by (cases z) simp_all

lemma keeps_prod: "(\<And>x y. keeps (f x y)) \<Longrightarrow> keeps (case z of (x, y) \<Rightarrow> f x y)"
  by (cases z) simp

lemma keeps_sum:
  "(\<And>x. keeps (f x)) \<Longrightarrow> (\<And>y. keeps (g y)) \<Longrightarrow> keeps (case z of Inl x \<Rightarrow> f x | Inr y \<Rightarrow> g y)"
  by (cases z) simp_all

lemma keeps_repeat: "keeps m \<Longrightarrow> keeps (repeat_for n m)"
  by (induction n) (auto intro: keeps_ret keeps_bind)

lemma keeps_map: "(\<And>x. keeps (f x)) \<Longrightarrow> keeps (map_for f xs)"
  by (induction xs) (auto intro: keeps_ret keeps_bind)

lemma keeps_fold: "(\<And>x acc. keeps (f x acc)) \<Longrightarrow> keeps (fold_for f xs acc)"
  by (induction xs arbitrary: acc) (auto intro: keeps_ret keeps_bind)

lemmas keeps_rules = keeps_ret keeps_fail keeps_ok_or keeps_guard keeps_bind keeps_if
  keeps_option keeps_prod keeps_sum keeps_repeat keeps_map keeps_fold

end

section \<open>Lists\<close>

text \<open>\<open>slice::chunks\<close>: consecutive pieces of at most \<open>n\<close> elements, the last one shorter.\<close>

function chunks :: "nat \<Rightarrow> 'a list \<Rightarrow> 'a list list" where
  "chunks n xs = (if n = 0 \<or> xs = [] then [] else take n xs # chunks n (drop n xs))"
  by pat_completeness auto
termination
  by (relation "measure (\<lambda>(n, xs). length xs)") auto

declare chunks.simps [simp del]

lemma chunks_Nil [simp]: "chunks n [] = []"
  by (simp add: chunks.simps)

lemma concat_chunks [simp]: "0 < n \<Longrightarrow> concat (chunks n xs) = xs"
proof (induction n xs rule: chunks.induct)
  case (1 n xs)
  then show ?case by (cases "xs = []") (simp_all add: chunks.simps [of n xs])
qed

lemma chunks_short: "xs \<noteq> [] \<Longrightarrow> length xs \<le> n \<Longrightarrow> chunks n xs = [xs]"
  by (cases "n = 0") (simp_all add: chunks.simps [of n xs])

lemma length_chunks_le: "c \<in> set (chunks n xs) \<Longrightarrow> length c \<le> n \<and> c \<noteq> []"
proof (induction n xs rule: chunks.induct)
  case (1 n xs)
  then show ?case by (auto simp: chunks.simps [of n xs] split: if_splits)
qed

text \<open>\<open>slice::get(a..b)\<close>, which is \<open>None\<close> outside the slice.\<close>

definition get_range :: "'a list \<Rightarrow> nat \<Rightarrow> nat \<Rightarrow> 'a list option" where
  "get_range xs a b = (if a \<le> b \<and> b \<le> length xs then Some (take (b - a) (drop a xs)) else None)"

definition get_at :: "'a list \<Rightarrow> nat \<Rightarrow> 'a option" where
  "get_at xs i = (if i < length xs then Some (xs ! i) else None)"

lemma get_range_Some [simp]:
  "get_range xs a b = Some ys \<longleftrightarrow> a \<le> b \<and> b \<le> length xs \<and> ys = take (b - a) (drop a xs)"
  by (auto simp: get_range_def)

lemma get_at_Some [simp]: "get_at xs i = Some x \<longleftrightarrow> i < length xs \<and> x = xs ! i"
  by (auto simp: get_at_def)

lemma get_at_None [simp]: "get_at xs i = None \<longleftrightarrow> length xs \<le> i"
  by (auto simp: get_at_def)

lemma two_list: "replicate 2 x = [x, x]" "[0..<2] = [0, Suc 0]"
  by (simp_all add: numeral_2_eq_2)

end
