(* ===== verification/Paths.thy ===== *)
theory Paths
  imports Prelude
begin

text \<open>
  The filesystem-path policy of \<open>path.rs\<close>: the byte validator for decoded names and the code-unit
  validator for raw UTF-16 names, each as the source writes it. One locale states the contract
  the two share and derives the safety property from it; a second one states what an encoding of
  characters into units must do for the validators to agree on it.
\<close>

datatype unsafe_path_reason = Empty | Nul | Absolute | Unc | Drive | Traversal

fun path_message :: "unsafe_path_reason \<Rightarrow> string" where
  "path_message Empty = ''archive path is empty''"
| "path_message Nul = ''archive path contains NUL''"
| "path_message Absolute = ''archive path is absolute''"
| "path_message Unc = ''archive path has a UNC or device prefix''"
| "path_message Drive = ''archive path has a drive prefix''"
| "path_message Traversal = ''archive path contains a parent component''"

text \<open>\<open>slice::split\<close>: the pieces between separators, empty ones included.\<close>

fun split_on :: "('a \<Rightarrow> bool) \<Rightarrow> 'a list \<Rightarrow> 'a list list" where
  "split_on p [] = [[]]"
| "split_on p (x # xs) =
     (if p x then [] # split_on p xs
      else case split_on p xs of [] \<Rightarrow> [[x]] | c # cs \<Rightarrow> (x # c) # cs)"

definition is_byte_separator :: "u8 \<Rightarrow> bool" where
  "is_byte_separator b \<longleftrightarrow> b = 0x2f \<or> b = 0x5c"

definition is_u16_separator :: "u16 \<Rightarrow> bool" where
  "is_u16_separator u \<longleftrightarrow> u = 0x2f \<or> u = 0x5c"

definition is_ascii_alphabetic :: "u8 \<Rightarrow> bool" where
  "is_ascii_alphabetic b \<longleftrightarrow> (0x41 \<le> b \<and> b \<le> 0x5a) \<or> (0x61 \<le> b \<and> b \<le> 0x7a)"

text \<open>The argument is the UTF-8 text of the \<open>&str\<close>, as bytes.\<close>

definition validate_safe_path :: "u8 list \<Rightarrow> unsafe_path_reason + unit" where
  "validate_safe_path path =
     (if path = [] then Inl Empty
      else if list_ex (\<lambda>byte. byte = 0) path then Inl Nul
      else case path of
        [] \<Rightarrow> Inl Empty
      | first # bytes \<Rightarrow>
          (let second = get_at bytes 0 in
           if is_byte_separator first
           then (if (case second of None \<Rightarrow> False | Some b \<Rightarrow> is_byte_separator b)
                 then Inl Unc else Inl Absolute)
           else if is_ascii_alphabetic first \<and> second = Some 0x3a then Inl Drive
           else if list_ex (\<lambda>component. component = [0x2e, 0x2e]) (split_on is_byte_separator path)
           then Inl Traversal
           else Inr ()))"

definition validate_safe_utf16_path :: "u16 list \<Rightarrow> unsafe_path_reason + unit" where
  "validate_safe_utf16_path path =
     (if path = [] then Inl Empty
      else if List.member path 0 then Inl Nul
      else case path of
        [] \<Rightarrow> Inl Empty
      | first # units \<Rightarrow>
          (let second = get_at units 0 in
           if is_u16_separator first
           then (if (case second of None \<Rightarrow> False | Some b \<Rightarrow> is_u16_separator b)
                 then Inl Unc else Inl Absolute)
           else let is_ascii_letter =
                      (0x61 \<le> first \<and> first \<le> 0x7a) \<or> (0x41 \<le> first \<and> first \<le> 0x5a) in
           if is_ascii_letter \<and> second = Some 0x3a then Inl Drive
           else if list_ex (\<lambda>component. component = [0x2e, 0x2e]) (split_on is_u16_separator path)
           then Inl Traversal
           else Inr ()))"

section \<open>The shared contract\<close>

text \<open>
  Where joining a name to a directory leads: empty and \<open>.\<close> components stay, \<open>..\<close> goes to the
  parent, any other component goes down. The directory is kept as the list of names below the
  root, innermost first.
\<close>

fun walk :: "'a \<Rightarrow> 'a list list \<Rightarrow> 'a list list \<Rightarrow> 'a list list" where
  "walk dot dir [] = dir"
| "walk dot dir (c # cs) =
     (if c = [] \<or> c = [dot] then walk dot dir cs
      else if c = [dot, dot] then walk dot (tl dir) cs
      else walk dot (c # dir) cs)"

lemma split_nonempty: "split_on p xs \<noteq> []"
  by (induction xs) (auto split: list.splits)

lemma walk_below:
  "[dot, dot] \<notin> set cs \<Longrightarrow> \<exists>below. walk dot dir cs = below @ dir"
proof (induction dot dir cs rule: walk.induct)
  case (2 dot dir c cs)
  then show ?case by (auto split: if_splits)
qed simp

locale path_policy =
  fixes validate :: "'a list \<Rightarrow> unsafe_path_reason + unit"
    and sep letter :: "'a \<Rightarrow> bool"
    and nul dot colon :: 'a
  assumes accepts: "validate p = Inr () \<longleftrightarrow>
      p \<noteq> [] \<and> nul \<notin> set p \<and> \<not> sep (hd p) \<and> [dot, dot] \<notin> set (split_on sep p)
      \<and> \<not> (\<exists>first rest. p = first # colon # rest \<and> letter first)"
begin

lemma stays_below: "validate p = Inr () \<Longrightarrow> \<exists>below. walk dot dir (split_on sep p) = below @ dir"
  by (simp add: accepts walk_below)

lemma not_rooted: "validate p = Inr () \<Longrightarrow> \<exists>c cs. split_on sep p = c # cs \<and> c \<noteq> []"
proof -
  assume "validate p = Inr ()"
  then obtain x xs where "p = x # xs" "\<not> sep x" by (cases p) (auto simp: accepts)
  then show ?thesis by (auto split: list.splits)
qed

end

lemma get_at_0: "get_at xs 0 = (case xs of [] \<Rightarrow> None | x # _ \<Rightarrow> Some x)"
  by (simp add: get_at_def split: list.splits)

interpretation byte_path: path_policy validate_safe_path is_byte_separator is_ascii_alphabetic
    0 "0x2e" "0x3a"
  by unfold_locales
     (auto simp: validate_safe_path_def list_ex_iff get_at_0 Let_def
       split: list.splits if_splits option.splits)

definition is_u16_letter :: "u16 \<Rightarrow> bool" where
  "is_u16_letter u \<longleftrightarrow> (0x61 \<le> u \<and> u \<le> 0x7a) \<or> (0x41 \<le> u \<and> u \<le> 0x5a)"

interpretation utf16_path: path_policy validate_safe_utf16_path is_u16_separator is_u16_letter
    0 "0x2e" "0x3a"
  by unfold_locales
     (auto simp: validate_safe_utf16_path_def list_ex_iff get_at_0 Let_def is_u16_letter_def
       split: list.splits if_splits option.splits)


section \<open>Agreement of the two validators\<close>

definition ascii_letter :: "nat \<Rightarrow> bool" where
  "ascii_letter c \<longleftrightarrow> 0x41 \<le> c \<and> c \<le> 0x5a \<or> 0x61 \<le> c \<and> c \<le> 0x7a"

text \<open>
  A character is its scalar value. The classification both validators compute, on characters:
\<close>

definition classify :: "nat list \<Rightarrow> unsafe_path_reason + unit" where
  "classify cs =
     (if cs = [] then Inl Empty
      else if 0 \<in> set cs then Inl Nul
      else if hd cs \<in> {0x2f, 0x5c}
      then (if \<exists>d ds. tl cs = d # ds \<and> d \<in> {0x2f, 0x5c} then Inl Unc else Inl Absolute)
      else if ascii_letter (hd cs) \<and> (\<exists>ds. tl cs = 0x3a # ds) then Inl Drive
      else if [0x2e, 0x2e] \<in> set (split_on (\<lambda>c. c \<in> {0x2f, 0x5c}) cs) then Inl Traversal
      else Inr ())"

text \<open>
  An encoding writes an ASCII character as the unit of the same value and any other character as
  one or more units outside ASCII.
\<close>

locale ascii_encoding =
  fixes enc :: "nat \<Rightarrow> 'w::len word list"
  assumes wide: "8 \<le> LENGTH('w)"
    and enc_ascii: "c < 128 \<Longrightarrow> enc c = [of_nat c]"
    and enc_other: "128 \<le> c \<Longrightarrow> enc c \<noteq> [] \<and> (\<forall>u\<in>set (enc c). 128 \<le> unat u)"

begin

lemma unat_of_ascii: "c < 128 \<Longrightarrow> unat (of_nat c :: 'w word) = c"
proof -
  assume "c < 128"
  moreover have "(2::nat) ^ 8 \<le> 2 ^ LENGTH('w)" using wide by (rule power_increasing) simp
  ultimately have "c < 2 ^ LENGTH('w)" by simp
  then show ?thesis by (simp add: unsigned_of_nat take_bit_nat_eq_self)
qed

lemma enc_nonempty: "enc c \<noteq> []"
  by (cases "c < 128") (simp_all add: enc_ascii enc_other)

lemma unit_in_enc: "k < 128 \<Longrightarrow> of_nat k \<in> set (enc c) \<longleftrightarrow> c = k"
proof (cases "c < 128")
  case True
  assume k: "k < 128"
  with True have "(of_nat k :: 'w word) = of_nat c \<longleftrightarrow> k = c"
    using unat_of_ascii by metis
  with True show ?thesis by (auto simp: enc_ascii)
next
  case False
  assume k: "k < 128"
  then have "\<not> 128 \<le> unat (of_nat k :: 'w word)" by (simp add: unat_of_ascii)
  with False enc_other [of c] have "of_nat k \<notin> set (enc c)" by (meson not_less)
  moreover have "c \<noteq> k" using False k by simp
  ultimately show ?thesis by simp
qed

lemma hd_enc: "k < 128 \<Longrightarrow> hd (enc c) = of_nat k \<longleftrightarrow> c = k"
proof
  assume k: "k < 128" and "hd (enc c) = of_nat k"
  then have "of_nat k \<in> set (enc c)" using hd_in_set [OF enc_nonempty] by metis
  with k show "c = k" by (simp add: unit_in_enc)
qed (simp add: enc_ascii)

definition units :: "nat list \<Rightarrow> 'w word list" where
  "units cs = concat (map enc cs)"

lemma units_simps [simp]: "units [] = []" "units (c # cs) = enc c @ units cs"
  by (simp_all add: units_def)

lemma units_empty [simp]: "units cs = [] \<longleftrightarrow> cs = []"
  by (cases cs) (simp_all add: enc_nonempty)

lemma unit_in_units: "k < 128 \<Longrightarrow> of_nat k \<in> set (units cs) \<longleftrightarrow> k \<in> set cs"
  by (induction cs) (auto simp: unit_in_enc)

lemma split_on_prefix:
  "\<forall>u\<in>set us. \<not> p u \<Longrightarrow> split_on p (us @ vs) =
     (case split_on p vs of [] \<Rightarrow> [us] | c # cs \<Rightarrow> (us @ c) # cs)"
  using split_nonempty [of p vs] by (induction us) (auto split: list.splits)

lemma split_encoded:
  "split_on (\<lambda>u. u = of_nat 0x2f \<or> u = of_nat 0x5c) (units cs)
     = map units (split_on (\<lambda>c. c \<in> {0x2f, 0x5c}) cs)"
proof (induction cs)
  case Nil
  then show ?case by simp
next
  case (Cons c cs)
  show ?case
  proof (cases "c \<in> {0x2f, 0x5c}")
    case True
    with Cons show ?thesis by (auto simp: enc_ascii)
  next
    case False
    then have "\<forall>u\<in>set (enc c). \<not> (u = of_nat 0x2f \<or> u = of_nat 0x5c)"
      using unit_in_enc [of "0x2f" c] unit_in_enc [of "0x5c" c] by auto
    with False Cons show ?thesis
      using split_nonempty [of "\<lambda>c. c \<in> {0x2f, 0x5c}" cs]
      by (simp add: split_on_prefix split: list.splits)
  qed
qed

lemma units_dots: "units cs = [of_nat 0x2e, of_nat 0x2e] \<longleftrightarrow> cs = [0x2e, 0x2e]"
proof
  assume eq: "units cs = [of_nat 0x2e, of_nat 0x2e]"
  have "\<forall>u\<in>set (units cs). u = of_nat 0x2e" by (simp add: eq)
  moreover have "hd (enc c) \<in> set (units cs)" if "c \<in> set cs" for c
    using that hd_in_set [OF enc_nonempty, of c] by (auto simp: units_def)
  ultimately have "\<forall>c\<in>set cs. c = 0x2e" using hd_enc [of "0x2e"] by auto
  then have cs: "cs = replicate (length cs) 0x2e" by (simp add: replicate_length_same)
  have "units (replicate n 0x2e) = replicate n (of_nat 0x2e)" for n
    by (induction n) (simp_all add: enc_ascii)
  with cs eq have "replicate (length cs) (of_nat 0x2e) = [of_nat 0x2e, of_nat 0x2e :: 'w word]" by metis
  then have "length cs = 2" by (metis length_replicate length_Cons list.size(3) numeral_2_eq_2)
  with cs show "cs = [0x2e, 0x2e]" by (metis numeral_2_eq_2 replicate_0 replicate_Suc)
qed (simp add: enc_ascii)

lemma tl_units_ascii: "c < 128 \<Longrightarrow> tl (units (c # cs)) = units cs"
  by (simp add: enc_ascii)

end

locale policy_encoding = ascii_encoding enc for enc :: "nat \<Rightarrow> 'w::len word list" +
  fixes validate :: "'w word list \<Rightarrow> unsafe_path_reason + unit"
  assumes validate_units: "validate p =
     (if p = [] then Inl Empty
      else if of_nat 0 \<in> set p then Inl Nul
      else if hd p = of_nat 0x2f \<or> hd p = of_nat 0x5c
      then (if \<exists>d ds. tl p = d # ds \<and> (d = of_nat 0x2f \<or> d = of_nat 0x5c) then Inl Unc
            else Inl Absolute)
      else if (\<exists>l. ascii_letter l \<and> hd p = of_nat l) \<and> (\<exists>ds. tl p = of_nat 0x3a # ds) then Inl Drive
      else if [of_nat 0x2e, of_nat 0x2e] \<in> set (split_on (\<lambda>u. u = of_nat 0x2f \<or> u = of_nat 0x5c) p)
      then Inl Traversal
      else Inr ())"
begin

lemma hd_units: "k < 128 \<Longrightarrow> hd (units (c # cs)) = of_nat k \<longleftrightarrow> c = k"
  by (simp add: enc_nonempty hd_enc)

lemma second_is:
  assumes "c < 128" "k < 128"
  shows "(\<exists>ds. tl (units (c # cs)) = of_nat k # ds) \<longleftrightarrow> (\<exists>ds. cs = k # ds)"
proof (cases cs)
  case (Cons d ds)
  have "(\<exists>us. units (d # ds) = of_nat k # us) \<longleftrightarrow> hd (units (d # ds)) = of_nat k"
    using enc_nonempty [of d] by (cases "units (d # ds)") auto
  with Cons assms hd_units [of k d ds] show ?thesis by (simp add: tl_units_ascii del: units_simps)
qed (simp add: tl_units_ascii assms del: units_simps(2))

lemma letter_units: "(\<exists>l. ascii_letter l \<and> hd (units (c # cs)) = of_nat l) \<longleftrightarrow> ascii_letter c"
proof -
  have "ascii_letter l \<Longrightarrow> l < 128" for l by (auto simp: ascii_letter_def)
  then show ?thesis using hd_units [of _ c cs] by blast
qed

lemma dots_in_split:
  "[of_nat 0x2e, of_nat 0x2e] \<in> set (map units xs) \<longleftrightarrow> [0x2e, 0x2e] \<in> set xs"
proof
  assume "[of_nat 0x2e, of_nat 0x2e] \<in> set (map units xs)"
  then obtain c where "c \<in> set xs" and "units c = [of_nat 0x2e, of_nat 0x2e]"
    by (metis (no_types, lifting) imageE set_map)
  then show "[0x2e, 0x2e] \<in> set xs" using units_dots [of c] by (simp only: simp_thms)
next
  assume "[0x2e, 0x2e] \<in> set xs"
  then have "units [0x2e, 0x2e] \<in> set (map units xs)" by (simp only: set_map imageI)
  then show "[of_nat 0x2e, of_nat 0x2e] \<in> set (map units xs)"
    using units_dots [of "[0x2e, 0x2e]"] by (simp only: simp_thms)
qed

theorem agrees: "validate (units cs) = classify cs"
proof (cases cs)
  case Nil
  then show ?thesis by (simp add: validate_units classify_def)
next
  case (Cons c ds)
  have nul: "of_nat 0 \<in> set (units cs) \<longleftrightarrow> 0 \<in> set cs" by (rule unit_in_units) simp
  have sep: "hd (units cs) = of_nat 0x2f \<or> hd (units cs) = of_nat 0x5c \<longleftrightarrow> c \<in> {0x2f, 0x5c}"
    using hd_units [of "0x2f" c ds] hd_units [of "0x5c" c ds] Cons by simp
  have unc: "(\<exists>d us. tl (units cs) = d # us \<and> (d = of_nat 0x2f \<or> d = of_nat 0x5c))
      \<longleftrightarrow> (\<exists>d es. ds = d # es \<and> d \<in> {0x2f, 0x5c})" if "c \<in> {0x2f, 0x5c}"
    using that second_is [of c "0x2f" ds] second_is [of c "0x5c" ds] Cons by auto
  have colon: "(\<exists>us. tl (units cs) = of_nat 0x3a # us) \<longleftrightarrow> (\<exists>es. ds = 0x3a # es)" if "ascii_letter c"
    using that second_is [of c "0x3a" ds] Cons by (auto simp: ascii_letter_def)
  have drive: "(\<exists>l. ascii_letter l \<and> hd (units cs) = of_nat l) \<and> (\<exists>us. tl (units cs) = of_nat 0x3a # us)
      \<longleftrightarrow> ascii_letter c \<and> (\<exists>es. ds = 0x3a # es)"
    using colon letter_units [of c ds] Cons by blast
  show ?thesis
    unfolding validate_units classify_def nul sep drive split_encoded dots_in_split units_empty
    using unc Cons by simp
qed

end

text \<open>The two encodings of a scalar value (\<open>char::encode_utf8\<close>, \<open>char::encode_utf16\<close>).\<close>

definition encode_utf8 :: "nat \<Rightarrow> u8 list" where
  "encode_utf8 c =
     (if c < 0x80 then [of_nat c]
      else if c < 0x800 then [of_nat (0xc0 + c div 64), of_nat (0x80 + c mod 64)]
      else if c < 0x10000 then
        [of_nat (0xe0 + c div 4096), of_nat (0x80 + c div 64 mod 64), of_nat (0x80 + c mod 64)]
      else [of_nat (0xf0 + c div 262144 mod 8), of_nat (0x80 + c div 4096 mod 64),
            of_nat (0x80 + c div 64 mod 64), of_nat (0x80 + c mod 64)])"

definition encode_utf16 :: "nat \<Rightarrow> u16 list" where
  "encode_utf16 c =
     (if c < 0x10000 then [of_nat c]
      else [of_nat (0xd800 + (c - 0x10000) div 1024 mod 1024), of_nat (0xdc00 + (c - 0x10000) mod 1024)])"

lemma unat_high_byte: "128 \<le> n \<Longrightarrow> n < 256 \<Longrightarrow> 128 \<le> unat (of_nat n :: u8)"
  by (simp add: unsigned_of_nat take_bit_nat_eq_self)

lemma unat_high_unit: "128 \<le> n \<Longrightarrow> n < 65536 \<Longrightarrow> 128 \<le> unat (of_nat n :: u16)"
  by (simp add: unsigned_of_nat take_bit_nat_eq_self)

lemma utf8_is_ascii_encoding: "ascii_encoding encode_utf8"
proof
  fix c :: nat
  assume c: "128 \<le> c"
  have "c div 64 mod 64 < 64" "c mod 64 < 64" "c div 4096 mod 64 < 64" "c div 262144 mod 8 < 8"
    by simp_all
  moreover have "c < 0x800 \<Longrightarrow> c div 64 < 32" "c < 0x10000 \<Longrightarrow> c div 4096 < 16"
    by (simp_all add: less_mult_imp_div_less)
  ultimately show "encode_utf8 c \<noteq> [] \<and> (\<forall>u\<in>set (encode_utf8 c). 128 \<le> unat u)"
    using c by (auto simp: encode_utf8_def simp del: of_nat_add intro!: unat_high_byte)
qed (simp_all add: encode_utf8_def)

lemma utf16_is_ascii_encoding: "ascii_encoding encode_utf16"
proof
  fix c :: nat
  assume c: "128 \<le> c"
  have "(c - 0x10000) div 1024 mod 1024 < 1024" "(c - 0x10000) mod 1024 < 1024"
    by simp_all
  then show "encode_utf16 c \<noteq> [] \<and> (\<forall>u\<in>set (encode_utf16 c). 128 \<le> unat u)"
    using c by (auto simp: encode_utf16_def simp del: of_nat_add intro!: unat_high_unit)
qed (simp_all add: encode_utf16_def)

lemma u8_letter: "is_ascii_alphabetic x \<longleftrightarrow> (\<exists>l. ascii_letter l \<and> x = of_nat l)"
proof
  assume "is_ascii_alphabetic x"
  then have "ascii_letter (unat x) \<and> x = of_nat (unat x)"
    by (auto simp: is_ascii_alphabetic_def ascii_letter_def word_le_nat_alt)
  then show "\<exists>l. ascii_letter l \<and> x = of_nat l" by blast
next
  assume "\<exists>l. ascii_letter l \<and> x = of_nat l"
  then show "is_ascii_alphabetic x"
    by (auto simp: is_ascii_alphabetic_def ascii_letter_def word_le_nat_alt unsigned_of_nat
        take_bit_nat_eq_self)
qed

lemma u16_letter: "is_u16_letter x \<longleftrightarrow> (\<exists>l. ascii_letter l \<and> x = of_nat l)"
proof
  assume "is_u16_letter x"
  then have "ascii_letter (unat x) \<and> x = of_nat (unat x)"
    by (auto simp: is_u16_letter_def ascii_letter_def word_le_nat_alt)
  then show "\<exists>l. ascii_letter l \<and> x = of_nat l" by blast
next
  assume "\<exists>l. ascii_letter l \<and> x = of_nat l"
  then show "is_u16_letter x"
    by (auto simp: is_u16_letter_def ascii_letter_def word_le_nat_alt unsigned_of_nat
        take_bit_nat_eq_self)
qed

interpretation utf8: policy_encoding encode_utf8 validate_safe_path
proof (rule policy_encoding.intro [OF utf8_is_ascii_encoding], unfold_locales)
  show "validate_safe_path p =
     (if p = [] then Inl Empty
      else if of_nat 0 \<in> set p then Inl Nul
      else if hd p = of_nat 0x2f \<or> hd p = of_nat 0x5c
      then (if \<exists>d ds. tl p = d # ds \<and> (d = of_nat 0x2f \<or> d = of_nat 0x5c) then Inl Unc
            else Inl Absolute)
      else if (\<exists>l. ascii_letter l \<and> hd p = of_nat l) \<and> (\<exists>ds. tl p = of_nat 0x3a # ds) then Inl Drive
      else if [of_nat 0x2e, of_nat 0x2e] \<in> set (split_on (\<lambda>u. u = of_nat 0x2f \<or> u = of_nat 0x5c) p)
      then Inl Traversal
      else Inr ())" for p
    unfolding u8_letter [symmetric]
    by (cases p) (auto simp: validate_safe_path_def list_ex_iff get_at_0 Let_def
        is_byte_separator_def [abs_def] split: list.splits option.splits)
qed

interpretation utf16: policy_encoding encode_utf16 validate_safe_utf16_path
proof (rule policy_encoding.intro [OF utf16_is_ascii_encoding], unfold_locales)
  show "validate_safe_utf16_path p =
     (if p = [] then Inl Empty
      else if of_nat 0 \<in> set p then Inl Nul
      else if hd p = of_nat 0x2f \<or> hd p = of_nat 0x5c
      then (if \<exists>d ds. tl p = d # ds \<and> (d = of_nat 0x2f \<or> d = of_nat 0x5c) then Inl Unc
            else Inl Absolute)
      else if (\<exists>l. ascii_letter l \<and> hd p = of_nat l) \<and> (\<exists>ds. tl p = of_nat 0x3a # ds) then Inl Drive
      else if [of_nat 0x2e, of_nat 0x2e] \<in> set (split_on (\<lambda>u. u = of_nat 0x2f \<or> u = of_nat 0x5c) p)
      then Inl Traversal
      else Inr ())" for p
    unfolding u16_letter [symmetric]
    by (cases p) (auto simp: validate_safe_utf16_path_def list_ex_iff get_at_0 Let_def
        is_u16_separator_def [abs_def] is_u16_letter_def split: list.splits option.splits)
qed

text \<open>C23: A name either validator accepts is relative, free of NUL, does not start with a separator
  (so not with a device prefix either) nor with a letter and a colon (a drive prefix), and walking its
  components from any directory never leaves that directory.\<close>

theorem safe_path_stays_below:
  "(validate_safe_path p = Inr () \<longrightarrow>
      0 \<notin> set p \<and> \<not> is_byte_separator (hd p)
      \<and> \<not> (\<exists>letter rest. p = letter # 0x3a # rest \<and> is_ascii_alphabetic letter)
      \<and> (\<exists>c cs. split_on is_byte_separator p = c # cs \<and> c \<noteq> [])
      \<and> (\<exists>below. walk 0x2e dir (split_on is_byte_separator p) = below @ dir))
   \<and> (validate_safe_utf16_path q = Inr () \<longrightarrow>
      0 \<notin> set q \<and> \<not> is_u16_separator (hd q)
      \<and> \<not> (\<exists>letter rest. q = letter # 0x3a # rest \<and> is_u16_letter letter)
      \<and> (\<exists>c cs. split_on is_u16_separator q = c # cs \<and> c \<noteq> [])
      \<and> (\<exists>below. walk 0x2e dir' (split_on is_u16_separator q) = below @ dir'))"
  using byte_path.stays_below [of p dir] byte_path.not_rooted [of p] byte_path.accepts [of p]
    utf16_path.stays_below [of q dir'] utf16_path.not_rooted [of q] utf16_path.accepts [of q]
  by blast

theorem safe_path_stays_below_witness:
  "validate_safe_path [0x61, 0x2f, 0x62] = Inr () \<and> validate_safe_path [0x61, 0x3a, 0x62] = Inl Drive \<and>
   (\<exists>below. walk 0x2e [[0x78]] (split_on is_byte_separator [0x61, 0x2f, 0x62]) = below @ [[0x78]])"
proof -
  have "validate_safe_path [0x61, 0x2f, 0x62] = Inr ()" "validate_safe_path [0x61, 0x3a, 0x62] = Inl Drive"
    by (simp_all add: validate_safe_path_def is_byte_separator_def is_ascii_alphabetic_def get_at_def)
  then show ?thesis
    using safe_path_stays_below [of "[0x61, 0x2f, 0x62]" "[[0x78]]"] by blast
qed

text \<open>C24: On the UTF-8 bytes and on the UTF-16 units of the same text the two validators give the
  same verdict, the reason included.\<close>

theorem validators_agree:
  "validate_safe_path (concat (map encode_utf8 cs)) = validate_safe_utf16_path (concat (map encode_utf16 cs))"
  using utf8.agrees [of cs] utf16.agrees [of cs]
  by (simp add: utf8.units_def utf16.units_def)

text \<open>C25: The validator reports the first applicable reason, in the order of its checks: emptiness,
  NUL, root (device or absolute), drive prefix, parent component.\<close>

theorem validate_safe_path_reason:
  "validate_safe_path (concat (map encode_utf8 cs)) = classify cs"
  using utf8.agrees [of cs] by (simp add: utf8.units_def)

end
