(* ===== verification/Errors.thy ===== *)
theory Errors
  imports Prelude
begin

text \<open>
  The typed failures of \<open>error.rs\<close>: the checksum layers, the configurable limits, the error
  values with their payload-free classification (\<open>Error::kind\<close>) and their rendering
  (\<open>impl Display\<close>). \<open>io::Error\<close> is kept as its kind and message.
\<close>

datatype error_kind =
    KindFormat | KindChecksum | KindUnsupportedMethod | KindUnsupportedFeature
  | KindLimitExceeded | KindMissingVolume | KindPasswordRequired | KindWrongPasswordOrCorrupt
  | KindCancelled | KindIo

datatype checksum_scope =
    StartHeader | NextHeader | EncodedHeader | PackedStream | FolderScope | AdditionalStream
  | Member

datatype limit_kind =
    HeaderBytes | Files | Folders | CodersPerFolder | TotalCoders | StreamsPerFolder
  | TotalStreams | StreamFrames | Substreams | HeaderProperties | CoderPropertyBytes
  | NameBytesPerEntry | TotalNameBytes | DictionaryBytes | EntryOutputBytes | TotalOutputBytes
  | Volumes | TotalInputBytes | KdfPower | RecursionDepth | SfxScanBytes | WorkUnits

datatype io_kind = OutOfMemory | InvalidData | UnexpectedEof | Interrupted | NotFound | OtherIo

datatype error =
    Format string
  | StreamFormat string string
  | Checksum checksum_scope "nat option"
  | StreamChecksum string nat
  | UnsupportedMethod "u8 list"
  | UnsupportedFeature string
  | UnsupportedStreamFeature string string
  | LimitExceeded limit_kind nat nat
  | MissingVolume string
  | PasswordRequired
  | WrongPasswordOrCorrupt
  | Cancelled
  | Io io_kind string

fun kind :: "error \<Rightarrow> error_kind" where
  "kind (Format _) = KindFormat"
| "kind (StreamFormat _ _) = KindFormat"
| "kind (Checksum _ _) = KindChecksum"
| "kind (StreamChecksum _ _) = KindChecksum"
| "kind (UnsupportedMethod _) = KindUnsupportedMethod"
| "kind (UnsupportedFeature _) = KindUnsupportedFeature"
| "kind (UnsupportedStreamFeature _ _) = KindUnsupportedFeature"
| "kind (LimitExceeded _ _ _) = KindLimitExceeded"
| "kind (MissingVolume _) = KindMissingVolume"
| "kind PasswordRequired = KindPasswordRequired"
| "kind WrongPasswordOrCorrupt = KindWrongPasswordOrCorrupt"
| "kind Cancelled = KindCancelled"
| "kind (Io _ _) = KindIo"

section \<open>Rendering\<close>

fun scope_name :: "checksum_scope \<Rightarrow> string" where
  "scope_name StartHeader = ''start header''"
| "scope_name NextHeader = ''next header''"
| "scope_name EncodedHeader = ''encoded header''"
| "scope_name PackedStream = ''packed stream''"
| "scope_name FolderScope = ''folder''"
| "scope_name AdditionalStream = ''additional stream''"
| "scope_name Member = ''member''"

fun limit_name :: "limit_kind \<Rightarrow> string" where
  "limit_name HeaderBytes = ''header bytes''"
| "limit_name Files = ''files''"
| "limit_name Folders = ''folders''"
| "limit_name CodersPerFolder = ''coders per folder''"
| "limit_name TotalCoders = ''total coders''"
| "limit_name StreamsPerFolder = ''streams per folder''"
| "limit_name TotalStreams = ''total streams''"
| "limit_name StreamFrames = ''compressed stream frames''"
| "limit_name Substreams = ''substreams''"
| "limit_name HeaderProperties = ''header properties''"
| "limit_name CoderPropertyBytes = ''coder property bytes''"
| "limit_name NameBytesPerEntry = ''name bytes per entry''"
| "limit_name TotalNameBytes = ''total name bytes''"
| "limit_name DictionaryBytes = ''dictionary bytes''"
| "limit_name EntryOutputBytes = ''entry output bytes''"
| "limit_name TotalOutputBytes = ''total output bytes''"
| "limit_name Volumes = ''volumes''"
| "limit_name TotalInputBytes = ''total input bytes''"
| "limit_name KdfPower = ''KDF power''"
| "limit_name RecursionDepth = ''recursion depth''"
| "limit_name SfxScanBytes = ''SFX scan bytes''"
| "limit_name WorkUnits = ''work units''"

text \<open>\<open>{}\<close> of an unsigned integer, and \<open>{:02x}\<close> of a byte.\<close>

definition digit :: "nat \<Rightarrow> char" where
  "digit d = (''0123456789abcdef'' ! d)"

fun decimal :: "nat \<Rightarrow> string" where
  "decimal n = (if n < 10 then [digit n] else decimal (n div 10) @ [digit (n mod 10)])"

declare decimal.simps [simp del]

definition hex_byte :: "u8 \<Rightarrow> string" where
  "hex_byte b = [digit (unat b div 16), digit (unat b mod 16)]"

fun display :: "error \<Rightarrow> string" where
  "display (Format detail) = ''invalid 7z format: '' @ detail"
| "display (StreamFormat format detail) = ''invalid '' @ format @ '' stream: '' @ detail"
| "display (Checksum scope (Some index)) =
     scope_name scope @ '' checksum mismatch at member '' @ decimal index"
| "display (Checksum scope None) = scope_name scope @ '' checksum mismatch''"
| "display (StreamChecksum format frame_index) =
     format @ '' checksum mismatch at frame '' @ decimal frame_index"
| "display (UnsupportedMethod method_id) =
     ''unsupported 7z method 0x'' @ concat (map hex_byte method_id)"
| "display (UnsupportedFeature feature) = ''unsupported 7z feature: '' @ feature"
| "display (UnsupportedStreamFeature format feature) =
     ''unsupported '' @ format @ '' stream feature: '' @ feature"
| "display (LimitExceeded limit requested maximum) =
     ''limit exceeded for '' @ limit_name limit @ '': requested '' @ decimal requested @
     '', maximum '' @ decimal maximum"
| "display (MissingVolume expected) = ''missing archive volume: '' @ expected"
| "display PasswordRequired = ''archive password required''"
| "display WrongPasswordOrCorrupt = ''wrong password or corrupt encrypted data''"
| "display Cancelled = ''archive operation cancelled''"
| "display (Io _ message) = ''archive I/O error: '' @ message"

text \<open>The method identifier can be read back from its rendering.\<close>

lemma digit_inject: "d < 16 \<Longrightarrow> e < 16 \<Longrightarrow> digit d = digit e \<Longrightarrow> d = e"
proof -
  have "distinct ''0123456789abcdef''" by simp
  then show "d < 16 \<Longrightarrow> e < 16 \<Longrightarrow> digit d = digit e \<Longrightarrow> d = e"
    by (simp add: digit_def nth_eq_iff_index_eq)
qed

lemma hex_byte_inject: "hex_byte a = hex_byte b \<longleftrightarrow> a = b"
proof
  assume h: "hex_byte a = hex_byte b"
  have "unat a < 256" "unat b < 256" by (simp_all add: unsigned_less [of a, simplified] unsigned_less [of b, simplified])
  with h have "unat a div 16 = unat b div 16" "unat a mod 16 = unat b mod 16"
    by (auto simp: hex_byte_def intro: digit_inject)
  then have "unat a = unat b" by (metis div_mult_mod_eq)
  then show "a = b" by (simp add: word_unat_eq_iff)
qed simp

lemma concat_hex_inject: "concat (map hex_byte xs) = concat (map hex_byte ys) \<Longrightarrow> xs = ys"
proof (induction xs arbitrary: ys)
  case Nil
  then show ?case by (cases ys) (simp_all add: hex_byte_def)
next
  case (Cons x xs)
  then obtain y ys' where ys: "ys = y # ys'"
    by (cases ys) (simp_all add: hex_byte_def)
  with Cons.prems have "hex_byte x @ concat (map hex_byte xs) = hex_byte y @ concat (map hex_byte ys')"
    by simp
  then have "hex_byte x = hex_byte y \<and> concat (map hex_byte xs) = concat (map hex_byte ys')"
    by (simp add: hex_byte_def)
  with Cons.IH ys show ?case by (simp add: hex_byte_inject)
qed

lemma limit_name_inject: "limit_name a = limit_name b \<Longrightarrow> a = b"
  by (cases a; cases b; simp)

end
