(* ===== verification/Limits.thy ===== *)
theory Limits
  imports Errors
begin

text \<open>
  The resource limits of \<open>limits.rs\<close>: one field per configurable bound and the default set.
  The builder of the source overrides single fields, which is record update here.
\<close>

record limits =
  max_header_bytes :: nat
  max_files :: nat
  max_folders :: nat
  max_coders_per_folder :: nat
  max_total_coders :: nat
  max_streams_per_folder :: nat
  max_total_streams :: nat
  max_stream_frames :: nat
  max_substreams :: nat
  max_header_properties :: nat
  max_coder_property_bytes :: nat
  max_name_bytes_per_entry :: nat
  max_total_name_bytes :: nat
  max_dictionary_bytes :: nat
  max_entry_output_bytes :: nat
  max_total_output_bytes :: nat
  max_volumes :: nat
  max_total_input_bytes :: nat
  max_kdf_power :: nat
  max_recursion_depth :: nat
  sfx_scan_limit :: nat

definition DEFAULT :: limits where
  "DEFAULT = \<lparr>
    max_header_bytes = 64 * 1024 * 1024,
    max_files = 100000,
    max_folders = 100000,
    max_coders_per_folder = 32,
    max_total_coders = 100000,
    max_streams_per_folder = 1024,
    max_total_streams = 200000,
    max_stream_frames = 100000,
    max_substreams = 100000,
    max_header_properties = 100000,
    max_coder_property_bytes = 1024 * 1024,
    max_name_bytes_per_entry = 1024 * 1024,
    max_total_name_bytes = 64 * 1024 * 1024,
    max_dictionary_bytes = 256 * 1024 * 1024,
    max_entry_output_bytes = 2 * 1024 * 1024 * 1024,
    max_total_output_bytes = 8 * 1024 * 1024 * 1024,
    max_volumes = 1024,
    max_total_input_bytes = 64 * 1024 * 1024 * 1024,
    max_kdf_power = 24,
    max_recursion_depth = 64,
    sfx_scan_limit = 1024 * 1024\<rparr>"

end
