(* ===== verification/Control.thy ===== *)
theory Control
  imports Limits
begin

text \<open>
  Operation control (\<open>cancel.rs\<close>, \<open>parse_util.rs\<close>): the cancellation token, the work
  budget and the allocation, checked-range and limit helpers.

  The token is shared with other threads and only ever goes from running to cancelled, so all a
  run can see of it is which of its loads is the first to read \<open>true\<close>: \<open>cancel_in\<close> is the
  number of loads before that one (\<open>None\<close>: never cancelled). The allocator is treated the same
  way: \<open>oom_in\<close> is the number of reservations that succeed before the first that fails. The
  schedules are arbitrary, and every operation of the source ends at the first failure of either
  kind, so they range over everything the environment can do.
\<close>

record control =
  cancel_in :: "nat option"
  oom_in :: "nat option"
  remaining :: "nat option"
  consumed :: nat

section \<open>Cancellation and the work budget\<close>

text \<open>\<open>WorkBudget::bounded\<close> and \<open>WorkBudget::unlimited\<close> with a running token.\<close>

definition bounded :: "nat \<Rightarrow> control" where
  "bounded units = \<lparr>cancel_in = None, oom_in = None, remaining = Some units, consumed = 0\<rparr>"

definition unlimited :: control where
  "unlimited = \<lparr>cancel_in = None, oom_in = None, remaining = None, consumed = 0\<rparr>"

definition check :: "('z control_scheme, error, unit) comp" where
  "check c = (case cancel_in c of
      None \<Rightarrow> (Inr (), c)
    | Some 0 \<Rightarrow> (Inl Cancelled, c)
    | Some (Suc n) \<Rightarrow> (Inr (), c\<lparr>cancel_in := Some n\<rparr>))"

definition charge :: "nat \<Rightarrow> ('z control_scheme, error, unit) comp" where
  "charge units c =
     (case (case remaining c of
              Some r \<Rightarrow> (case checked_sub r units of
                           None \<Rightarrow> Inl (LimitExceeded WorkUnits units r)
                         | Some r' \<Rightarrow> Inr (Some r'))
            | None \<Rightarrow> Inr None) of
        Inl e \<Rightarrow> (Inl e, c)
      | Inr updated_remaining \<Rightarrow>
          (case checked_add (consumed c) units of
             None \<Rightarrow>
               (case checked_sub (2 ^ 64 - 1) (consumed c) of
                  None \<Rightarrow> (Inl (LimitExceeded WorkUnits units 0), c)
                | Some maximum \<Rightarrow> (Inl (LimitExceeded WorkUnits units maximum), c))
           | Some updated_consumed \<Rightarrow>
               (Inr (), c\<lparr>remaining := updated_remaining, consumed := updated_consumed\<rparr>)))"

definition checkpoint :: "nat \<Rightarrow> ('z control_scheme, error, unit) comp" where
  "checkpoint units = bind check (\<lambda>_. charge units)"

section \<open>Conversions, ranges, limits and allocation\<close>

definition format_error :: "string \<Rightarrow> error" where
  "format_error detail = Format detail"

definition usize_to_u64 :: "nat \<Rightarrow> string \<Rightarrow> ('s, error, nat) comp" where
  "usize_to_u64 v detail = (if v < 2 ^ 64 then ret v else fail (format_error detail))"

definition u64_to_usize :: "nat \<Rightarrow> string \<Rightarrow> ('s, error, nat) comp" where
  "u64_to_usize v detail = (if v < 2 ^ 64 then ret v else fail (format_error detail))"

definition CONTROL_CHUNK_SIZE :: nat where
  "CONTROL_CHUNK_SIZE = 4096"

definition consume_bytes :: "u8 list \<Rightarrow> ('z control_scheme, error, unit) comp" where
  "consume_bytes bytes =
     (if bytes = [] then checkpoint 0
      else fold_for (\<lambda>chunk _.
             bind (usize_to_u64 (length chunk) ''work chunk length is not representable as u64'')
               checkpoint) (chunks CONTROL_CHUNK_SIZE bytes) ())"

definition checked_range ::
  "u8 list \<Rightarrow> nat \<Rightarrow> nat \<Rightarrow> string \<Rightarrow> string \<Rightarrow> ('s, error, u8 list) comp" where
  "checked_range bytes start len overflow_detail truncated_detail =
     bind (ok_or (checked_add start len) (format_error overflow_detail)) (\<lambda>end_u64.
     bind (u64_to_usize start ''byte range start is not representable on this platform'') (\<lambda>start.
     bind (u64_to_usize end_u64 ''byte range end is not representable on this platform'') (\<lambda>end_at.
     ok_or (get_range bytes start end_at) (format_error truncated_detail))))"

definition check_limit :: "nat \<Rightarrow> nat \<Rightarrow> limit_kind \<Rightarrow> ('s, error, unit) comp" where
  "check_limit v maximum limit =
     (if maximum < v then fail (LimitExceeded limit v maximum) else ret ())"

text \<open>
  A fallible reservation, with the message of its place: \<open>try_reserve\<close> here, and
  the same call in the property lists of \<open>raw.rs\<close>, in \<open>filters.rs\<close> and in \<open>lzma.rs\<close>.
\<close>

definition reserve_with :: "string \<Rightarrow> nat \<Rightarrow> ('z control_scheme, error, unit) comp" where
  "reserve_with message additional c = (case oom_in c of
      None \<Rightarrow> (Inr (), c)
    | Some 0 \<Rightarrow> (Inl (Io OutOfMemory message), c)
    | Some (Suc n) \<Rightarrow> (Inr (), c\<lparr>oom_in := Some n\<rparr>))"

definition try_reserve :: "nat \<Rightarrow> ('z control_scheme, error, unit) comp" where
  "try_reserve = reserve_with ''archive model allocation failed''"

definition copy_bytes :: "u8 list \<Rightarrow> ('z control_scheme, error, u8 list) comp" where
  "copy_bytes bytes =
     bind (usize_to_u64 (length bytes) ''copied byte length is not representable as u64'') (\<lambda>n.
     bind (checkpoint n) (\<lambda>_.
     bind (try_reserve (length bytes)) (\<lambda>_.
     fold_for (\<lambda>chunk copied. bind (checkpoint 0) (\<lambda>_. ret (copied @ chunk)))
       (chunks CONTROL_CHUNK_SIZE bytes) [])))"

section \<open>Success of the helpers\<close>

lemma usize_to_u64_Inr [success]: "usize_to_u64 v d s = (Inr x, t) \<longleftrightarrow> x = v \<and> v < 2 ^ 64 \<and> t = s"
  by (auto simp: usize_to_u64_def success)

lemma u64_to_usize_Inr [success]: "u64_to_usize v d s = (Inr x, t) \<longleftrightarrow> x = v \<and> v < 2 ^ 64 \<and> t = s"
  by (auto simp: u64_to_usize_def success)

lemma check_limit_Inr [success]: "check_limit v m l s = (Inr x, t) \<longleftrightarrow> v \<le> m \<and> t = s"
  by (auto simp: check_limit_def success not_less)

lemma checked_range_Inr [success]:
  "checked_range bs a n d1 d2 s = (Inr x, t) \<longleftrightarrow>
     a + n \<le> length bs \<and> a + n < 2 ^ 64 \<and> x = take n (drop a bs) \<and> t = s"
  by (auto simp: checked_range_def success)

lemma checkpoint_Inr_frame:
  "checkpoint n c = (Inr x, c') \<Longrightarrow> control.more c' = control.more c"
  by (auto simp: checkpoint_def success check_def charge_def split: option.splits nat.splits)

lemma copy_chunks_Inr:
  "fold_for (\<lambda>chunk copied. bind (checkpoint 0) (\<lambda>_. ret (copied @ chunk))) cs acc c = (Inr ys, c')
     \<Longrightarrow> ys = acc @ concat cs"
  by (induction cs arbitrary: acc c) (fastforce simp: success)+

lemma copy_bytes_Inr: "copy_bytes bs c = (Inr ys, c') \<Longrightarrow> ys = bs"
  by (auto simp: copy_bytes_def success CONTROL_CHUNK_SIZE_def dest: copy_chunks_Inr)

section \<open>Errors of the environment\<close>

text \<open>The errors that say nothing about the input: cancellation, a spent budget, no memory.\<close>

definition resource_error :: "error \<Rightarrow> bool" where
  "resource_error e \<longleftrightarrow> e = Cancelled \<or> (\<exists>r m. e = LimitExceeded WorkUnits r m)
     \<or> (\<exists>msg. e = Io OutOfMemory msg)"

lemma checkpoint_Inl: "checkpoint n c = (Inl e, d) \<Longrightarrow> resource_error e"
  by (auto simp: checkpoint_def check_def charge_def resource_error_def bind_def
      split: option.splits nat.splits sum.splits prod.splits)

lemma reserve_with_Inl: "reserve_with m n c = (Inl e, d) \<Longrightarrow> resource_error e"
  by (auto simp: reserve_with_def resource_error_def split: option.splits nat.splits)

lemma try_reserve_Inl: "try_reserve n c = (Inl e, d) \<Longrightarrow> resource_error e"
  unfolding try_reserve_def by (rule reserve_with_Inl)

section \<open>Metering\<close>

text \<open>
  The order every operation moves the control state along: work is only added to \<open>consumed\<close>,
  exactly what is added is taken from a bounded budget, and the environment's schedules only run
  down.
\<close>

definition runs_down :: "nat option \<Rightarrow> nat option \<Rightarrow> bool" where
  "runs_down a b = (case a of None \<Rightarrow> b = None | Some n \<Rightarrow> (\<exists>m\<le>n. b = Some m))"

definition metered_le :: "'z control_scheme \<Rightarrow> 'z control_scheme \<Rightarrow> bool" where
  "metered_le c d \<longleftrightarrow>
     consumed c \<le> consumed d
     \<and> (case remaining c of
          None \<Rightarrow> remaining d = None
        | Some r \<Rightarrow> (\<exists>r'. remaining d = Some r' \<and> r' + (consumed d - consumed c) = r))
     \<and> runs_down (cancel_in c) (cancel_in d)
     \<and> runs_down (oom_in c) (oom_in d)"

lemma runs_down_refl [simp]: "runs_down a a"
  by (simp add: runs_down_def split: option.splits)

lemma runs_down_trans: "runs_down a b \<Longrightarrow> runs_down b c \<Longrightarrow> runs_down a c"
  by (auto simp: runs_down_def split: option.splits)

interpretation metered: state_order metered_le
proof
  fix s :: "'z control_scheme"
  show "metered_le s s" by (auto simp: metered_le_def split: option.splits)
next
  fix s t u :: "'z control_scheme"
  assume "metered_le s t" "metered_le t u"
  then show "metered_le s u"
    by (auto simp: metered_le_def split: option.splits intro: runs_down_trans)
qed

lemma metered_check [frame]: "metered.keeps check"
  by (rule metered.keepsI)
     (auto simp: check_def metered_le_def runs_down_def split: option.splits nat.splits)

lemma metered_charge [frame]: "metered.keeps (charge n)"
  by (rule metered.keepsI)
     (auto simp: charge_def metered_le_def runs_down_def split: option.splits nat.splits sum.splits)

lemma metered_reserve [frame]: "metered.keeps (reserve_with m n)"
  by (rule metered.keepsI)
     (auto simp: reserve_with_def metered_le_def runs_down_def split: option.splits nat.splits)

lemma metered_checkpoint [frame]: "metered.keeps (checkpoint n)"
  by (auto simp: checkpoint_def intro: metered.keeps_rules frame)

lemma metered_try_reserve [frame]: "metered.keeps (try_reserve n)"
  by (simp add: try_reserve_def frame)

lemma metered_pure [frame]:
  "metered.keeps (usize_to_u64 v d)" "metered.keeps (u64_to_usize v d)"
  "metered.keeps (check_limit v m l)" "metered.keeps (checked_range bs a n d1 d2)"
  by (simp_all add: usize_to_u64_def u64_to_usize_def check_limit_def checked_range_def
      metered.keeps_rules)

lemma metered_consume_bytes [frame]: "metered.keeps (consume_bytes bs)"
  by (auto simp: consume_bytes_def intro!: metered.keeps_rules frame)

lemma metered_copy_bytes [frame]: "metered.keeps (copy_bytes bs)"
  by (auto simp: copy_bytes_def intro!: metered.keeps_rules frame)


section \<open>Paying for bytes\<close>

text \<open>What a number of checks and of units needs of the control, and what they leave of it.\<close>

definition not_cancelled_within :: "nat \<Rightarrow> 'z control_scheme \<Rightarrow> bool" where
  "not_cancelled_within n c \<longleftrightarrow> (case cancel_in c of None \<Rightarrow> True | Some k \<Rightarrow> n \<le> k)"

definition affords :: "nat \<Rightarrow> 'z control_scheme \<Rightarrow> bool" where
  "affords units c \<longleftrightarrow> (case remaining c of None \<Rightarrow> True | Some r \<Rightarrow> units \<le> r) \<and> consumed c + units < 2 ^ 64"

definition spent :: "nat \<Rightarrow> nat \<Rightarrow> 'z control_scheme \<Rightarrow> 'z control_scheme" where
  "spent n units c = c\<lparr>cancel_in := map_option (\<lambda>k. k - n) (cancel_in c),
     remaining := map_option (\<lambda>r. r - units) (remaining c), consumed := consumed c + units\<rparr>"

lemma spent_0 [simp]: "spent 0 0 c = c"
  by (simp add: spent_def option.map_ident)

lemma spent_spent: "spent m v (spent n u c) = spent (n + m) (u + v) c"
  by (cases "cancel_in c"; cases "remaining c") (simp_all add: spent_def add.assoc)

lemma spent_within:
  "not_cancelled_within n c \<Longrightarrow> not_cancelled_within m (spent n u c) \<longleftrightarrow> not_cancelled_within (n + m) c"
  "affords u c \<Longrightarrow> affords v (spent n u c) \<longleftrightarrow> affords (u + v) c"
  by (auto simp: not_cancelled_within_def affords_def spent_def split: option.splits)

lemma within_mono:
  "not_cancelled_within (n + m) c \<Longrightarrow> not_cancelled_within n c" "affords (u + v) c \<Longrightarrow> affords u c"
  by (auto simp: not_cancelled_within_def affords_def split: option.splits)

lemma check_spent: "check c = (Inr x, d) \<longleftrightarrow> not_cancelled_within 1 c \<and> d = spent 1 0 c"
  by (auto simp: check_def not_cancelled_within_def spent_def option.map_ident split: option.splits nat.splits)

lemma charge_spent: "charge u c = (Inr x, d) \<longleftrightarrow> affords u c \<and> d = spent 0 u c"
  by (auto simp: charge_def affords_def spent_def option.map_ident split: option.splits)

lemma checkpoint_spent:
  "checkpoint u c = (Inr x, d) \<longleftrightarrow> not_cancelled_within 1 c \<and> affords u c \<and> d = spent 1 u c"
proof -
  have "affords u (spent 1 0 c) \<longleftrightarrow> affords u c" by (simp add: affords_def spent_def option.map_ident)
  then show ?thesis by (auto simp: checkpoint_def bind_Inr check_spent charge_spent spent_spent)
qed

lemma chunk_checkpoints_spent:
  assumes "\<forall>ch\<in>set chs. length ch < 2 ^ 64"
  shows "fold_for (\<lambda>ch _. bind (usize_to_u64 (length ch) detail) checkpoint) chs () c = (Inr x, d) \<longleftrightarrow>
    not_cancelled_within (length chs) c \<and> (chs = [] \<or> affords (length (concat chs)) c)
    \<and> d = spent (length chs) (length (concat chs)) c"
  using assms
proof (induction chs arbitrary: c)
  case Nil
  then show ?case by (auto simp: ret_Inr not_cancelled_within_def split: option.splits)
next
  case (Cons ch chs)
  let ?d = "spent 1 (length ch) c"
  have "fold_for (\<lambda>ch _. bind (usize_to_u64 (length ch) detail) checkpoint) (ch # chs) () c = (Inr x, d) \<longleftrightarrow>
      (not_cancelled_within 1 c \<and> affords (length ch) c)
      \<and> fold_for (\<lambda>ch _. bind (usize_to_u64 (length ch) detail) checkpoint) chs () ?d = (Inr x, d)"
    using Cons.prems by (auto simp: bind_Inr usize_to_u64_Inr checkpoint_spent)
  also have "\<dots> \<longleftrightarrow> (not_cancelled_within 1 c \<and> affords (length ch) c) \<and> not_cancelled_within (length chs) ?d
      \<and> (chs = [] \<or> affords (length (concat chs)) ?d) \<and> d = spent (length chs) (length (concat chs)) ?d"
    using Cons.IH [of ?d] Cons.prems by simp
  also have "\<dots> \<longleftrightarrow> not_cancelled_within (length (ch # chs)) c \<and> affords (length (concat (ch # chs))) c
      \<and> d = spent (length (ch # chs)) (length (concat (ch # chs))) c"
    using spent_within [of 1 c "length chs" "length ch"] spent_within(2) [of "length ch" c "length (concat chs)" 1]
      within_mono(1) [of 1 "length chs" c] within_mono(2) [of "length ch" "length (concat chs)" c]
    by (auto simp: spent_spent)
  finally show ?case by simp
qed

lemma length_chunks: "0 < n \<Longrightarrow> length (chunks n xs) = (length xs + (n - 1)) div n"
proof (induction n xs rule: chunks.induct)
  case (1 n xs)
  show ?case
  proof (cases "xs = []")
    case False
    then have pos: "0 < length xs" by simp
    have "length (chunks n xs) = Suc ((length xs - n + (n - 1)) div n)"
      using 1 False by (subst chunks.simps) simp
    also have "\<dots> = (length xs + (n - 1)) div n"
    proof (cases "n \<le> length xs")
      case True
      then have eq: "length xs + (n - 1) = (length xs - n + (n - 1)) + n" by simp
      have "n \<noteq> 0" using 1(2) by simp
      then show ?thesis unfolding eq using div_add_self2 [of n "length xs - n + (n - 1)"] by linarith
    next
      case False
      then have "(length xs + (n - 1)) div n = Suc 0"
        using pos by (intro div_nat_eqI) linarith+
      then show ?thesis using False 1(2) by simp
    qed
    finally show ?thesis .
  qed (use 1(2) in simp)
qed

text \<open>C26: Paying for a byte string completes exactly when the token is not cancelled during one check for
  every 4096 bytes (one for the empty string), the budget holds one unit for every byte and the consumed
  counter does not overflow; it then takes exactly these units, however the string falls into
  chunks.\<close>

theorem consume_bytes_exact:
  "consume_bytes bytes c = (Inr (), d) \<longleftrightarrow>
     not_cancelled_within (max 1 ((length bytes + 4095) div 4096)) c \<and> affords (length bytes) c
     \<and> d = spent (max 1 ((length bytes + 4095) div 4096)) (length bytes) c"
proof (cases "bytes = []")
  case True
  then show ?thesis by (simp add: consume_bytes_def checkpoint_spent)
next
  case False
  let ?chs = "chunks CONTROL_CHUNK_SIZE bytes"
  have size: "0 < CONTROL_CHUNK_SIZE" "CONTROL_CHUNK_SIZE = 4096" by (simp_all add: CONTROL_CHUNK_SIZE_def)
  have all: "concat ?chs = bytes" and n: "length ?chs = (length bytes + 4095) div 4096"
    using concat_chunks [OF size(1), of bytes] length_chunks [OF size(1), of bytes] by (simp_all add: CONTROL_CHUNK_SIZE_def)
  have "0 < length bytes" using False by simp
  then have "4096 \<le> length bytes + 4095" by linarith
  then have "1 \<le> (length bytes + 4095) div 4096" by (metis div_le_mono div_self zero_neq_numeral)
  then have max: "max 1 ((length bytes + 4095) div 4096) = length ?chs" by (simp add: n)
  have small: "\<forall>ch\<in>set ?chs. length ch < 2 ^ 64" using length_chunks_le [of _ CONTROL_CHUNK_SIZE bytes] size(2) by fastforce
  have "?chs \<noteq> []" using all False by auto
  then show ?thesis
    unfolding max using False chunk_checkpoints_spent [OF small, of _ c "()" d] by (simp add: consume_bytes_def all)
qed

section \<open>Evaluation\<close>

text \<open>The definitions a run on concrete bytes unfolds.\<close>

lemmas run_control = unlimited_def bounded_def u64_to_usize_def usize_to_u64_def checkpoint_def check_def
  charge_def try_reserve_def reserve_with_def checked_add_def checked_sub_def check_limit_def
  checked_range_def get_at_def get_range_def copy_bytes_def consume_bytes_def chunks.simps
  CONTROL_CHUNK_SIZE_def run ok_or_def guard_def Let_def two_list

end
