(* ===== verification/Bounded.thy ===== *)
theory Bounded
  imports Control
begin

unbundle bit_operations_syntax

text \<open>
  The bounds-checked slice reader of \<open>bounded.rs\<close>. A \<open>BoundedReader\<close> is a slice and a
  position; its operations run on a state that holds one next to the operation control, and a
  child reader is a run with another slice in its place.
\<close>

record reader = control +
  rbytes :: "u8 list"
  rpos :: nat

definition le_bytes :: "u8 list \<Rightarrow> nat" where
  "le_bytes bs = foldr (\<lambda>b n. unat b + 256 * n) bs 0"

definition read_bytes :: "nat \<Rightarrow> ('z reader_scheme, error, u8 list) comp" where
  "read_bytes len s =
     (case u64_to_usize len ''byte range length is not representable on this platform'' s of
        (Inl e, _) \<Rightarrow> (Inl e, s)
      | (Inr requested, _) \<Rightarrow>
          (case checked_add (rpos s) requested of
             None \<Rightarrow> (Inl (Format ''byte range end overflows this platform''), s)
           | Some end_at \<Rightarrow>
               (case get_range (rbytes s) (rpos s) end_at of
                  None \<Rightarrow> (Inl (Format ''truncated bounded byte range''), s)
                | Some bytes \<Rightarrow> (Inr bytes, s\<lparr>rpos := end_at\<rparr>))))"

definition read_u8 :: "('z reader_scheme, error, u8) comp" where
  "read_u8 = bind (read_bytes 1) (\<lambda>bytes. ok_or (get_at bytes 0) (Format ''truncated byte value''))"

definition read_u32_le :: "('z reader_scheme, error, u32) comp" where
  "read_u32_le = bind (read_bytes 4) (\<lambda>bytes.
     if length bytes = 4 then ret (of_nat (le_bytes bytes))
     else fail (Format ''truncated little-endian u32''))"

definition read_u64_le :: "('z reader_scheme, error, nat) comp" where
  "read_u64_le = bind (read_bytes 8) (\<lambda>bytes.
     if length bytes = 8 then ret (le_bytes bytes)
     else fail (Format ''truncated little-endian u64''))"

text \<open>
  The 7z variable-length integer: each leading one of the first byte announces one more byte of
  the value, lowest first, and the bits after the first zero are its top. The loop runs over the
  eight shifts of the source; it keeps the mask in a byte and the value in a 64-bit word.
\<close>

fun uint_loop :: "nat list \<Rightarrow> u8 \<Rightarrow> u8 \<Rightarrow> u64 \<Rightarrow> ('z reader_scheme, error, nat) comp" where
  "uint_loop [] first bit_mask v = ret (unat v)"
| "uint_loop (shift # shifts) first bit_mask v =
     (if first AND bit_mask = 0
      then bind (ok_or (if bit_mask = 0 then None else Some (bit_mask - 1))
                   (Format ''7z integer mask underflows''))
             (\<lambda>low_mask. ret (unat (v OR push_bit shift (ucast (first AND low_mask)))))
      else bind read_u8
             (\<lambda>b. uint_loop shifts first (drop_bit 1 bit_mask) (v OR push_bit shift (ucast b))))"

definition read_7z_uint :: "('z reader_scheme, error, nat) comp" where
  "read_7z_uint = bind read_u8 (\<lambda>first. uint_loop [0, 8, 16, 24, 32, 40, 48, 56] first 0x80 0)"

definition finish :: "string \<Rightarrow> ('z reader_scheme, error, unit) comp" where
  "finish unconsumed_detail s =
     (if rpos s = length (rbytes s) then (Inr (), s) else (Inl (Format unconsumed_detail), s))"

definition with_child ::
  "u8 list \<Rightarrow> ('z reader_scheme, error, 'a) comp \<Rightarrow> ('z reader_scheme, error, 'a) comp" where
  "with_child bytes m s =
     (case m (s\<lparr>rbytes := bytes, rpos := 0\<rparr>) of
        (r, t) \<Rightarrow> (r, t\<lparr>rbytes := rbytes s, rpos := rpos s\<rparr>))"

definition parse_exact ::
  "nat \<Rightarrow> string \<Rightarrow> ('z reader_scheme, error, 'a) comp \<Rightarrow> ('z reader_scheme, error, 'a) comp" where
  "parse_exact len unconsumed_detail parse =
     bind (read_bytes len) (\<lambda>bytes.
       with_child bytes (bind parse (\<lambda>v. bind (finish unconsumed_detail) (\<lambda>_. ret v))))"

text \<open>\<open>BoundedReader::new\<close> under a bare control: run with a fresh reader, drop it afterwards.\<close>

definition with_reader :: "u8 list \<Rightarrow> (reader, error, 'a) comp \<Rightarrow> (control, error, 'a) comp" where
  "with_reader bytes m c =
     (case m (control.extend c (reader.fields bytes 0)) of (r, t) \<Rightarrow> (r, control.truncate t))"

section \<open>What a successful read returns\<close>

lemma read_bytes_Inr [success]:
  "read_bytes n s = (Inr x, t) \<longleftrightarrow>
     rpos s + n \<le> length (rbytes s) \<and> rpos s + n < 2 ^ 64 \<and> x = take n (drop (rpos s) (rbytes s))
     \<and> t = s\<lparr>rpos := rpos s + n\<rparr>"
  by (auto simp: read_bytes_def u64_to_usize_def ret_def fail_def split: option.splits if_splits)
     (auto simp: get_range_def split: if_splits)

lemma read_bytes_Inl:
  "read_bytes n s = (Inl e, t) \<longleftrightarrow>
     \<not> (rpos s + n \<le> length (rbytes s) \<and> rpos s + n < 2 ^ 64) \<and> t = s \<and>
     e = Format (if 2 ^ 64 \<le> n then ''byte range length is not representable on this platform''
                 else if 2 ^ 64 \<le> rpos s + n then ''byte range end overflows this platform''
                 else ''truncated bounded byte range'')"
  by (auto simp: read_bytes_def u64_to_usize_def ret_def fail_def get_range_def format_error_def
      split: option.splits if_splits)

lemma read_u8_Inr [success]:
  "read_u8 s = (Inr x, t) \<longleftrightarrow>
     rpos s < length (rbytes s) \<and> rpos s + 1 < 2 ^ 64 \<and> x = rbytes s ! rpos s
     \<and> t = s\<lparr>rpos := rpos s + 1\<rparr>"
  by (auto simp: read_u8_def success Suc_le_eq take_Suc_conv_app_nth hd_drop_conv_nth)

lemma finish_Inr [success]: "finish d s = (Inr x, t) \<longleftrightarrow> rpos s = length (rbytes s) \<and> t = s"
  by (auto simp: finish_def)

lemma with_child_Inr [success]:
  "with_child bs m s = (Inr x, t) \<longleftrightarrow>
     (\<exists>u. m (s\<lparr>rbytes := bs, rpos := 0\<rparr>) = (Inr x, u) \<and> t = u\<lparr>rbytes := rbytes s, rpos := rpos s\<rparr>)"
  by (auto simp: with_child_def split: prod.splits)

lemma with_reader_Inr [success]:
  "with_reader bs m c = (Inr x, d) \<longleftrightarrow>
     (\<exists>u. m (control.extend c (reader.fields bs 0)) = (Inr x, u) \<and> d = control.truncate u)"
  by (auto simp: with_reader_def split: prod.splits)

section \<open>Frames: a metered reader that only advances within its slice\<close>

definition advance_le :: "'z reader_scheme \<Rightarrow> 'z reader_scheme \<Rightarrow> bool" where
  "advance_le s t \<longleftrightarrow> rbytes t = rbytes s \<and> rpos s \<le> rpos t \<and>
     (rpos s \<le> length (rbytes s) \<longrightarrow> rpos t \<le> length (rbytes s))"

definition read_le :: "'z reader_scheme \<Rightarrow> 'z reader_scheme \<Rightarrow> bool" where
  "read_le s t \<longleftrightarrow> metered_le s t \<and> advance_le s t \<and> reader.more t = reader.more s"

interpretation reads: state_order read_le
  by unfold_locales (auto simp: read_le_def advance_le_def intro: metered.le_refl metered.le_trans)

lemma reads_metered: "reads.keeps m \<Longrightarrow> metered.keeps m"
  by (auto simp: reads.keeps_def metered.keeps_def read_le_def)

lemma reader_reads [frame]: "reads.keeps (read_bytes n)" "reads.keeps (finish d)"
  by (rule reads.keepsI,
      auto simp: read_bytes_def u64_to_usize_def ret_def fail_def finish_def read_le_def
        metered_le_def advance_le_def split: option.splits if_splits)+

lemma control_reads [frame]:
  "reads.keeps check" "reads.keeps (charge n)" "reads.keeps (reserve_with m n)"
  by (rule reads.keepsI,
      auto simp: read_le_def advance_le_def metered.keepsD [OF metered_check]
        metered.keepsD [OF metered_charge] metered.keepsD [OF metered_reserve],
      auto simp: check_def charge_def reserve_with_def
        split: option.splits nat.splits sum.splits)+

lemma reads_checkpoint [frame]: "reads.keeps (checkpoint n)"
  by (auto simp: checkpoint_def intro!: reads.keeps_rules frame)

lemma reads_try_reserve [frame]: "reads.keeps (try_reserve n)"
  by (simp add: try_reserve_def frame)

lemma reads_pure [frame]:
  "reads.keeps (usize_to_u64 v d)" "reads.keeps (u64_to_usize v d)"
  "reads.keeps (check_limit v m l)" "reads.keeps (checked_range bs a n d1 d2)"
  by (simp_all add: usize_to_u64_def u64_to_usize_def check_limit_def checked_range_def
      reads.keeps_rules)

lemma reads_consume_bytes [frame]: "reads.keeps (consume_bytes bs)"
  by (auto simp: consume_bytes_def intro!: reads.keeps_rules frame)

lemma reads_with_child [frame]: "reads.keeps m \<Longrightarrow> reads.keeps (with_child bs m)"
  by (rule reads.keepsI)
     (auto simp: with_child_def read_le_def metered_le_def advance_le_def
        split: prod.splits option.splits dest!: reads.keepsD)

lemma metered_with_reader [frame]: "reads.keeps m \<Longrightarrow> metered.keeps (with_reader bs m)"
  by (rule metered.keepsI)
     (auto simp: with_reader_def read_le_def metered_le_def control.defs reader.defs
        split: prod.splits option.splits dest!: reads.keepsD)

lemma read_values [frame]:
  "reads.keeps read_u8" "reads.keeps read_u32_le" "reads.keeps read_u64_le"
  by (auto simp: read_u8_def read_u32_le_def read_u64_le_def intro!: reads.keeps_rules frame)

lemma reads_uint_loop [frame]: "reads.keeps (uint_loop shifts first bit_mask v)"
  by (induction shifts first bit_mask v rule: uint_loop.induct)
     (auto intro!: reads.keeps_rules frame)

lemma reads_7z_uint [frame]: "reads.keeps read_7z_uint"
  by (auto simp: read_7z_uint_def intro!: reads.keeps_rules frame)

lemma reads_parse_exact [frame]: "reads.keeps m \<Longrightarrow> reads.keeps (parse_exact n d m)"
  by (auto simp: parse_exact_def intro!: reads.keeps_rules frame)

end
