(* ===== verification/Raw.thy ===== *)
theory Raw
  imports Bounded
begin

unbundle bit_operations_syntax

text \<open>
  The next-header grammar of \<open>raw.rs\<close>: the borrowed syntax records, the parse state with its
  running totals, and one parser per record. A parser runs on a state that holds the operation
  control, the reader and the totals.
\<close>

section \<open>Identifiers\<close>

definition ID_END :: u8 where "ID_END = 0x00"
definition ID_HEADER :: u8 where "ID_HEADER = 0x01"
definition ID_ARCHIVE_PROPERTIES :: u8 where "ID_ARCHIVE_PROPERTIES = 0x02"
definition ID_ADDITIONAL_STREAMS_INFO :: u8 where "ID_ADDITIONAL_STREAMS_INFO = 0x03"
definition ID_MAIN_STREAMS_INFO :: u8 where "ID_MAIN_STREAMS_INFO = 0x04"
definition ID_FILES_INFO :: u8 where "ID_FILES_INFO = 0x05"
definition ID_PACK_INFO :: u8 where "ID_PACK_INFO = 0x06"
definition ID_UNPACK_INFO :: u8 where "ID_UNPACK_INFO = 0x07"
definition ID_SUBSTREAMS_INFO :: u8 where "ID_SUBSTREAMS_INFO = 0x08"
definition ID_SIZE :: u8 where "ID_SIZE = 0x09"
definition ID_CRC :: u8 where "ID_CRC = 0x0a"
definition ID_FOLDER :: u8 where "ID_FOLDER = 0x0b"
definition ID_CODERS_UNPACK_SIZE :: u8 where "ID_CODERS_UNPACK_SIZE = 0x0c"
definition ID_NUM_UNPACK_STREAM :: u8 where "ID_NUM_UNPACK_STREAM = 0x0d"
definition ID_EMPTY_STREAM :: u8 where "ID_EMPTY_STREAM = 0x0e"
definition ID_EMPTY_FILE :: u8 where "ID_EMPTY_FILE = 0x0f"
definition ID_ANTI :: u8 where "ID_ANTI = 0x10"
definition ID_NAME :: u8 where "ID_NAME = 0x11"
definition ID_CTIME :: u8 where "ID_CTIME = 0x12"
definition ID_ATIME :: u8 where "ID_ATIME = 0x13"
definition ID_MTIME :: u8 where "ID_MTIME = 0x14"
definition ID_WIN_ATTRIBUTES :: u8 where "ID_WIN_ATTRIBUTES = 0x15"
definition ID_ENCODED_HEADER :: u8 where "ID_ENCODED_HEADER = 0x17"
definition ID_START_POS :: u8 where "ID_START_POS = 0x18"
definition ID_DUMMY :: u8 where "ID_DUMMY = 0x19"

lemmas raw_ids = ID_END_def ID_HEADER_def ID_ARCHIVE_PROPERTIES_def ID_ADDITIONAL_STREAMS_INFO_def
  ID_MAIN_STREAMS_INFO_def ID_FILES_INFO_def ID_PACK_INFO_def ID_UNPACK_INFO_def
  ID_SUBSTREAMS_INFO_def ID_SIZE_def ID_CRC_def ID_FOLDER_def ID_CODERS_UNPACK_SIZE_def
  ID_NUM_UNPACK_STREAM_def ID_EMPTY_STREAM_def ID_EMPTY_FILE_def ID_ANTI_def ID_NAME_def
  ID_CTIME_def ID_ATIME_def ID_MTIME_def ID_WIN_ATTRIBUTES_def ID_ENCODED_HEADER_def
  ID_START_POS_def ID_DUMMY_def

section \<open>Syntax records\<close>

record raw_property =
  prop_id :: u8
  prop_data :: "u8 list"

record raw_coder =
  rc_method_id :: "u8 list"
  rc_inputs :: nat
  rc_outputs :: nat
  rc_properties :: "u8 list"

record raw_bind_pair =
  rb_input :: nat
  rb_output :: nat

record raw_folder =
  rf_coders :: "raw_coder list"
  rf_inputs :: nat
  rf_outputs :: nat
  rf_bind_pairs :: "raw_bind_pair list"
  rf_packed_streams :: nat
  rf_packed_indices :: "nat list option"
  rf_unpack_sizes :: "nat list"

record raw_pack_info =
  rp_position :: nat
  rp_streams :: nat
  rp_sizes :: "nat list option"
  rp_crcs :: "u32 option list option"

record raw_unpack_info =
  ru_folders :: "raw_folder list"
  ru_crcs :: "u32 option list option"

record raw_substreams_info =
  rs_counts :: "nat list"
  rs_explicit_sizes :: "nat list option"
  rs_crcs :: "u32 option list option"

record raw_streams_info =
  ri_pack :: "raw_pack_info option"
  ri_unpack :: "raw_unpack_info option"
  ri_substreams :: "raw_substreams_info option"

record raw_files_info =
  rfi_count :: nat
  rfi_properties :: "raw_property list"

record raw_header =
  rh_archive_properties :: "raw_property list"
  rh_additional_streams :: "raw_streams_info option"
  rh_main_streams :: "raw_streams_info option"
  rh_files :: "raw_files_info option"

record raw_external_folder_header =
  re_additional_streams :: raw_streams_info
  re_main_pack :: "raw_pack_info option"
  re_data_index :: nat
  re_header_bytes :: "u8 list"

datatype raw_next_header =
    RawHeader raw_header
  | RawEncoded raw_streams_info
  | RawExternalFolders raw_external_folder_header

record external_folder_data =
  ext_data_index :: nat
  ext_bytes :: "u8 list"

datatype parsed_unpack_info = UnpackComplete raw_unpack_info | UnpackExternal nat

datatype parsed_streams_info =
    StreamsComplete raw_streams_info
  | StreamsExternal "raw_pack_info option" nat

lemma case_unpack_Inr [success]:
  "(case z of UnpackComplete a \<Rightarrow> f a | UnpackExternal b \<Rightarrow> g b) s = (Inr y, t) \<longleftrightarrow>
     (\<exists>a. z = UnpackComplete a \<and> f a s = (Inr y, t)) \<or> (\<exists>b. z = UnpackExternal b \<and> g b s = (Inr y, t))"
  by (cases z) simp_all

lemma case_streams_Inr [success]:
  "(case z of StreamsComplete a \<Rightarrow> f a | StreamsExternal b c \<Rightarrow> g b c) s = (Inr y, t) \<longleftrightarrow>
     (\<exists>a. z = StreamsComplete a \<and> f a s = (Inr y, t))
     \<or> (\<exists>b c. z = StreamsExternal b c \<and> g b c s = (Inr y, t))"
  by (cases z) simp_all

lemma case_header_Inr [success]:
  "(case z of RawHeader a \<Rightarrow> f a | RawEncoded b \<Rightarrow> g b | RawExternalFolders c \<Rightarrow> h c) s = (Inr y, t) \<longleftrightarrow>
     (\<exists>a. z = RawHeader a \<and> f a s = (Inr y, t)) \<or> (\<exists>b. z = RawEncoded b \<and> g b s = (Inr y, t))
     \<or> (\<exists>c. z = RawExternalFolders c \<and> h c s = (Inr y, t))"
  by (cases z) simp_all

section \<open>Running totals\<close>

record parse_state = reader +
  total_folders :: nat
  total_coders :: nat
  total_streams :: nat
  total_packed_streams :: nat
  total_substreams :: nat
  total_properties :: nat

type_synonym ('z, 'a) parser = "('z parse_state_scheme, error, 'a) comp"

definition add_limited ::
  "('z parse_state_scheme \<Rightarrow> nat) \<Rightarrow> (nat \<Rightarrow> 'z parse_state_scheme \<Rightarrow> 'z parse_state_scheme) \<Rightarrow>
   nat \<Rightarrow> nat \<Rightarrow> limit_kind \<Rightarrow> string \<Rightarrow> ('z, unit) parser" where
  "add_limited get put additional maximum limit overflow_detail =
     bind get_state (\<lambda>s.
     bind (ok_or (checked_add (get s) additional) (format_error overflow_detail)) (\<lambda>total.
     bind (check_limit total maximum limit) (\<lambda>_.
     modify (put total))))"

definition add_folders :: "nat \<Rightarrow> limits \<Rightarrow> ('z, unit) parser" where
  "add_folders count limits = add_limited total_folders (\<lambda>n s. s\<lparr>total_folders := n\<rparr>) count
     (max_folders limits) Folders ''total folder count overflows''"

definition add_coders :: "nat \<Rightarrow> limits \<Rightarrow> ('z, unit) parser" where
  "add_coders count limits = add_limited total_coders (\<lambda>n s. s\<lparr>total_coders := n\<rparr>) count
     (max_total_coders limits) TotalCoders ''total coder count overflows''"

definition add_streams :: "nat \<Rightarrow> limits \<Rightarrow> ('z, unit) parser" where
  "add_streams count limits = add_limited total_streams (\<lambda>n s. s\<lparr>total_streams := n\<rparr>) count
     (max_total_streams limits) TotalStreams ''total stream count overflows''"

definition add_packed_streams :: "nat \<Rightarrow> limits \<Rightarrow> ('z, unit) parser" where
  "add_packed_streams count limits =
     add_limited total_packed_streams (\<lambda>n s. s\<lparr>total_packed_streams := n\<rparr>) count
     (max_total_streams limits) TotalStreams ''total packed-stream count overflows''"

definition add_substreams :: "nat \<Rightarrow> limits \<Rightarrow> ('z, unit) parser" where
  "add_substreams count limits =
     add_limited total_substreams (\<lambda>n s. s\<lparr>total_substreams := n\<rparr>) count
     (max_substreams limits) Substreams ''total substream count overflows''"

definition add_property :: "limits \<Rightarrow> ('z, unit) parser" where
  "add_property limits = add_limited total_properties (\<lambda>n s. s\<lparr>total_properties := n\<rparr>) 1
     (max_header_properties limits) HeaderProperties ''header property count overflows''"

section \<open>Primitive reads\<close>

definition raw_read_u8 :: "('z reader_scheme, error, u8) comp" where
  "raw_read_u8 = bind (checkpoint 1) (\<lambda>_. read_u8)"

definition raw_read_u32_le :: "('z reader_scheme, error, u32) comp" where
  "raw_read_u32_le = bind (checkpoint 4) (\<lambda>_. read_u32_le)"

definition raw_read_uint :: "('z reader_scheme, error, nat) comp" where
  "raw_read_uint = bind (checkpoint 9) (\<lambda>_. read_7z_uint)"

definition raw_read_bytes :: "nat \<Rightarrow> ('z reader_scheme, error, u8 list) comp" where
  "raw_read_bytes len = bind (read_bytes len) (\<lambda>bytes. bind (consume_bytes bytes) (\<lambda>_. ret bytes))"

definition new_vec :: "nat \<Rightarrow> string \<Rightarrow> ('z control_scheme, error, unit) comp" where
  "new_vec count detail = bind (u64_to_usize count detail) try_reserve"

primrec bits_loop :: "nat \<Rightarrow> u8 \<Rightarrow> u8 \<Rightarrow> ('z reader_scheme, error, bool list) comp" where
  "bits_loop 0 byte bit_mask = ret []"
| "bits_loop (Suc n) byte bit_mask =
     bind (if bit_mask = 0 then bind raw_read_u8 (\<lambda>b. ret (b, 0x80)) else ret (byte, bit_mask))
       (\<lambda>(byte, bit_mask).
     bind (bits_loop n byte (drop_bit 1 bit_mask)) (\<lambda>values.
     ret ((byte AND bit_mask \<noteq> 0) # values)))"

definition parse_bits :: "nat \<Rightarrow> ('z reader_scheme, error, bool list) comp" where
  "parse_bits count =
     bind (checkpoint count) (\<lambda>_.
     bind (new_vec count ''bit-vector count is not representable on this platform'') (\<lambda>_.
     bits_loop count 0 0))"

definition parse_digests :: "nat \<Rightarrow> ('z reader_scheme, error, u32 option list) comp" where
  "parse_digests count =
     (if count = 0 then ret [] else
     bind (checkpoint count) (\<lambda>_.
     bind raw_read_u8 (\<lambda>all_defined.
     bind (if all_defined = 0 then parse_bits count
           else bind (new_vec count
                  ''digest definition count is not representable on this platform'')
                  (\<lambda>_. ret (replicate count True))) (\<lambda>defined.
     bind (new_vec count ''digest count is not representable on this platform'') (\<lambda>_.
     map_for (\<lambda>is_defined.
       if is_defined then bind raw_read_u32_le (\<lambda>v. ret (Some v)) else ret None) defined)))))"

definition parse_sizes :: "nat \<Rightarrow> ('z reader_scheme, error, nat list) comp" where
  "parse_sizes count =
     bind (checkpoint count) (\<lambda>_.
     bind (new_vec count ''size count is not representable on this platform'') (\<lambda>_.
     repeat_for count raw_read_uint))"

section \<open>Packed streams, coders and folders\<close>

text \<open>An optional section: when its identifier is there, parse it and read the next one.\<close>

definition optional_section ::
  "u8 \<Rightarrow> u8 \<Rightarrow> ('z reader_scheme, error, 'a) comp \<Rightarrow> ('z reader_scheme, error, 'a option \<times> u8) comp" where
  "optional_section current wanted body =
     (if current = wanted
      then bind body (\<lambda>v. bind raw_read_u8 (\<lambda>next_id. ret (Some v, next_id)))
      else ret (None, current))"

definition parse_pack_info :: "limits \<Rightarrow> ('z, raw_pack_info) parser" where
  "parse_pack_info limits =
     bind raw_read_uint (\<lambda>position.
     bind raw_read_uint (\<lambda>streams.
     bind (guard (streams \<noteq> 0) (format_error ''PackInfo declares zero packed streams'')) (\<lambda>_.
     bind (add_packed_streams streams limits) (\<lambda>_.
     bind raw_read_u8 (\<lambda>id.
     bind (optional_section id ID_SIZE (parse_sizes streams)) (\<lambda>(sizes, id).
     bind (optional_section id ID_CRC (parse_digests streams)) (\<lambda>(crcs, id).
     bind (guard (id = ID_END) (format_error ''unexpected PackInfo identifier'')) (\<lambda>_.
     ret \<lparr>rp_position = position, rp_streams = streams, rp_sizes = sizes, rp_crcs = crcs\<rparr>))))))))"

definition parse_coder :: "limits \<Rightarrow> ('z reader_scheme, error, raw_coder) comp" where
  "parse_coder limits =
     bind raw_read_u8 (\<lambda>flags.
     if flags AND 0x80 \<noteq> 0 then fail (UnsupportedFeature ''alternative-coder-methods'')
     else if flags AND 0x40 \<noteq> 0 then fail (format_error ''coder uses a reserved flag'')
     else let method_length = unat (flags AND 0x0f) in
     if method_length = 0 then fail (format_error ''coder method identifier is empty'')
     else bind (raw_read_bytes method_length) (\<lambda>method_id.
     bind (if flags AND 0x10 \<noteq> 0
           then bind raw_read_uint (\<lambda>input. bind raw_read_uint (\<lambda>output.
                  if input = 0 \<or> output = 0
                  then fail (format_error ''coder stream counts must be non-zero'')
                  else ret (input, output)))
           else ret (1, 1)) (\<lambda>(input_streams, output_streams).
     bind (if flags AND 0x20 \<noteq> 0
           then bind raw_read_uint (\<lambda>len.
                bind (check_limit len (max_coder_property_bytes limits) CoderPropertyBytes) (\<lambda>_.
                raw_read_bytes len))
           else ret []) (\<lambda>properties.
     ret \<lparr>rc_method_id = method_id, rc_inputs = input_streams, rc_outputs = output_streams,
          rc_properties = properties\<rparr>))))"

text \<open>The coder loop keeps the two checked port totals.\<close>

primrec coders_loop ::
  "nat \<Rightarrow> limits \<Rightarrow> nat \<Rightarrow> nat \<Rightarrow> ('z reader_scheme, error, raw_coder list \<times> nat \<times> nat) comp" where
  "coders_loop 0 limits input_streams output_streams = ret ([], input_streams, output_streams)"
| "coders_loop (Suc n) limits input_streams output_streams =
     bind (parse_coder limits) (\<lambda>coder.
     bind (ok_or (checked_add input_streams (rc_inputs coder))
             (format_error ''folder input-stream count overflows'')) (\<lambda>input_streams.
     bind (ok_or (checked_add output_streams (rc_outputs coder))
             (format_error ''folder output-stream count overflows'')) (\<lambda>output_streams.
     bind (coders_loop n limits input_streams output_streams) (\<lambda>(coders, totals).
     ret (coder # coders, totals)))))"

definition parse_folder :: "limits \<Rightarrow> ('z, raw_folder) parser" where
  "parse_folder limits =
     bind raw_read_uint (\<lambda>coder_count.
     bind (guard (coder_count \<noteq> 0) (format_error ''folder declares zero coders'')) (\<lambda>_.
     bind (check_limit coder_count (max_coders_per_folder limits) CodersPerFolder) (\<lambda>_.
     bind (add_coders coder_count limits) (\<lambda>_.
     bind (new_vec coder_count ''coder count is not representable on this platform'') (\<lambda>_.
     bind (coders_loop coder_count limits 0 0) (\<lambda>(coders, input_streams, output_streams).
     bind (ok_or (checked_add input_streams output_streams)
             (format_error ''folder stream-port count overflows'')) (\<lambda>folder_streams.
     bind (check_limit folder_streams (max_streams_per_folder limits) StreamsPerFolder) (\<lambda>_.
     bind (add_streams folder_streams limits) (\<lambda>_.
     bind (guard (output_streams \<le> input_streams)
             (format_error ''folder has fewer input streams than output streams'')) (\<lambda>_.
     bind (ok_or (checked_sub output_streams 1)
             (format_error ''folder bind-pair count underflows'')) (\<lambda>bind_count.
     bind (new_vec bind_count ''bind-pair count is not representable on this platform'') (\<lambda>_.
     bind (repeat_for bind_count (bind raw_read_uint (\<lambda>input. bind raw_read_uint (\<lambda>output.
             ret \<lparr>rb_input = input, rb_output = output\<rparr>)))) (\<lambda>bind_pairs.
     bind (ok_or (checked_sub input_streams bind_count)
             (format_error ''folder packed-stream count underflows'')) (\<lambda>packed_streams.
     bind (guard (packed_streams \<noteq> 0) (format_error ''folder has no packed input stream'')) (\<lambda>_.
     bind (if packed_streams = 1 then ret None
           else bind (new_vec packed_streams
                  ''packed-input count is not representable on this platform'') (\<lambda>_.
                bind (repeat_for packed_streams raw_read_uint) (\<lambda>values. ret (Some values))))
       (\<lambda>packed_indices.
     ret \<lparr>rf_coders = coders, rf_inputs = input_streams, rf_outputs = output_streams,
          rf_bind_pairs = bind_pairs, rf_packed_streams = packed_streams,
          rf_packed_indices = packed_indices, rf_unpack_sizes = []\<rparr>))))))))))))))))"

definition parse_folders :: "nat \<Rightarrow> limits \<Rightarrow> ('z, raw_folder list) parser" where
  "parse_folders folder_count limits =
     bind (new_vec folder_count ''folder count is not representable on this platform'') (\<lambda>_.
     repeat_for folder_count (parse_folder limits))"


section \<open>Unpack information and substreams\<close>

text \<open>The folder loop that reads the sizes of each folder's outputs.\<close>

definition read_unpack_sizes :: "raw_folder list \<Rightarrow> ('z reader_scheme, error, raw_folder list) comp" where
  "read_unpack_sizes = map_for (\<lambda>folder.
     bind (parse_sizes (rf_outputs folder)) (\<lambda>sizes. ret (folder\<lparr>rf_unpack_sizes := sizes\<rparr>)))"

text \<open>
  The folder definitions follow inline, or they are the content of an additional stream: then
  either the caller supplies that stream, or the parse stops with its index (\<open>Inl\<close>).
\<close>

definition folder_definitions ::
  "u8 \<Rightarrow> nat \<Rightarrow> limits \<Rightarrow> external_folder_data option \<Rightarrow> ('z, nat + raw_folder list) parser" where
  "folder_definitions external folder_count limits external_folders =
     (if external = 0
      then bind (parse_folders folder_count limits) (\<lambda>folders. ret (Inr folders))
      else bind raw_read_uint (\<lambda>data_index.
        case external_folders of
          None \<Rightarrow> ret (Inl data_index)
        | Some source \<Rightarrow>
            bind (guard (ext_data_index source = data_index)
              (format_error ''external folder data index changed during header resolution'')) (\<lambda>_.
            bind (with_child (ext_bytes source)
               (bind (parse_folders folder_count limits) (\<lambda>folders.
                bind (finish ''external folder stream was not consumed exactly'') (\<lambda>_.
                ret folders)))) (\<lambda>folders. ret (Inr folders)))))"

definition parse_unpack_info ::
  "limits \<Rightarrow> external_folder_data option \<Rightarrow> ('z, parsed_unpack_info) parser" where
  "parse_unpack_info limits external_folders =
     bind raw_read_u8 (\<lambda>id.
     bind (guard (id = ID_FOLDER) (format_error ''UnpackInfo is missing Folder'')) (\<lambda>_.
     bind raw_read_uint (\<lambda>folder_count.
     bind (guard (folder_count \<noteq> 0) (format_error ''UnpackInfo declares zero folders'')) (\<lambda>_.
     bind (add_folders folder_count limits) (\<lambda>_.
     bind (checkpoint folder_count) (\<lambda>_.
     bind raw_read_u8 (\<lambda>external.
     bind (folder_definitions external folder_count limits external_folders) (\<lambda>source.
     case source of
       Inl data_index \<Rightarrow> ret (UnpackExternal data_index)
     | Inr folders \<Rightarrow>
         bind raw_read_u8 (\<lambda>id.
         bind (guard (id = ID_CODERS_UNPACK_SIZE)
                 (format_error ''UnpackInfo is missing CodersUnpackSize'')) (\<lambda>_.
         bind (read_unpack_sizes folders) (\<lambda>folders.
         bind raw_read_u8 (\<lambda>id.
         bind (optional_section id ID_CRC (parse_digests folder_count)) (\<lambda>(crcs, id).
         bind (guard (id = ID_END) (format_error ''unexpected UnpackInfo identifier'')) (\<lambda>_.
         ret (UnpackComplete \<lparr>ru_folders = folders, ru_crcs = crcs\<rparr>)))))))))))))))"

text \<open>The totals loop: the substreams, and the sizes that are written out (all but each last).\<close>

primrec substream_totals :: "nat list \<Rightarrow> nat \<Rightarrow> nat \<Rightarrow> ('s, error, nat \<times> nat) comp" where
  "substream_totals [] subtotal explicit = ret (subtotal, explicit)"
| "substream_totals (count # counts) subtotal explicit =
     bind (ok_or (checked_add subtotal count) (format_error ''substream count overflows'')) (\<lambda>subtotal.
     bind (if count = 0 then ret 0
           else ok_or (checked_sub count 1)
                  (format_error ''explicit substream-size count underflows'')) (\<lambda>additional.
     bind (ok_or (checked_add explicit additional)
             (format_error ''explicit substream-size count overflows'')) (\<lambda>explicit.
     substream_totals counts subtotal explicit)))"

text \<open>
  The digest loop: a folder with exactly one substream and a folder checksum inherits it, every
  other folder has one digest per substream.
\<close>

definition inherited_crc :: "u32 option list option \<Rightarrow> nat \<Rightarrow> u32 option" where
  "inherited_crc folder_crcs folder_index =
     (case folder_crcs of None \<Rightarrow> None
      | Some crcs \<Rightarrow> (case get_at crcs folder_index of None \<Rightarrow> None | Some crc \<Rightarrow> crc))"

primrec digest_total ::
  "u32 option list option \<Rightarrow> nat \<Rightarrow> nat list \<Rightarrow> nat \<Rightarrow> ('s, error, nat) comp" where
  "digest_total folder_crcs folder_index [] digest_count = ret digest_count"
| "digest_total folder_crcs folder_index (count # counts) digest_count =
     bind (if count \<noteq> 1 \<or> inherited_crc folder_crcs folder_index = None
           then ok_or (checked_add digest_count count)
                  (format_error ''substream digest count overflows'')
           else ret digest_count) (\<lambda>digest_count.
     digest_total folder_crcs (Suc folder_index) counts digest_count)"

definition parse_substreams_info :: "raw_unpack_info \<Rightarrow> limits \<Rightarrow> ('z, raw_substreams_info) parser" where
  "parse_substreams_info unpack limits =
     bind (usize_to_u64 (length (ru_folders unpack)) ''folder count is not representable as u64'')
       (\<lambda>folder_count.
     bind raw_read_u8 (\<lambda>id.
     bind (new_vec folder_count ''substream folder count is not representable on this platform'') (\<lambda>_.
     bind (if id = ID_NUM_UNPACK_STREAM
           then bind (repeat_for folder_count raw_read_uint) (\<lambda>counts.
                bind raw_read_u8 (\<lambda>id. ret (counts, id)))
           else ret (replicate folder_count 1, id)) (\<lambda>(counts, id).
     bind (substream_totals counts 0 0) (\<lambda>(total_substreams, explicit_size_count).
     bind (add_substreams total_substreams limits) (\<lambda>_.
     bind (optional_section id ID_SIZE (parse_sizes explicit_size_count)) (\<lambda>(explicit_sizes, id).
     bind (digest_total (ru_crcs unpack) 0 counts 0) (\<lambda>digest_count.
     bind (optional_section id ID_CRC (parse_digests digest_count)) (\<lambda>(crcs, id).
     bind (guard (id = ID_END) (format_error ''unexpected SubStreamsInfo identifier'')) (\<lambda>_.
     ret \<lparr>rs_counts = counts, rs_explicit_sizes = explicit_sizes, rs_crcs = crcs\<rparr>))))))))))"

definition parse_streams_info ::
  "limits \<Rightarrow> external_folder_data option \<Rightarrow> ('z, parsed_streams_info) parser" where
  "parse_streams_info limits external_folders =
     bind raw_read_u8 (\<lambda>id.
     bind (optional_section id ID_PACK_INFO (parse_pack_info limits)) (\<lambda>(pack, id).
     bind (if id = ID_UNPACK_INFO
           then bind (parse_unpack_info limits external_folders) (\<lambda>parsed.
                case parsed of
                  UnpackExternal data_index \<Rightarrow> ret (Inl data_index)
                | UnpackComplete v \<Rightarrow> bind raw_read_u8 (\<lambda>id. ret (Inr (Some v, id))))
           else ret (Inr (None, id))) (\<lambda>unpacked.
     case unpacked of
       Inl data_index \<Rightarrow> ret (StreamsExternal pack data_index)
     | Inr (unpack, id) \<Rightarrow>
         bind (if id = ID_SUBSTREAMS_INFO
               then (case unpack of
                       None \<Rightarrow> fail (format_error ''SubStreamsInfo has no UnpackInfo'')
                     | Some unpack_info \<Rightarrow>
                         bind (parse_substreams_info unpack_info limits) (\<lambda>v.
                         bind raw_read_u8 (\<lambda>id. ret (Some v, id))))
               else bind (case unpack of
                            None \<Rightarrow> ret ()
                          | Some unpack_info \<Rightarrow>
                              bind (usize_to_u64 (length (ru_folders unpack_info))
                                 ''default substream count is not representable as u64'') (\<lambda>n.
                              add_substreams n limits)) (\<lambda>_.
                    ret (None, id))) (\<lambda>(substreams, id).
         bind (guard (id = ID_END) (format_error ''unexpected StreamsInfo identifier'')) (\<lambda>_.
         ret (StreamsComplete
           \<lparr>ri_pack = pack, ri_unpack = unpack, ri_substreams = substreams\<rparr>))))))"


section \<open>Property lists and headers\<close>

text \<open>
  The property loop of the source has no counter: it ends at the end marker or at the first
  error, and it must end because every round reads at least one byte of the slice. That is the
  measure the definition is justified by, from the frame facts of the reads.
\<close>

lemma raw_reads [frame]:
  "reads.keeps raw_read_u8" "reads.keeps raw_read_u32_le" "reads.keeps raw_read_uint"
  "reads.keeps (raw_read_bytes n)"
  by (auto simp: raw_read_u8_def raw_read_u32_le_def raw_read_uint_def raw_read_bytes_def
      intro!: reads.keeps_rules frame)

lemma checkpoint_reader:
  "checkpoint n s = (r, t) \<Longrightarrow> rbytes t = rbytes s \<and> rpos t = rpos s"
  by (auto simp: checkpoint_def bind_def check_def charge_def
      split: option.splits nat.splits prod.splits sum.splits)

lemma raw_read_u8_step:
  "raw_read_u8 s = (Inr x, t) \<Longrightarrow>
     rbytes t = rbytes s \<and> rpos t = Suc (rpos s) \<and> rpos t \<le> length (rbytes s) \<and> x = rbytes s ! rpos s"
  by (auto simp: raw_read_u8_def success dest!: checkpoint_reader)

lemma add_limited_reader:
  assumes "add_limited get put n m l d s = (Inr x, t)"
    and "\<And>k s. rbytes (put k s) = rbytes s \<and> rpos (put k s) = rpos s"
  shows "rbytes t = rbytes s \<and> rpos t = rpos s"
  using assms by (auto simp: add_limited_def success get_state_def modify_def)

lemma add_property_reader:
  "add_property limits s = (Inr x, t) \<Longrightarrow> rbytes t = rbytes s \<and> rpos t = rpos s"
  unfolding add_property_def by (erule add_limited_reader) simp

lemma reserve_with_reader:
  "reserve_with m n s = (Inr x, t) \<Longrightarrow> rbytes t = rbytes s \<and> rpos t = rpos s"
  by (auto simp: reserve_with_def split: option.splits nat.splits)

function property_loop :: "limits \<Rightarrow> raw_property list \<Rightarrow> ('z, raw_property list) parser" where
  "property_loop limits properties s =
     bind raw_read_u8 (\<lambda>id.
     branch (id = ID_END) (ret properties)
      (bind (add_property limits) (\<lambda>_.
       bind raw_read_uint (\<lambda>len.
       bind (check_limit len (max_header_bytes limits) HeaderBytes) (\<lambda>_.
       bind (raw_read_bytes len) (\<lambda>data.
       bind (reserve_with ''header property allocation failed'' 1) (\<lambda>_.
       property_loop limits (properties @ [\<lparr>prop_id = id, prop_data = data\<rparr>])))))))) s"
  by pat_completeness auto
termination
proof (relation "measure (\<lambda>(limits, properties, s). length (rbytes s) - rpos s)", goal_cases)
  case 1
  then show ?case by simp
next
  case (2 limits properties s id s1 u1 s2 len s3 u2 s4 data s5 u3 s6)
  have "rbytes s1 = rbytes s \<and> rpos s1 = Suc (rpos s) \<and> rpos s1 \<le> length (rbytes s)"
    using raw_read_u8_step [OF 2(1)] by simp
  moreover have "rbytes s2 = rbytes s1 \<and> rpos s2 = rpos s1"
    using 2(3) by (rule add_property_reader)
  moreover have "read_le s2 s3" using raw_reads(3) 2(4) by (rule reads.keepsD)
  moreover have "s4 = s3" using 2(5) by (simp add: success)
  moreover have "read_le s4 s5" using raw_reads(4) 2(6) by (rule reads.keepsD)
  moreover have "rbytes s6 = rbytes s5 \<and> rpos s6 = rpos s5" using 2(7) by (rule reserve_with_reader)
  ultimately show ?case by (auto simp: read_le_def advance_le_def)
qed

declare property_loop.simps [simp del]

definition parse_property_list :: "limits \<Rightarrow> ('z, raw_property list) parser" where
  "parse_property_list limits = property_loop limits []"

definition parse_files_info :: "limits \<Rightarrow> ('z, raw_files_info) parser" where
  "parse_files_info limits =
     bind raw_read_uint (\<lambda>count.
     bind (check_limit count (max_files limits) Files) (\<lambda>_.
     bind (parse_property_list limits) (\<lambda>properties.
     ret \<lparr>rfi_count = count, rfi_properties = properties\<rparr>)))"

text \<open>The sections of the header body, each with the identifier that follows it.\<close>

definition archive_properties_section :: "u8 \<Rightarrow> limits \<Rightarrow> ('z, raw_property list \<times> u8) parser" where
  "archive_properties_section section_id limits =
     (if section_id = ID_ARCHIVE_PROPERTIES
      then bind (parse_property_list limits) (\<lambda>properties.
           bind raw_read_u8 (\<lambda>id. ret (properties, id)))
      else ret ([], section_id))"

definition additional_streams_section ::
  "u8 \<Rightarrow> limits \<Rightarrow> ('z, raw_streams_info option \<times> u8) parser" where
  "additional_streams_section section_id limits =
     (if section_id = ID_ADDITIONAL_STREAMS_INFO
      then bind (parse_streams_info limits None) (\<lambda>parsed.
           case parsed of
             StreamsComplete streams \<Rightarrow> bind raw_read_u8 (\<lambda>id. ret (Some streams, id))
           | StreamsExternal _ _ \<Rightarrow>
               fail (format_error ''AdditionalStreamsInfo cannot source its own folder definitions''))
      else ret (None, section_id))"

definition main_streams_section ::
  "u8 \<Rightarrow> u8 list \<Rightarrow> limits \<Rightarrow> external_folder_data option \<Rightarrow> raw_streams_info option \<Rightarrow>
   ('z, raw_external_folder_header + raw_streams_info option \<times> u8) parser" where
  "main_streams_section section_id header_bytes limits external_folders additional_streams =
     (if section_id = ID_MAIN_STREAMS_INFO
      then bind (parse_streams_info limits external_folders) (\<lambda>parsed.
           case parsed of
             StreamsComplete streams \<Rightarrow>
               bind raw_read_u8 (\<lambda>id. ret (Inr (Some streams, id)))
           | StreamsExternal pack data_index \<Rightarrow>
               bind (ok_or additional_streams
                 (format_error ''external folder definitions require AdditionalStreamsInfo''))
               (\<lambda>additional. ret (Inl
                 \<lparr>re_additional_streams = additional, re_main_pack = pack,
                  re_data_index = data_index, re_header_bytes = header_bytes\<rparr>)))
      else ret (Inr (None, section_id)))"

definition files_section :: "u8 \<Rightarrow> limits \<Rightarrow> ('z, raw_files_info option \<times> u8) parser" where
  "files_section section_id limits =
     (if section_id = ID_FILES_INFO
      then bind (parse_files_info limits) (\<lambda>files. bind raw_read_u8 (\<lambda>id. ret (Some files, id)))
      else ret (None, section_id))"

definition parse_header_body ::
  "u8 list \<Rightarrow> limits \<Rightarrow> external_folder_data option \<Rightarrow> ('z, raw_next_header) parser" where
  "parse_header_body header_bytes limits external_folders =
     bind raw_read_u8 (\<lambda>id.
     bind (archive_properties_section id limits) (\<lambda>(archive_properties, id).
     bind (additional_streams_section id limits) (\<lambda>(additional_streams, id).
     bind (main_streams_section id header_bytes limits external_folders additional_streams) (\<lambda>main.
     case main of
       Inl pending \<Rightarrow> ret (RawExternalFolders pending)
     | Inr (main_streams, id) \<Rightarrow>
         bind (files_section id limits) (\<lambda>(files, id).
         bind (guard (id = ID_END) (format_error ''unexpected Header identifier'')) (\<lambda>_.
         ret (RawHeader \<lparr>rh_archive_properties = archive_properties,
           rh_additional_streams = additional_streams, rh_main_streams = main_streams,
           rh_files = files\<rparr>)))))))"

text \<open>
  The reader of the source lives in \<open>parse_next_header_inner\<close> only, so the parse runs with a
  fresh one; an external-folder header returns before the exact-consumption check.
\<close>

definition parse_next_header_inner ::
  "u8 list \<Rightarrow> limits \<Rightarrow> external_folder_data option \<Rightarrow> ('z, raw_next_header) parser" where
  "parse_next_header_inner bytes limits external_folders =
     bind (check_limit 1 (max_recursion_depth limits) RecursionDepth) (\<lambda>_.
     with_child bytes
      (bind raw_read_u8 (\<lambda>kind.
       bind (if kind = ID_HEADER then parse_header_body bytes limits external_folders
             else if kind = ID_ENCODED_HEADER
             then bind (parse_streams_info limits None) (\<lambda>parsed.
                  case parsed of
                    StreamsComplete streams \<Rightarrow> ret (RawEncoded streams)
                  | StreamsExternal _ _ \<Rightarrow>
                      fail (format_error
                        ''encoded-header folder definitions have no additional stream source''))
             else fail (format_error ''unexpected next-header identifier'')) (\<lambda>header.
       case header of
         RawExternalFolders _ \<Rightarrow> ret header
       | _ \<Rightarrow> bind (finish ''next-header body was not consumed exactly'') (\<lambda>_. ret header)))))"

text \<open>\<open>ParseState::default()\<close> is created by the callers, for each candidate afresh.\<close>

definition with_parse_state :: "(parse_state, error, 'a) comp \<Rightarrow> (control, error, 'a) comp" where
  "with_parse_state m c =
     (case m \<lparr>cancel_in = cancel_in c, oom_in = oom_in c, remaining = remaining c,
              consumed = consumed c, rbytes = [], rpos = 0, total_folders = 0, total_coders = 0,
              total_streams = 0, total_packed_streams = 0, total_substreams = 0,
              total_properties = 0\<rparr> of
        (r, t) \<Rightarrow> (r, control.truncate t))"

definition parse_next_header :: "u8 list \<Rightarrow> limits \<Rightarrow> ('z, raw_next_header) parser" where
  "parse_next_header bytes limits = parse_next_header_inner bytes limits None"

definition parse_next_header_with_external_folders ::
  "u8 list \<Rightarrow> nat \<Rightarrow> u8 list \<Rightarrow> limits \<Rightarrow> ('z, raw_next_header) parser" where
  "parse_next_header_with_external_folders bytes data_index folder_bytes limits =
     parse_next_header_inner bytes limits
       (Some \<lparr>ext_data_index = data_index, ext_bytes = folder_bytes\<rparr>)"

end
