(* ===== verification/RawFacts.thy ===== *)
theory RawFacts
  imports Raw
begin

text \<open>
  What the next-header parsers guarantee: every parser spends work, advances within its slice and
  grows the running totals within the limits, on success and on failure; and a parse that
  succeeds returns records of the shape the validator relies on.
\<close>

section \<open>Frame of the parsers\<close>

definition grows :: "nat \<Rightarrow> nat \<Rightarrow> nat \<Rightarrow> bool" where
  "grows maximum a b \<longleftrightarrow> a \<le> b \<and> (a \<le> maximum \<longrightarrow> b \<le> maximum)"

lemma grows_refl [simp]: "grows m a a"
  by (simp add: grows_def)

lemma grows_trans: "grows m a b \<Longrightarrow> grows m b c \<Longrightarrow> grows m a c"
  by (auto simp: grows_def)

lemma grows_add: "a + n \<le> m \<Longrightarrow> grows m a (a + n)"
  by (simp add: grows_def)

definition totals_le :: "limits \<Rightarrow> 'z parse_state_scheme \<Rightarrow> 'z parse_state_scheme \<Rightarrow> bool" where
  "totals_le lim s t \<longleftrightarrow>
     grows (max_folders lim) (total_folders s) (total_folders t)
     \<and> grows (max_total_coders lim) (total_coders s) (total_coders t)
     \<and> grows (max_total_streams lim) (total_streams s) (total_streams t)
     \<and> grows (max_total_streams lim) (total_packed_streams s) (total_packed_streams t)
     \<and> grows (max_substreams lim) (total_substreams s) (total_substreams t)
     \<and> grows (max_header_properties lim) (total_properties s) (total_properties t)"

definition parse_le :: "limits \<Rightarrow> 'z parse_state_scheme \<Rightarrow> 'z parse_state_scheme \<Rightarrow> bool" where
  "parse_le lim s t \<longleftrightarrow> metered_le s t \<and> advance_le s t \<and> totals_le lim s t"

interpretation parses: state_order "parse_le lim" for lim
proof
  show "parse_le lim s s" for s :: "'a parse_state_scheme"
    by (simp add: parse_le_def metered.le_refl totals_le_def advance_le_def)
  show "parse_le lim s t \<Longrightarrow> parse_le lim t u \<Longrightarrow> parse_le lim s u" for s t u :: "'a parse_state_scheme"
    by (auto simp: parse_le_def totals_le_def advance_le_def intro: metered.le_trans grows_trans)
qed

lemma more_totals:
  "reader.more t = reader.more s \<Longrightarrow>
     total_folders t = total_folders s \<and> total_coders t = total_coders s
     \<and> total_streams t = total_streams s \<and> total_packed_streams t = total_packed_streams s
     \<and> total_substreams t = total_substreams s \<and> total_properties t = total_properties s"
  by (cases s; cases t) simp

lemma parses_reads: "reads.keeps m \<Longrightarrow> parses.keeps lim m"
proof (rule parses.keepsI)
  fix s r t
  assume "reads.keeps m" "m s = (r, t)"
  then have "read_le s t" by (rule reads.keepsD)
  then show "parse_le lim s t"
    using more_totals [of t s] by (simp add: parse_le_def read_le_def totals_le_def)
qed

lemma add_limited_cases:
  "add_limited get put n m l d s = (r, t) \<Longrightarrow>
     (\<exists>e. r = Inl e \<and> t = s) \<or> (r = Inr () \<and> t = put (get s + n) s \<and> get s + n \<le> m)"
  by (auto simp: add_limited_def run check_limit_def ok_or_def checked_add_def split: if_splits)

lemma parses_add_limited:
  assumes "\<And>s. get s + n \<le> m \<Longrightarrow> parse_le lim s (put (get s + n) s)"
  shows "parses.keeps lim (add_limited get put n m l d)"
  by (rule parses.keepsI) (metis assms add_limited_cases parses.le_refl)

lemma parse_le_total:
  "metered_le s t \<Longrightarrow> rbytes t = rbytes s \<Longrightarrow> rpos t = rpos s \<Longrightarrow> totals_le lim s t \<Longrightarrow> parse_le lim s t"
  by (simp add: parse_le_def advance_le_def)

lemma metered_same:
  "consumed t = consumed s \<Longrightarrow> remaining t = remaining s \<Longrightarrow> cancel_in t = cancel_in s \<Longrightarrow>
     oom_in t = oom_in s \<Longrightarrow> metered_le s t"
  by (auto simp: metered_le_def split: option.split)

lemma parses_add [frame]:
  "parses.keeps lim (add_folders n lim)" "parses.keeps lim (add_coders n lim)"
  "parses.keeps lim (add_streams n lim)" "parses.keeps lim (add_packed_streams n lim)"
  "parses.keeps lim (add_substreams n lim)" "parses.keeps lim (add_property lim)"
  unfolding add_folders_def add_coders_def add_streams_def add_packed_streams_def
    add_substreams_def add_property_def
  by (rule parses_add_limited, rule parse_le_total,
      simp_all add: metered_same totals_le_def grows_add grows_def)+

lemma parses_with_child [frame]: "parses.keeps lim m \<Longrightarrow> parses.keeps lim (with_child bs m)"
  by (rule parses.keepsI)
     (auto simp: with_child_def parse_le_def metered_le_def advance_le_def totals_le_def
        split: prod.splits option.splits dest!: parses.keepsD)

lemma parses_finish [frame]: "parses.keeps lim (finish d)"
  by (rule parses_reads) (rule frame)

lemma parses_checkpoint [frame]: "parses.keeps lim (checkpoint n)"
  by (rule parses_reads) (rule frame)

lemma parses_pure [frame]:
  "parses.keeps lim (usize_to_u64 v d)" "parses.keeps lim (check_limit v m l)"
  "parses.keeps lim (reserve_with msg n)"
  by (rule parses_reads, rule frame)+

lemma reads_new_vec [frame]: "reads.keeps (new_vec n d)"
  by (auto simp: new_vec_def intro!: reads.keeps_rules frame)

lemma reads_bits_loop [frame]: "reads.keeps (bits_loop n byte m)"
  by (induction n arbitrary: byte m) (auto intro!: reads.keeps_rules frame)

lemma reads_parse_bits [frame]: "reads.keeps (parse_bits n)"
  by (auto simp: parse_bits_def intro!: reads.keeps_rules frame)

lemma reads_parse_digests [frame]: "reads.keeps (parse_digests n)"
  by (auto simp: parse_digests_def intro!: reads.keeps_rules frame)

lemma reads_parse_sizes [frame]: "reads.keeps (parse_sizes n)"
  by (auto simp: parse_sizes_def intro!: reads.keeps_rules frame)

lemma reads_optional_section [frame]: "reads.keeps m \<Longrightarrow> reads.keeps (optional_section i w m)"
  by (auto simp: optional_section_def intro!: reads.keeps_rules frame)

lemma reads_parse_coder [frame]: "reads.keeps (parse_coder lim)"
  by (auto simp: parse_coder_def Let_def intro!: reads.keeps_rules frame)

lemma reads_coders_loop [frame]: "reads.keeps (coders_loop n lim i out)"
  by (induction n arbitrary: i out) (auto intro!: reads.keeps_rules frame)

lemma reads_read_unpack_sizes [frame]: "reads.keeps (read_unpack_sizes fs)"
  by (auto simp: read_unpack_sizes_def intro!: reads.keeps_rules frame)

lemma parses_of_reads [frame]:
  "parses.keeps lim raw_read_u8" "parses.keeps lim raw_read_uint" "parses.keeps lim (raw_read_bytes n)"
  "parses.keeps lim (new_vec n d)" "parses.keeps lim (parse_sizes n)" "parses.keeps lim (parse_digests n)"
  "parses.keeps lim (optional_section i w (parse_sizes n))"
  "parses.keeps lim (optional_section i w (parse_digests n))"
  "parses.keeps lim (coders_loop n lim i' out)" "parses.keeps lim (read_unpack_sizes fs)"
  by (rule parses_reads, (rule frame)+)+

lemma parses_pack_info [frame]: "parses.keeps lim (parse_pack_info lim)"
  by (auto simp: parse_pack_info_def intro!: parses.keeps_rules frame)

lemma parses_folder [frame]: "parses.keeps lim (parse_folder lim)"
  by (auto simp: parse_folder_def intro!: parses.keeps_rules frame)

lemma parses_folders [frame]: "parses.keeps lim (parse_folders n lim)"
  by (auto simp: parse_folders_def intro!: parses.keeps_rules frame)

lemma parses_folder_definitions [frame]: "parses.keeps lim (folder_definitions e n lim ext)"
  unfolding folder_definitions_def by (intro parses.keeps_rules frame)

lemma parses_unpack_info [frame]: "parses.keeps lim (parse_unpack_info lim ext)"
  unfolding parse_unpack_info_def by (intro parses.keeps_rules frame)

lemma parses_case_unpack [frame]:
  "(\<And>v. parses.keeps lim (f v)) \<Longrightarrow> (\<And>i. parses.keeps lim (g i)) \<Longrightarrow>
     parses.keeps lim (case z of UnpackComplete v \<Rightarrow> f v | UnpackExternal i \<Rightarrow> g i)"
  by (cases z) simp_all

lemma parses_case_streams [frame]:
  "(\<And>v. parses.keeps lim (f v)) \<Longrightarrow> (\<And>p i. parses.keeps lim (g p i)) \<Longrightarrow>
     parses.keeps lim (case z of StreamsComplete v \<Rightarrow> f v | StreamsExternal p i \<Rightarrow> g p i)"
  by (cases z) simp_all

lemma parses_case_header [frame]:
  "(\<And>v. parses.keeps lim (f v)) \<Longrightarrow> (\<And>v. parses.keeps lim (g v)) \<Longrightarrow> (\<And>v. parses.keeps lim (h v)) \<Longrightarrow>
     parses.keeps lim (case z of RawHeader v \<Rightarrow> f v | RawEncoded v \<Rightarrow> g v | RawExternalFolders v \<Rightarrow> h v)"
  by (cases z) simp_all

lemma parses_substream_totals [frame]: "parses.keeps lim (substream_totals cs a b)"
  by (induction cs arbitrary: a b) (auto intro!: parses.keeps_rules frame)

lemma parses_digest_total [frame]: "parses.keeps lim (digest_total crcs i cs n)"
  by (induction cs arbitrary: i n) (auto intro!: parses.keeps_rules frame)

lemma parses_substreams_info [frame]: "parses.keeps lim (parse_substreams_info u lim)"
  by (auto simp: parse_substreams_info_def intro!: parses.keeps_rules frame)

lemma parses_optional_pack [frame]: "parses.keeps lim (optional_section i w (parse_pack_info lim))"
  by (auto simp: optional_section_def intro!: parses.keeps_rules frame)

lemma parses_streams_info [frame]: "parses.keeps lim (parse_streams_info lim ext)"
  unfolding parse_streams_info_def by (intro parses.keeps_rules frame)

lemma parses_property_loop: "parse_le lim s (snd (property_loop lim props s))"
proof (induction lim props s rule: property_loop.induct)
  case (1 lim props s)
  show ?case
    by (subst property_loop.simps)
       (intro parses.le_bind parses.le_branch parses.le_ret frame; rule 1; assumption)
qed

lemma parses_property_list [frame]: "parses.keeps lim (parse_property_list lim)"
  unfolding parse_property_list_def parses.keeps_def by (simp add: parses_property_loop)

lemma parses_files_info [frame]: "parses.keeps lim (parse_files_info lim)"
  unfolding parse_files_info_def by (intro parses.keeps_rules frame)

lemma parses_sections [frame]:
  "parses.keeps lim (archive_properties_section i lim)"
  "parses.keeps lim (additional_streams_section i lim)"
  "parses.keeps lim (main_streams_section i bs lim ext add)"
  "parses.keeps lim (files_section i lim)"
  unfolding archive_properties_section_def additional_streams_section_def main_streams_section_def
    files_section_def
  by (intro parses.keeps_rules frame)+

lemma parses_header_body [frame]: "parses.keeps lim (parse_header_body bs lim ext)"
  unfolding parse_header_body_def by (intro parses.keeps_rules frame)

lemma parses_next_header_inner [frame]: "parses.keeps lim (parse_next_header_inner bs lim ext)"
  unfolding parse_next_header_inner_def by (intro parses.keeps_rules frame)

lemma parses_next_header [frame]:
  "parses.keeps lim (parse_next_header bs lim)"
  "parses.keeps lim (parse_next_header_with_external_folders bs i data lim)"
  by (simp_all add: parse_next_header_def parse_next_header_with_external_folders_def frame)

lemma metered_with_parse_state [frame]: "parses.keeps lim m \<Longrightarrow> metered.keeps (with_parse_state m)"
  by (rule metered.keepsI)
     (auto simp: with_parse_state_def parse_le_def metered_le_def control.defs
        split: prod.splits option.splits dest!: parses.keepsD)

end
