(* ===== verification/RawShape.thy ===== *)
theory RawShape
  imports RawFacts
begin

unbundle bit_operations_syntax

text \<open>
  The shape of the records a successful next-header parse returns: lists as long as their
  declared counts, positive coder ports that add up to the folder's, one bind pair per inner
  output, and counts within the limits.
\<close>

section \<open>Primitive results\<close>

lemma raw_read_bytes_length: "raw_read_bytes n s = (Inr bs, t) \<Longrightarrow> length bs = n"
  by (auto simp: raw_read_bytes_def success)

lemma bits_loop_length: "bits_loop n b m s = (Inr xs, t) \<Longrightarrow> length xs = n"
  by (induction n arbitrary: b m s xs) (auto simp: success split: prod.splits)

lemma parse_bits_length: "parse_bits n s = (Inr xs, t) \<Longrightarrow> length xs = n"
  by (auto simp: parse_bits_def success dest: bits_loop_length)

lemma parse_sizes_length: "parse_sizes n s = (Inr xs, t) \<Longrightarrow> length xs = n"
  by (auto simp: parse_sizes_def success dest: length_repeat_for)

lemma parse_digests_length: "parse_digests n s = (Inr xs, t) \<Longrightarrow> length xs = n"
  by (cases "n = 0")
     (auto simp: parse_digests_def success dest!: length_map_for parse_bits_length)

lemma optional_section_Inr:
  "optional_section i w m s = (Inr (v, j), t) \<Longrightarrow>
     v = None \<or> (\<exists>s u x. v = Some x \<and> m s = (Inr x, u))"
  by (auto simp: optional_section_def success split: if_splits)

section \<open>Coders and folders\<close>

definition sized :: "'a list option \<Rightarrow> nat \<Rightarrow> bool" where
  "sized xs n \<longleftrightarrow> (case xs of None \<Rightarrow> True | Some ys \<Rightarrow> length ys = n)"

lemma sized_simps [simp]: "sized None n" "sized (Some xs) n \<longleftrightarrow> length xs = n"
  by (simp_all add: sized_def)

definition wf_raw_coder :: "limits \<Rightarrow> raw_coder \<Rightarrow> bool" where
  "wf_raw_coder lim c \<longleftrightarrow>
     1 \<le> length (rc_method_id c) \<and> length (rc_method_id c) \<le> 15
     \<and> 1 \<le> rc_inputs c \<and> 1 \<le> rc_outputs c
     \<and> (rc_properties c = [] \<or> length (rc_properties c) \<le> max_coder_property_bytes lim)"

definition wf_raw_folder :: "limits \<Rightarrow> raw_folder \<Rightarrow> bool" where
  "wf_raw_folder lim f \<longleftrightarrow>
     rf_coders f \<noteq> [] \<and> length (rf_coders f) \<le> max_coders_per_folder lim
     \<and> (\<forall>c\<in>set (rf_coders f). wf_raw_coder lim c)
     \<and> rf_inputs f = (\<Sum>c\<leftarrow>rf_coders f. rc_inputs c)
     \<and> rf_outputs f = (\<Sum>c\<leftarrow>rf_coders f. rc_outputs c)
     \<and> rf_inputs f + rf_outputs f \<le> max_streams_per_folder lim
     \<and> rf_inputs f + rf_outputs f < 2 ^ 64
     \<and> 1 \<le> rf_outputs f \<and> rf_outputs f \<le> rf_inputs f
     \<and> length (rf_bind_pairs f) + 1 = rf_outputs f
     \<and> rf_packed_streams f + length (rf_bind_pairs f) = rf_inputs f
     \<and> (rf_packed_indices f = None \<longleftrightarrow> rf_packed_streams f = 1)
     \<and> sized (rf_packed_indices f) (rf_packed_streams f)"

lemma method_length_le: "unat (flags AND 0x0f :: u8) \<le> 15"
proof -
  have "flags AND 0x0f \<le> (0x0f :: u8)" by (rule word_and_le1)
  then show ?thesis by (simp add: word_le_nat_alt)
qed

lemma method_length_pos: "flags AND 0x0f \<noteq> (0 :: u8) \<Longrightarrow> Suc 0 \<le> unat (flags AND 0x0f)"
  using unat_gt_0 [of "flags AND 0x0f"] by simp

lemma parse_coder_wf: "parse_coder lim s = (Inr c, t) \<Longrightarrow> wf_raw_coder lim c"
  using method_length_le
  by (auto simp: parse_coder_def Let_def success wf_raw_coder_def unat_eq_0 method_length_pos
      dest!: raw_read_bytes_length split: if_splits)

lemma coders_loop_wf:
  "coders_loop n lim a b s = (Inr (cs, i, j), t) \<Longrightarrow>
     length cs = n \<and> (\<forall>c\<in>set cs. wf_raw_coder lim c)
     \<and> i = a + (\<Sum>c\<leftarrow>cs. rc_inputs c) \<and> j = b + (\<Sum>c\<leftarrow>cs. rc_outputs c)"
proof (induction n arbitrary: a b s cs)
  case 0
  then show ?case by (auto simp: success)
next
  case (Suc n)
  then obtain c cs' s1 where "parse_coder lim s = (Inr c, s1)"
    and rest: "coders_loop n lim (a + rc_inputs c) (b + rc_outputs c) s1 = (Inr (cs', i, j), t)"
    and "cs = c # cs'"
    by (auto simp: success)
  then show ?case
    using Suc.IH [OF rest] parse_coder_wf by auto
qed

lemma parse_folder_wf: "parse_folder lim s = (Inr f, t) \<Longrightarrow> wf_raw_folder lim f \<and> rf_unpack_sizes f = []"
  by (fastforce simp: parse_folder_def success wf_raw_folder_def
      dest!: coders_loop_wf length_repeat_for split: if_splits)

section \<open>Exact accounting\<close>

text \<open>
  \<open>adds f c g p k q\<close>: a run accounts for that many folders, coders, coder ports, packed
  streams, substreams and properties.
\<close>

definition adds ::
  "nat \<Rightarrow> nat \<Rightarrow> nat \<Rightarrow> nat \<Rightarrow> nat \<Rightarrow> nat \<Rightarrow> 'z parse_state_scheme \<Rightarrow> 'z parse_state_scheme \<Rightarrow> bool" where
  "adds f c g p k q s t \<longleftrightarrow> total_folders t = total_folders s + f \<and> total_coders t = total_coders s + c
     \<and> total_streams t = total_streams s + g
     \<and> total_packed_streams t = total_packed_streams s + p
     \<and> total_substreams t = total_substreams s + k
     \<and> total_properties t = total_properties s + q"

lemma adds_none [simp]: "adds 0 0 0 0 0 0 s s"
  by (simp add: adds_def)

lemma kept: "reads.keeps m \<Longrightarrow> m s = (r, t) \<Longrightarrow> adds 0 0 0 0 0 0 s t"
  using more_totals [of t s] by (auto simp: adds_def read_le_def dest!: reads.keepsD)

lemma add_limited_Inr:
  "add_limited get put n m l d s = (Inr x, t) \<longleftrightarrow>
     get s + n < 2 ^ 64 \<and> get s + n \<le> m \<and> t = put (get s + n) s"
  by (auto simp: add_limited_def success get_state_def modify_def)

lemma add_totals:
  "add_folders n lim s = (Inr x, t) \<Longrightarrow> adds n 0 0 0 0 0 s t"
  "add_coders n lim s = (Inr x, t) \<Longrightarrow> adds 0 n 0 0 0 0 s t"
  "add_streams n lim s = (Inr x, t) \<Longrightarrow> adds 0 0 n 0 0 0 s t"
  "add_packed_streams n lim s = (Inr x, t) \<Longrightarrow> adds 0 0 0 n 0 0 s t"
  "add_substreams n lim s = (Inr x, t) \<Longrightarrow> adds 0 0 0 0 n 0 s t"
  "add_property lim s = (Inr x, t) \<Longrightarrow> adds 0 0 0 0 0 1 s t"
  by (auto simp: add_folders_def add_coders_def add_streams_def add_packed_streams_def
      add_substreams_def add_property_def add_limited_Inr adds_def)

lemma reads_pairs: "reads.keeps (repeat_for n (bind raw_read_uint (\<lambda>input. bind raw_read_uint (\<lambda>output.
             ret \<lparr>rb_input = input, rb_output = output\<rparr>))))"
  by (intro reads.keeps_rules frame)

lemma reads_uints: "reads.keeps (repeat_for n raw_read_uint)"
  by (intro reads.keeps_rules frame)

lemma uints_post:
  "repeat_for n raw_read_uint s = (Inr xs, t) \<Longrightarrow> length xs = n \<and> adds 0 0 0 0 0 0 s t"
  using length_repeat_for kept [OF reads_uints] by metis

lemmas kept_reads = raw_reads [THEN kept] reads_new_vec [THEN kept] reads_checkpoint [THEN kept]
  reads_pairs [THEN kept] uints_post
  reads_parse_sizes [THEN kept] reads_parse_digests [THEN kept] reads_checkpoint [THEN kept]

lemma coders_loop_post:
  "coders_loop n lim 0 0 s = (Inr (cs, i, j), t) \<Longrightarrow> length cs = n \<and> adds 0 0 0 0 0 0 s t"
  using coders_loop_wf [of n lim 0 0] kept [OF reads_coders_loop] by metis

lemma parse_folder_adds:
  "parse_folder lim s = (Inr f, t) \<Longrightarrow> adds 0 (length (rf_coders f)) (rf_inputs f + rf_outputs f) 0 0 0 s t"
  by (auto simp: parse_folder_def adds_def success split: prod.splits if_splits
      dest!: coders_loop_post kept_reads add_totals)

text \<open>The contributions of a syntax record to the totals.\<close>

definition coder_count :: "raw_folder list \<Rightarrow> nat" where
  "coder_count fs = (\<Sum>f\<leftarrow>fs. length (rf_coders f))"

definition port_count :: "raw_folder list \<Rightarrow> nat" where
  "port_count fs = (\<Sum>f\<leftarrow>fs. rf_inputs f + rf_outputs f)"

lemma repeat_folders_adds:
  "repeat_for n (parse_folder lim) s = (Inr fs, t) \<Longrightarrow>
     length fs = n \<and> (\<forall>f\<in>set fs. wf_raw_folder lim f) \<and> adds 0 (coder_count fs) (port_count fs) 0 0 0 s t"
proof (induction n arbitrary: s fs)
  case 0
  then show ?case by (auto simp: success coder_count_def port_count_def)
next
  case (Suc n)
  then obtain f fs' u where f: "parse_folder lim s = (Inr f, u)" and "fs = f # fs'"
    and rest: "repeat_for n (parse_folder lim) u = (Inr fs', t)"
    by (auto simp: success)
  moreover have "adds 0 (length (rf_coders f)) (rf_inputs f + rf_outputs f) 0 0 0 s u" using f by (rule parse_folder_adds)
  ultimately show ?case
    using Suc.IH [OF rest] parse_folder_wf [OF f] by (auto simp: coder_count_def port_count_def adds_def)
qed

lemma parse_folders_adds:
  "parse_folders n lim s = (Inr fs, t) \<Longrightarrow>
     length fs = n \<and> (\<forall>f\<in>set fs. wf_raw_folder lim f) \<and> adds 0 (coder_count fs) (port_count fs) 0 0 0 s t"
  by (auto simp: parse_folders_def success dest!: kept_reads repeat_folders_adds)
     (auto simp: adds_def)

lemma with_child_adds: "adds f c g p k q (s\<lparr>rbytes := b, rpos := i\<rparr>) t = adds f c g p k q s t"
  "adds f c g p k q s (t\<lparr>rbytes := b, rpos := i\<rparr>) = adds f c g p k q s t"
  by (simp_all add: adds_def)

section \<open>Stream information\<close>

definition wf_raw_pack :: "raw_pack_info \<Rightarrow> bool" where
  "wf_raw_pack p \<longleftrightarrow> rp_streams p \<noteq> 0
     \<and> sized (rp_sizes p) (rp_streams p)
     \<and> sized (rp_crcs p) (rp_streams p)"

lemma optional_sizes_post:
  assumes "optional_section i w (parse_sizes n) s = (Inr (v, j), t)"
  shows "sized v n \<and> adds 0 0 0 0 0 0 s t"
proof
  show "sized v n"
    using optional_section_Inr [OF assms] parse_sizes_length by auto
  show "adds 0 0 0 0 0 0 s t"
    using reads_optional_section [OF reads_parse_sizes] assms by (rule kept)
qed

lemma optional_digests_post:
  assumes "optional_section i w (parse_digests n) s = (Inr (v, j), t)"
  shows "sized v n \<and> adds 0 0 0 0 0 0 s t"
proof
  show "sized v n"
    using optional_section_Inr [OF assms] parse_digests_length by auto
  show "adds 0 0 0 0 0 0 s t"
    using reads_optional_section [OF reads_parse_digests] assms by (rule kept)
qed

lemmas posts = optional_sizes_post optional_digests_post kept_reads add_totals

lemma parse_pack_info_post:
  "parse_pack_info lim s = (Inr p, t) \<Longrightarrow> wf_raw_pack p \<and> adds 0 0 0 (rp_streams p) 0 0 s t"
  by (auto simp: parse_pack_info_def adds_def wf_raw_pack_def success
      split: prod.splits dest!: posts)

lemma wf_raw_folder_sizes [simp]:
  "wf_raw_folder lim (f\<lparr>rf_unpack_sizes := xs\<rparr>) \<longleftrightarrow> wf_raw_folder lim f"
  by (simp add: wf_raw_folder_def)

definition sized_folder :: "limits \<Rightarrow> raw_folder \<Rightarrow> bool" where
  "sized_folder lim f \<longleftrightarrow> wf_raw_folder lim f \<and> length (rf_unpack_sizes f) = rf_outputs f"

lemma read_unpack_sizes_wf:
  "read_unpack_sizes fs s = (Inr gs, t) \<Longrightarrow> \<forall>f\<in>set fs. wf_raw_folder lim f \<Longrightarrow>
     length gs = length fs \<and> (\<forall>g\<in>set gs. sized_folder lim g) \<and> coder_count gs = coder_count fs \<and> port_count gs = port_count fs"
proof (induction fs arbitrary: s gs)
  case Nil
  then show ?case by (auto simp: success read_unpack_sizes_def)
next
  case (Cons f fs)
  then obtain xs gs' u v where xs: "parse_sizes (rf_outputs f) s = (Inr xs, u)"
    and rest: "read_unpack_sizes fs v = (Inr gs', t)"
    and gs: "gs = f\<lparr>rf_unpack_sizes := xs\<rparr> # gs'"
    by (auto simp: success read_unpack_sizes_def)
  have "length gs' = length fs \<and> (\<forall>g\<in>set gs'. sized_folder lim g) \<and> coder_count gs' = coder_count fs \<and> port_count gs' = port_count fs"
    using Cons.IH [OF rest] Cons.prems(2) by simp
  then show ?case
    using gs Cons.prems(2) parse_sizes_length [OF xs] by (simp add: coder_count_def port_count_def sized_folder_def)
qed

definition wf_raw_unpack :: "limits \<Rightarrow> raw_unpack_info \<Rightarrow> bool" where
  "wf_raw_unpack lim u \<longleftrightarrow> ru_folders u \<noteq> []
     \<and> (\<forall>f\<in>set (ru_folders u). sized_folder lim f)
     \<and> sized (ru_crcs u) (length (ru_folders u))"

text \<open>The folder definitions, inline or from an additional stream.\<close>

lemma child_folders_post:
  assumes "with_child bs (bind (parse_folders n lim) (\<lambda>fs. bind (finish d) (\<lambda>_. ret fs))) s = (Inr fs, t)"
  shows "length fs = n \<and> (\<forall>f\<in>set fs. wf_raw_folder lim f) \<and> adds 0 (coder_count fs) (port_count fs) 0 0 0 s t"
  using assms by (auto simp: success with_child_adds dest!: parse_folders_adds)

lemma folder_definitions_post:
  assumes "folder_definitions e n lim ext s = (Inr (Inr folders), t)"
  shows "length folders = n \<and> (\<forall>f\<in>set folders. wf_raw_folder lim f)
    \<and> adds 0 (coder_count folders) (port_count folders) 0 0 0 s t"
proof (cases "e = 0")
  case True
  with assms show ?thesis by (auto simp: folder_definitions_def success dest: parse_folders_adds)
next
  case False
  with assms show ?thesis
    by (auto simp: folder_definitions_def success adds_def with_child_adds
        split: option.splits dest!: kept_reads parse_folders_adds)
qed

lemma read_unpack_sizes_post:
  "read_unpack_sizes fs s = (Inr gs, t) \<Longrightarrow> \<forall>f\<in>set fs. wf_raw_folder lim f \<Longrightarrow>
     length gs = length fs \<and> (\<forall>g\<in>set gs. sized_folder lim g) \<and> coder_count gs = coder_count fs \<and> port_count gs = port_count fs
     \<and> adds 0 0 0 0 0 0 s t"
  using read_unpack_sizes_wf kept [OF reads_read_unpack_sizes] by metis

lemma parse_unpack_info_post:
  "parse_unpack_info lim ext s = (Inr (UnpackComplete u), t) \<Longrightarrow>
     wf_raw_unpack lim u \<and> adds (length (ru_folders u)) (coder_count (ru_folders u)) (port_count (ru_folders u)) 0 0 0 s t"
  by (auto simp: parse_unpack_info_def success wf_raw_unpack_def adds_def
      split: prod.splits dest!: folder_definitions_post posts
      dest: read_unpack_sizes_post [where lim = lim])

lemma substream_totals_post:
  "substream_totals cs a b s = (Inr (x, y), t) \<Longrightarrow>
     x = a + sum_list cs \<and> y = b + (\<Sum>c\<leftarrow>cs. c - 1) \<and> t = s"
  by (induction cs arbitrary: a b s) (fastforce simp: success)+

text \<open>The digests written out: all but those a folder of one substream inherits.\<close>

fun written_digests :: "u32 option list option \<Rightarrow> nat \<Rightarrow> nat list \<Rightarrow> nat" where
  "written_digests crcs i [] = 0"
| "written_digests crcs i (c # cs) =
     (if c = 1 \<and> inherited_crc crcs i \<noteq> None then 0 else c) + written_digests crcs (Suc i) cs"

lemma digest_total_post:
  "digest_total crcs i cs n s = (Inr m, t) \<Longrightarrow> m = n + written_digests crcs i cs \<and> t = s"
  by (induction cs arbitrary: i n s) (fastforce simp: success)+

definition wf_raw_substreams :: "raw_unpack_info \<Rightarrow> raw_substreams_info \<Rightarrow> bool" where
  "wf_raw_substreams u r \<longleftrightarrow> length (rs_counts r) = length (ru_folders u)
     \<and> sized (rs_explicit_sizes r) (\<Sum>c\<leftarrow>rs_counts r. c - 1)
     \<and> sized (rs_crcs r) (written_digests (ru_crcs u) 0 (rs_counts r))"

lemma substream_counts_post:
  assumes "(if i = ID_NUM_UNPACK_STREAM
           then bind (repeat_for n raw_read_uint) (\<lambda>counts. bind raw_read_u8 (\<lambda>id. ret (counts, id)))
           else ret (replicate n 1, i)) s = (Inr (counts, j), t)"
  shows "length counts = n \<and> adds 0 0 0 0 0 0 s t"
  using assms
  by (cases "i = ID_NUM_UNPACK_STREAM")
     (auto simp: success adds_def dest!: kept_reads)

lemma parse_substreams_info_post:
  "parse_substreams_info u lim s = (Inr r, t) \<Longrightarrow>
     wf_raw_substreams u r \<and> adds 0 0 0 0 (sum_list (rs_counts r)) 0 s t"
  unfolding parse_substreams_info_def
  by (auto simp: bind_Inr guard_Inr ret_Inr usize_to_u64_Inr wf_raw_substreams_def adds_def
      simp del: split_paired_Ex
      split: prod.splits dest!: substream_counts_post substream_totals_post digest_total_post posts)

section \<open>Headers\<close>

definition stream_folders :: "raw_streams_info \<Rightarrow> raw_folder list" where
  "stream_folders r = (case ri_unpack r of None \<Rightarrow> [] | Some u \<Rightarrow> ru_folders u)"

definition pack_count :: "raw_streams_info \<Rightarrow> nat" where
  "pack_count r = (case ri_pack r of None \<Rightarrow> 0 | Some p \<Rightarrow> rp_streams p)"

definition substream_counts :: "raw_streams_info \<Rightarrow> nat list" where
  "substream_counts r = (case ri_substreams r of
     None \<Rightarrow> replicate (length (stream_folders r)) 1 | Some b \<Rightarrow> rs_counts b)"

definition wf_raw_streams :: "limits \<Rightarrow> raw_streams_info \<Rightarrow> bool" where
  "wf_raw_streams lim r \<longleftrightarrow>
     pred_option wf_raw_pack (ri_pack r)
     \<and> pred_option (wf_raw_unpack lim) (ri_unpack r)
     \<and> pred_option (\<lambda>b. \<exists>u. ri_unpack r = Some u \<and> wf_raw_substreams u b) (ri_substreams r)"

definition stream_adds ::
  "raw_streams_info \<Rightarrow> 'z parse_state_scheme \<Rightarrow> 'z parse_state_scheme \<Rightarrow> bool" where
  "stream_adds r = adds (length (stream_folders r)) (coder_count (stream_folders r))
     (port_count (stream_folders r)) (pack_count r) (sum_list (substream_counts r)) 0"

lemmas stream_measures = stream_folders_def pack_count_def substream_counts_def

lemma optional_pack_post:
  assumes "optional_section i w (parse_pack_info lim) s = (Inr (p, j), t)"
  shows "pred_option wf_raw_pack p \<and> adds 0 0 0 (case p of None \<Rightarrow> 0 | Some q \<Rightarrow> rp_streams q) 0 0 s t"
  using assms
  by (auto simp: optional_section_def success adds_def split: if_splits
      dest!: parse_pack_info_post kept_reads)

lemma parse_streams_info_post:
  "parse_streams_info lim ext s = (Inr (StreamsComplete r), t) \<Longrightarrow>
     wf_raw_streams lim r \<and> stream_adds r s t"
  unfolding parse_streams_info_def
  by (auto simp: success wf_raw_streams_def stream_adds_def stream_measures adds_def
        coder_count_def port_count_def sum_list_replicate split: if_splits
      dest!: optional_pack_post parse_unpack_info_post parse_substreams_info_post posts)

lemmas property_reads = raw_reads [THEN kept] control_reads(3) [THEN kept]

lemma property_step:
  assumes "add_property lim s1 = (Inr x, s2)" "raw_read_uint s2 = (Inr n, s3)"
    "check_limit n (max_header_bytes lim) HeaderBytes s3 = (Inr y, s4)"
    "raw_read_bytes n s4 = (Inr data, s5)" "reserve_with msg k s5 = (Inr z, s6)"
  shows "adds 0 0 0 0 0 1 s1 s6 \<and> length data \<le> max_header_bytes lim"
  using assms raw_read_bytes_length [of n s4 data s5]
  by (auto simp: check_limit_Inr adds_def dest!: property_reads add_totals)

lemma property_loop_post:
  "property_loop lim ps s = (Inr qs, t) \<Longrightarrow>
     \<exists>rs. qs = ps @ rs \<and> adds 0 0 0 0 0 (length rs) s t
       \<and> (\<forall>p\<in>set rs. prop_id p \<noteq> ID_END \<and> length (prop_data p) \<le> max_header_bytes lim)"
proof (induction lim ps s rule: property_loop.induct)
  case (1 lim ps s)
  from 1(2) obtain i s1 where i: "raw_read_u8 s = (Inr i, s1)"
    and rest: "branch (i = ID_END) (ret ps)
      (bind (add_property lim) (\<lambda>_.
       bind raw_read_uint (\<lambda>len.
       bind (check_limit len (max_header_bytes lim) HeaderBytes) (\<lambda>_.
       bind (raw_read_bytes len) (\<lambda>data.
       bind (reserve_with ''header property allocation failed'' 1) (\<lambda>_.
       property_loop lim (ps @ [\<lparr>prop_id = i, prop_data = data\<rparr>]))))))) s1 = (Inr qs, t)"
    by (subst (asm) property_loop.simps) (auto simp: bind_Inr)
  show ?case
  proof (cases "i = ID_END")
    case True
    with rest i show ?thesis by (auto simp: branch_def success dest!: property_reads)
  next
    case False
    with rest obtain x s2 n s3 y s4 data s5 z s6 where
      st: "add_property lim s1 = (Inr x, s2)" "raw_read_uint s2 = (Inr n, s3)"
      "check_limit n (max_header_bytes lim) HeaderBytes s3 = (Inr y, s4)"
      "raw_read_bytes n s4 = (Inr data, s5)"
      "reserve_with ''header property allocation failed'' 1 s5 = (Inr z, s6)"
      and loop: "property_loop lim (ps @ [\<lparr>prop_id = i, prop_data = data\<rparr>]) s6 = (Inr qs, t)"
      by (auto simp: branch_def bind_Inr)
    from 1(1) [OF i False st loop] obtain rs where "qs = ps @ \<lparr>prop_id = i, prop_data = data\<rparr> # rs"
      and "adds 0 0 0 0 0 (length rs) s6 t"
      and "\<forall>p\<in>set rs. prop_id p \<noteq> ID_END \<and> length (prop_data p) \<le> max_header_bytes lim"
      by auto
    with property_step [OF st] i False show ?thesis
      by (intro exI [of _ "\<lparr>prop_id = i, prop_data = data\<rparr> # rs"])
        (auto simp: adds_def dest!: property_reads)
  qed
qed

definition small_data :: "limits \<Rightarrow> raw_property list \<Rightarrow> bool" where
  "small_data lim ps \<longleftrightarrow> (\<forall>p\<in>set ps. prop_id p \<noteq> ID_END \<and> length (prop_data p) \<le> max_header_bytes lim)"

lemma small_data_Nil [simp]: "small_data lim []"
  by (simp add: small_data_def)

lemma parse_property_list_post:
  "parse_property_list lim s = (Inr ps, t) \<Longrightarrow> adds 0 0 0 0 0 (length ps) s t \<and> small_data lim ps"
  unfolding parse_property_list_def small_data_def by (auto dest!: property_loop_post)

lemma parse_files_info_post:
  "parse_files_info lim s = (Inr f, t) \<Longrightarrow>
     adds 0 0 0 0 0 (length (rfi_properties f)) s t \<and> rfi_count f \<le> max_files lim
     \<and> small_data lim (rfi_properties f)"
  by (auto simp: parse_files_info_def success adds_def
      dest!: parse_property_list_post property_reads)

definition header_streams :: "raw_next_header \<Rightarrow> raw_streams_info list" where
  "header_streams r = (case r of
     RawHeader h \<Rightarrow> (case rh_additional_streams h of None \<Rightarrow> [] | Some a \<Rightarrow> [a])
       @ (case rh_main_streams h of None \<Rightarrow> [] | Some m \<Rightarrow> [m])
   | RawEncoded e \<Rightarrow> [e]
   | RawExternalFolders x \<Rightarrow> [re_additional_streams x])"

definition all_folders :: "raw_next_header \<Rightarrow> raw_folder list" where
  "all_folders r = concat (map stream_folders (header_streams r))"

text \<open>The packed streams a header declares, the main ones of a pending header included.\<close>

definition pack_streams_of :: "raw_pack_info option \<Rightarrow> nat" where
  "pack_streams_of p = (case p of None \<Rightarrow> 0 | Some q \<Rightarrow> rp_streams q)"

definition pending_pack :: "raw_next_header \<Rightarrow> raw_pack_info option" where
  "pending_pack r = (case r of RawExternalFolders x \<Rightarrow> re_main_pack x | _ \<Rightarrow> None)"

definition packed_total :: "raw_next_header \<Rightarrow> nat" where
  "packed_total r = (\<Sum>i\<leftarrow>header_streams r. pack_count i) + pack_streams_of (pending_pack r)"

definition declared_substreams :: "raw_next_header \<Rightarrow> nat" where
  "declared_substreams r = (\<Sum>i\<leftarrow>header_streams r. sum_list (substream_counts i))"

definition files_of :: "raw_next_header \<Rightarrow> raw_files_info option" where
  "files_of r = (case r of RawHeader h \<Rightarrow> rh_files h | _ \<Rightarrow> None)"

definition raw_properties :: "raw_next_header \<Rightarrow> raw_property list" where
  "raw_properties r = (case r of RawHeader h \<Rightarrow> rh_archive_properties h | _ \<Rightarrow> [])
     @ (case files_of r of None \<Rightarrow> [] | Some f \<Rightarrow> rfi_properties f)"

definition header_within :: "'z parse_state_scheme \<Rightarrow> raw_next_header \<Rightarrow> 'z parse_state_scheme \<Rightarrow> bool" where
  "header_within s r t \<longleftrightarrow>
     total_folders s + length (all_folders r) \<le> total_folders t
     \<and> total_coders s + coder_count (all_folders r) \<le> total_coders t
     \<and> total_streams s + port_count (all_folders r) \<le> total_streams t
     \<and> total_packed_streams s + packed_total r \<le> total_packed_streams t
     \<and> total_substreams s + declared_substreams r \<le> total_substreams t
     \<and> total_properties s + length (raw_properties r) \<le> total_properties t"

definition wf_raw_next :: "limits \<Rightarrow> raw_next_header \<Rightarrow> bool" where
  "wf_raw_next lim r \<longleftrightarrow> (\<forall>i\<in>set (header_streams r). wf_raw_streams lim i)
     \<and> pred_option wf_raw_pack (pending_pack r)
     \<and> pred_option (\<lambda>f. rfi_count f \<le> max_files lim) (files_of r)
     \<and> small_data lim (raw_properties r)"

lemma coder_count_append [simp]: "coder_count (xs @ ys) = coder_count xs + coder_count ys"
  by (simp add: coder_count_def)

lemma coder_count_Nil [simp]: "coder_count [] = 0"
  by (simp add: coder_count_def)

lemma port_count_append [simp]: "port_count (xs @ ys) = port_count xs + port_count ys"
  by (simp add: port_count_def)

lemma port_count_Nil [simp]: "port_count [] = 0"
  by (simp add: port_count_def)

lemma small_data_append [simp]: "small_data lim (ps @ qs) \<longleftrightarrow> small_data lim ps \<and> small_data lim qs"
  by (auto simp: small_data_def)

lemmas header_measures = header_within_def wf_raw_next_def header_streams_def all_folders_def
  packed_total_def pending_pack_def pack_streams_of_def declared_substreams_def raw_properties_def
  files_of_def

definition opt_adds ::
  "raw_streams_info option \<Rightarrow> 'z parse_state_scheme \<Rightarrow> 'z parse_state_scheme \<Rightarrow> bool" where
  "opt_adds r s t \<longleftrightarrow> (case r of None \<Rightarrow> adds 0 0 0 0 0 0 s t | Some i \<Rightarrow> stream_adds i s t)"

lemma adds_zero_right: "adds f c g p k q s t \<Longrightarrow> adds 0 0 0 0 0 0 t u \<Longrightarrow> adds f c g p k q s u"
  by (simp add: adds_def)

lemma archive_properties_post:
  "archive_properties_section i lim s = (Inr (ps, j), t) \<Longrightarrow>
     adds 0 0 0 0 0 (length ps) s t \<and> small_data lim ps"
  by (auto simp: archive_properties_section_def success split: if_splits
      dest!: parse_property_list_post kept_reads intro: adds_zero_right)

lemma additional_streams_post:
  "additional_streams_section i lim s = (Inr (r, j), t) \<Longrightarrow>
     pred_option (wf_raw_streams lim) r \<and> opt_adds r s t"
  by (auto simp: additional_streams_section_def success opt_adds_def stream_adds_def split: if_splits
      dest!: parse_streams_info_post kept_reads intro: adds_zero_right)

lemma main_streams_post:
  "main_streams_section i bs lim ext add s = (Inr (Inr (r, j)), t) \<Longrightarrow>
     pred_option (wf_raw_streams lim) r \<and> opt_adds r s t"
  by (auto simp: main_streams_section_def success opt_adds_def stream_adds_def split: if_splits
      dest!: parse_streams_info_post kept_reads intro: adds_zero_right)

text \<open>
  A parse that stops at an external folder list has counted the declared folders, but has no
  folder yet; its packed streams are complete.
\<close>

lemma unpack_external_post:
  "parse_unpack_info lim ext s = (Inr (UnpackExternal d), t) \<Longrightarrow> \<exists>f. adds f 0 0 0 0 0 s t"
  by (auto simp: parse_unpack_info_def folder_definitions_def success adds_def
      split: if_splits option.splits dest!: kept_reads add_totals)

lemma streams_external_post:
  "parse_streams_info lim ext s = (Inr (StreamsExternal p d), t) \<Longrightarrow>
     pred_option wf_raw_pack p \<and> (\<exists>f. adds f 0 0 (pack_streams_of p) 0 0 s t)"
  unfolding parse_streams_info_def
  by (auto simp: success adds_def pack_streams_of_def split: if_splits
      dest!: optional_pack_post unpack_external_post kept_reads)

lemma main_streams_external_post:
  assumes "main_streams_section i bs lim ext add s = (Inr (Inl x), t)"
  shows "add = Some (re_additional_streams x) \<and> pred_option wf_raw_pack (re_main_pack x)
    \<and> (\<exists>f. adds f 0 0 (pack_streams_of (re_main_pack x)) 0 0 s t)"
  using assms by (auto simp: main_streams_section_def success split: if_splits
      dest!: streams_external_post)

lemma files_post:
  "files_section i lim s = (Inr (f, j), t) \<Longrightarrow>
     adds 0 0 0 0 0 (length (case f of None \<Rightarrow> [] | Some g \<Rightarrow> rfi_properties g)) s t
     \<and> pred_option (\<lambda>f. rfi_count f \<le> max_files lim) f
     \<and> small_data lim (case f of None \<Rightarrow> [] | Some g \<Rightarrow> rfi_properties g)"
  by (auto simp: files_section_def success split: if_splits
      dest!: parse_files_info_post kept_reads intro: adds_zero_right)

lemma parse_header_body_post:
  assumes "parse_header_body bs lim ext s = (Inr r, t)"
  shows "wf_raw_next lim r \<and> header_within s r t"
proof -
  from assms obtain i u ps j v a k w m x where "raw_read_u8 s = (Inr i, u)"
    and "archive_properties_section i lim u = (Inr (ps, j), v)"
    and a: "additional_streams_section j lim v = (Inr (a, k), w)"
    and m: "main_streams_section k bs lim ext a w = (Inr m, x)"
    and rest: "(case m of Inl pending \<Rightarrow> ret (RawExternalFolders pending)
     | Inr (main_streams, mid) \<Rightarrow>
         bind (files_section mid lim) (\<lambda>(files, fid).
         bind (guard (fid = ID_END) (format_error ''unexpected Header identifier'')) (\<lambda>_.
         ret (RawHeader \<lparr>rh_archive_properties = ps,
           rh_additional_streams = a, rh_main_streams = main_streams,
           rh_files = files\<rparr>)))) x = (Inr r, t)"
    by (auto simp: parse_header_body_def bind_Inr)
  then have sv: "adds 0 0 0 0 0 (length ps) s v" and ps: "small_data lim ps"
    by (auto simp: adds_def dest!: kept_reads archive_properties_post)
  show ?thesis
  proof (cases m)
    case (Inl pending)
    with m have "a = Some (re_additional_streams pending)"
      and "pred_option wf_raw_pack (re_main_pack pending)"
      and "\<exists>f. adds f 0 0 (pack_streams_of (re_main_pack pending)) 0 0 w x"
      by (auto dest: main_streams_external_post)
    with Inl rest sv additional_streams_post [OF a] show ?thesis
      by (auto simp: success header_measures opt_adds_def stream_adds_def adds_def)
  next
    case (Inr p)
    then obtain ms l where mp: "m = Inr (ms, l)" by (cases p) simp
    with rest obtain f l' where "files_section l lim x = (Inr (f, l'), t)"
      and "r = RawHeader \<lparr>rh_archive_properties = ps, rh_additional_streams = a,
        rh_main_streams = ms, rh_files = f\<rparr>"
      by (auto simp: success)
    with sv ps mp additional_streams_post [OF a] main_streams_post [of k bs lim ext a w ms l x] m
    show ?thesis
      by (cases a; cases ms)
        (auto simp: header_measures opt_adds_def stream_adds_def adds_def dest!: files_post)
  qed
qed

lemma parse_encoded_post:
  "parse_streams_info lim None s = (Inr (StreamsComplete e), t) \<Longrightarrow>
     wf_raw_next lim (RawEncoded e) \<and> header_within s (RawEncoded e) t"
  by (auto simp: header_measures stream_adds_def adds_def dest!: parse_streams_info_post)

lemma header_within_reads:
  "adds 0 0 0 0 0 0 s s' \<Longrightarrow> header_within s' r t \<Longrightarrow> header_within s r t"
  by (simp add: header_within_def adds_def)

lemma header_within_child [simp]:
  "header_within (s\<lparr>rbytes := b, rpos := i\<rparr>) r t = header_within s r t"
  "header_within s r (t\<lparr>rbytes := b, rpos := i\<rparr>) = header_within s r t"
  by (simp_all add: header_within_def)

lemma parse_next_header_inner_post:
  "parse_next_header_inner bs lim ext s = (Inr r, t) \<Longrightarrow>
     wf_raw_next lim r \<and> header_within s r t \<and> 1 \<le> max_recursion_depth lim"
  unfolding parse_next_header_inner_def
  by (auto simp: success with_child_adds check_limit_Inr split: if_splits
      dest!: kept_reads parse_header_body_post parse_encoded_post intro: header_within_reads)

text \<open>C10: A next header that parses, with or without a resolved external folder list, is within
  the structural limits of its configuration. Summed over the additional and the main section,
  the folders are within \<open>max_folders\<close>, their coders within \<open>max_total_coders\<close>, the input and
  output ports of their coders within \<open>max_total_streams\<close>, the substreams within
  \<open>max_substreams\<close>, and the packed streams, those of the main section of a header whose folder
  list is still external included, within \<open>max_total_streams\<close>; the archive and file properties
  together are within \<open>max_header_properties\<close>, and the recursion limit allows one level. By
  \<open>wf_raw_next\<close> each record is within its own limits (\<open>max_coders_per_folder\<close>,
  \<open>max_streams_per_folder\<close>, \<open>max_coder_property_bytes\<close>, \<open>max_files\<close>, \<open>max_header_bytes\<close> for the
  data of a property) and has the shape the validator relies on: lists as long as their declared
  counts, one bind pair less than outputs, positive port counts adding up to the folder's.\<close>

theorem next_header_within_limits:
  assumes "fst (with_parse_state (parse_next_header_inner bytes lim ext) c) = Inr r"
  shows "wf_raw_next lim r
    \<and> length (all_folders r) \<le> max_folders lim
    \<and> coder_count (all_folders r) \<le> max_total_coders lim
    \<and> port_count (all_folders r) \<le> max_total_streams lim
    \<and> packed_total r \<le> max_total_streams lim
    \<and> declared_substreams r \<le> max_substreams lim
    \<and> length (raw_properties r) \<le> max_header_properties lim
    \<and> 1 \<le> max_recursion_depth lim"
proof -
  let ?s = "\<lparr>cancel_in = cancel_in c, oom_in = oom_in c, remaining = remaining c,
              consumed = consumed c, rbytes = [], rpos = 0, total_folders = 0, total_coders = 0,
              total_streams = 0, total_packed_streams = 0, total_substreams = 0,
              total_properties = 0\<rparr>"
  from assms obtain t where run: "parse_next_header_inner bytes lim ext ?s = (Inr r, t)"
    by (auto simp: with_parse_state_def split: prod.splits)
  have "parse_le lim ?s t" using parses_next_header_inner run by (rule parses.keepsD)
  with parse_next_header_inner_post [OF run] show ?thesis
    by (auto simp: header_within_def parse_le_def totals_le_def grows_def)
qed

definition example_header :: "u8 list" where
  "example_header = [0x17, 0x06, 0x05, 0x01, 0x09, 0x07, 0x00, 0x07, 0x0b, 0x01, 0x00,
     0x01, 0x01, 0x21, 0x0c, 0x08, 0x00, 0x00]"

lemma example_header_parses:
  "fst (with_parse_state (parse_next_header_inner example_header DEFAULT None) unlimited) =
     Inr (RawEncoded \<lparr>ri_pack = Some \<lparr>rp_position = 5, rp_streams = 1, rp_sizes = Some [7], rp_crcs = None\<rparr>,
       ri_unpack = Some \<lparr>ru_folders = [\<lparr>rf_coders = [\<lparr>rc_method_id = [0x21], rc_inputs = 1,
         rc_outputs = 1, rc_properties = []\<rparr>], rf_inputs = 1, rf_outputs = 1, rf_bind_pairs = [],
         rf_packed_streams = 1, rf_packed_indices = None, rf_unpack_sizes = [8]\<rparr>], ru_crcs = None\<rparr>,
       ri_substreams = None\<rparr>)"
  by (simp add: with_parse_state_def parse_next_header_inner_def example_header_def DEFAULT_def
      unlimited_def parse_streams_info_def optional_section_def parse_pack_info_def raw_ids
      parse_unpack_info_def folder_definitions_def parse_folders_def parse_folder_def parse_coder_def
      read_unpack_sizes_def parse_sizes_def new_vec_def raw_read_u8_def raw_read_uint_def
      raw_read_bytes_def read_7z_uint_def read_u8_def read_bytes_def with_child_def finish_def
      add_folders_def add_coders_def add_streams_def add_packed_streams_def add_substreams_def
      add_limited_def check_limit_def checkpoint_def check_def charge_def reserve_with_def
      try_reserve_def u64_to_usize_def usize_to_u64_def checked_add_def checked_sub_def consume_bytes_def
      chunks.simps CONTROL_CHUNK_SIZE_def get_range_def get_at_def run ok_or_def guard_def)

theorem next_header_within_limits_witness:
  "\<exists>r. fst (with_parse_state (parse_next_header_inner example_header DEFAULT None) unlimited) = Inr r
     \<and> wf_raw_next DEFAULT r \<and> length (all_folders r) = 1
     \<and> port_count (all_folders r) = 2 \<and> packed_total r = 1
     \<and> port_count (all_folders r) \<le> max_total_streams DEFAULT"
  using next_header_within_limits [OF example_header_parses]
  by (auto simp: example_header_parses header_measures stream_measures port_count_def)

end
