(* ===== verification/CoderProps.thy ===== *)
theory CoderProps
  imports Bounded
begin

text \<open>
  The PPMd coder properties of \<open>coder_properties.rs\<close>: five bytes, or seven with two zero
  reserved ones; the order and the memory size are range-checked.
\<close>

definition PPMD_CANONICAL_PROPERTY_BYTES :: nat where "PPMD_CANONICAL_PROPERTY_BYTES = 5"
definition PPMD_PY7ZR_PROPERTY_BYTES :: nat where "PPMD_PY7ZR_PROPERTY_BYTES = 7"
definition PPMD_MINIMUM_MEMORY_BYTES :: nat where "PPMD_MINIMUM_MEMORY_BYTES = 2 ^ 11"
definition PPMD_MINIMUM_ORDER :: nat where "PPMD_MINIMUM_ORDER = 2"
definition PPMD_MAXIMUM_ORDER :: nat where "PPMD_MAXIMUM_ORDER = 64"

lemmas ppmd_constants = PPMD_CANONICAL_PROPERTY_BYTES_def PPMD_PY7ZR_PROPERTY_BYTES_def
  PPMD_MINIMUM_MEMORY_BYTES_def PPMD_MINIMUM_ORDER_def PPMD_MAXIMUM_ORDER_def

record ppmd_properties =
  pp_order :: u8
  pp_memory_size :: nat

definition parse_ppmd_properties :: "u8 list \<Rightarrow> ('s, error, ppmd_properties) comp" where
  "parse_ppmd_properties properties =
     bind (if length properties = PPMD_CANONICAL_PROPERTY_BYTES then ret properties
           else if length properties = PPMD_PY7ZR_PROPERTY_BYTES
           then bind (ok_or (get_range properties PPMD_CANONICAL_PROPERTY_BYTES
                               PPMD_PY7ZR_PROPERTY_BYTES)
                        (format_error ''PPMd reserved properties are truncated'')) (\<lambda>reserved.
                bind (guard (reserved = [0, 0])
                        (format_error ''PPMd reserved properties must be zero'')) (\<lambda>_.
                ok_or (get_range properties 0 PPMD_CANONICAL_PROPERTY_BYTES)
                        (format_error ''PPMd canonical properties are truncated'')))
           else fail (format_error ''PPMd properties must contain exactly five bytes, or seven bytes with two zero reserved bytes''))
       (\<lambda>canonical.
     bind (guard (length canonical = PPMD_CANONICAL_PROPERTY_BYTES)
             (format_error ''PPMd canonical properties have the wrong length'')) (\<lambda>_.
     bind (ok_or (get_at canonical 0) (format_error ''PPMd order property is missing'')) (\<lambda>order.
     bind (guard (PPMD_MINIMUM_ORDER \<le> unat order \<and> unat order \<le> PPMD_MAXIMUM_ORDER)
             (format_error ''PPMd order is outside 2 through 64'')) (\<lambda>_.
     bind (ok_or (get_range canonical 1 PPMD_CANONICAL_PROPERTY_BYTES)
             (format_error ''PPMd memory property is truncated'')) (\<lambda>memory.
     bind (guard (length memory = 4)
             (format_error ''PPMd memory property has the wrong length'')) (\<lambda>_.
     let memory_size = le_bytes memory in
     bind (guard (PPMD_MINIMUM_MEMORY_BYTES \<le> memory_size)
             (format_error ''PPMd memory size is below the format minimum'')) (\<lambda>_.
     ret \<lparr>pp_order = order, pp_memory_size = memory_size\<rparr>)))))))"

text \<open>The accepted byte strings and their meaning.\<close>

lemma parse_ppmd_properties_Inr [success]:
  "parse_ppmd_properties ps s = (Inr p, t) \<longleftrightarrow>
     (length ps = 5 \<or> length ps = 7 \<and> drop 5 ps = [0, 0]) \<and> t = s
     \<and> 2 \<le> unat (ps ! 0) \<and> unat (ps ! 0) \<le> 64 \<and> 2048 \<le> le_bytes (take 4 (drop 1 ps))
     \<and> p = \<lparr>pp_order = ps ! 0, pp_memory_size = le_bytes (take 4 (drop 1 ps))\<rparr>"
  by (auto simp: parse_ppmd_properties_def Let_def success ppmd_constants drop_take)

end
