(* ===== verification/Model.thy ===== *)
theory Model
  imports Raw
begin

unbundle bit_operations_syntax

text \<open>
  The validated archive model of \<open>model.rs\<close>: one record per struct, with the constructor and
  the field accessors of the source as the record's own, and the derived classification of a
  file entry.
\<close>

section \<open>Envelope and properties\<close>

record archive_version =
  av_major :: u8
  av_minor :: u8

datatype next_header_kind = KindHeader | KindEncodedHeader

record header_envelope =
  he_signature_offset :: nat
  he_version :: archive_version
  he_next_header_offset :: nat
  he_next_header_size :: nat
  he_next_header_crc :: u32
  he_next_header_kind :: next_header_kind

record stored_property =
  sp_id :: u8
  sp_data :: "u8 list"

record external_property =
  ep_property_id :: u8
  ep_data_index :: nat
  ep_defined_entries :: "bool list"

section \<open>Streams and folders\<close>

record substream =
  ss_size :: "nat option"
  ss_crc :: "u32 option"

record bind_pair =
  bp_input_index :: nat
  bp_output_index :: nat

record coder =
  co_method_id :: "u8 list"
  co_input_start :: nat
  co_input_count :: nat
  co_output_start :: nat
  co_output_count :: nat
  co_properties :: "u8 list"
  co_dictionary_bytes :: "nat option"

record folder =
  fo_coders :: "coder list"
  fo_bind_pairs :: "bind_pair list"
  fo_packed_input_indices :: "nat list"
  fo_unpack_sizes :: "nat option list"
  fo_root_output_index :: nat
  fo_topological_coder_order :: "nat list"
  fo_crc :: "u32 option"
  fo_substreams :: "substream list"
  fo_dictionary_bytes :: nat
  fo_first_pack_stream :: nat

record pack_stream =
  ps_offset :: nat
  ps_size :: "nat option"
  ps_crc :: "u32 option"

record streams_info =
  si_pack_position :: nat
  si_pack_streams :: "pack_stream list"
  si_folders :: "folder list"
  si_substream_count :: nat

section \<open>File entries\<close>

record file_stream =
  fs_folder_index :: nat
  fs_substream_index :: nat
  fs_size :: "nat option"
  fs_crc :: "u32 option"

datatype entry_kind = EntryFile | EntryDirectory | EntrySymbolicLink | EntryAntiItem

record file_entry =
  fe_raw_name :: "u16 list option"
  fe_has_stream :: bool
  fe_empty_file :: bool
  fe_anti_item :: bool
  fe_creation_time :: "nat option"
  fe_access_time :: "nat option"
  fe_modification_time :: "nat option"
  fe_windows_attributes :: "u32 option"
  fe_start_position :: "nat option"
  fe_stream :: "file_stream option"

definition unix_mode :: "file_entry \<Rightarrow> u32 option" where
  "unix_mode entry = (case fe_windows_attributes entry of
     Some attributes \<Rightarrow> if attributes AND 0x8000 \<noteq> 0 then Some (drop_bit 16 attributes) else None
   | None \<Rightarrow> None)"

definition is_symlink :: "file_entry \<Rightarrow> bool" where
  "is_symlink entry = (case unix_mode entry of
     Some mode \<Rightarrow> mode AND 0xf000 = 0xa000 | None \<Rightarrow> False)"

definition entry_kind_of :: "file_entry \<Rightarrow> entry_kind" where
  "entry_kind_of entry =
     (if fe_anti_item entry then EntryAntiItem
      else if is_symlink entry then EntrySymbolicLink
      else if fe_has_stream entry \<or> fe_empty_file entry then EntryFile
      else EntryDirectory)"

definition entry_size :: "file_entry \<Rightarrow> nat option" where
  "entry_size entry = (case fe_stream entry of
     Some stream \<Rightarrow> fs_size stream
   | None \<Rightarrow> if fe_empty_file entry \<and> \<not> fe_anti_item entry then Some 0 else None)"

definition entry_crc32 :: "file_entry \<Rightarrow> u32 option" where
  "entry_crc32 entry = (case fe_stream entry of Some stream \<Rightarrow> fs_crc stream | None \<Rightarrow> None)"

record files_info =
  fi_entries :: "file_entry list"
  fi_external_properties :: "external_property list"
  fi_unknown_properties :: "stored_property list"

section \<open>Headers\<close>

record archive_header =
  ah_archive_properties :: "stored_property list"
  ah_additional_streams :: "streams_info option"
  ah_main_streams :: "streams_info option"
  ah_files :: "files_info option"

record pending_external_folder_header =
  pf_additional_streams :: streams_info
  pf_data_index :: nat
  pf_header_bytes :: "u8 list"

datatype parsed_next_header =
    ParsedHeader archive_header
  | ParsedEncodedHeader streams_info
  | ParsedPendingExternalFolders pending_external_folder_header

record parsed_archive =
  pa_envelope :: header_envelope
  pa_next_header :: parsed_next_header

end
