(* ===== verification/Graph.thy ===== *)
theory Graph
  imports Model RawFacts
begin

text \<open>
  Validation and scheduling of the coder graph of a folder (\<open>graph.rs\<close>): the port owners, the
  bind pairs, the root output, the partition of the inputs into bound and packed ones, and the
  order of the coders by the queue algorithm.
\<close>

record validated_graph =
  vg_bind_pairs :: "bind_pair list"
  vg_packed_input_indices :: "nat list"
  vg_root_output_index :: nat
  vg_topological_coder_order :: "nat list"

definition false_vector :: "nat \<Rightarrow> string \<Rightarrow> ('z control_scheme, error, bool list) comp" where
  "false_vector count detail =
     bind (u64_to_usize count detail) (\<lambda>count.
     bind (try_reserve count) (\<lambda>_. ret (replicate count False)))"

definition owner_for_port :: "nat list \<Rightarrow> nat \<Rightarrow> string \<Rightarrow> ('s, error, nat) comp" where
  "owner_for_port owners index detail =
     bind (u64_to_usize index ''stream index is not representable on this platform'') (\<lambda>index.
     ok_or (get_at owners index) (format_error detail))"

definition validate_bind_pair ::
  "raw_bind_pair \<Rightarrow> bool list \<Rightarrow> bool list \<Rightarrow> ('s, error, bind_pair \<times> bool list \<times> bool list) comp" where
  "validate_bind_pair raw input_used output_used =
     bind (u64_to_usize (rb_input raw)
             ''bind-pair input index is not representable on this platform'') (\<lambda>input_index.
     bind (u64_to_usize (rb_output raw)
             ''bind-pair output index is not representable on this platform'') (\<lambda>output_index.
     bind (ok_or (get_at input_used input_index)
             (format_error ''bind-pair input index is out of range'')) (\<lambda>input.
     bind (guard (\<not> input) (format_error ''bind-pair input index is duplicated'')) (\<lambda>_.
     bind (ok_or (get_at output_used output_index)
             (format_error ''bind-pair output index is out of range'')) (\<lambda>output.
     bind (guard (\<not> output) (format_error ''bind-pair output index is duplicated'')) (\<lambda>_.
     ret (\<lparr>bp_input_index = rb_input raw, bp_output_index = rb_output raw\<rparr>,
          input_used[input_index := True], output_used[output_index := True])))))))"

section \<open>The queue algorithm\<close>

text \<open>The edge loop: the indegree of every destination and the edges in bind-pair order.\<close>

primrec edges_loop ::
  "nat list \<Rightarrow> nat list \<Rightarrow> raw_bind_pair list \<Rightarrow> nat list \<Rightarrow> (nat \<times> nat) list \<Rightarrow>
   ('s, error, nat list \<times> (nat \<times> nat) list) comp" where
  "edges_loop input_owners output_owners [] indegree edges = ret (indegree, edges)"
| "edges_loop input_owners output_owners (pair # pairs) indegree edges =
     bind (owner_for_port output_owners (rb_output pair)
             ''bind-pair output index is out of range'') (\<lambda>source.
     bind (owner_for_port input_owners (rb_input pair)
             ''bind-pair input index is out of range'') (\<lambda>destination.
     bind (ok_or (get_at indegree destination)
             (format_error ''coder dependency index is out of range'')) (\<lambda>degree.
     bind (ok_or (checked_add degree 1)
             (format_error ''coder dependency count overflows'')) (\<lambda>degree.
     edges_loop input_owners output_owners pairs (indegree[destination := degree])
       (edges @ [(source, destination)])))))"

text \<open>One coder leaves the queue: its outgoing edges are taken off their destinations.\<close>

primrec relax_edges ::
  "nat \<Rightarrow> (nat \<times> nat) list \<Rightarrow> nat list \<Rightarrow> nat list \<Rightarrow>
   ('z control_scheme, error, nat list \<times> nat list) comp" where
  "relax_edges coder [] indegree ready = ret (indegree, ready)"
| "relax_edges coder (edge # edges) indegree ready =
     bind (checkpoint 1) (\<lambda>_.
     if fst edge \<noteq> coder then relax_edges coder edges indegree ready
     else
       bind (ok_or (get_at indegree (snd edge))
               (format_error ''coder dependency index is out of range'')) (\<lambda>degree.
       bind (ok_or (checked_sub degree 1)
               (format_error ''coder dependency count underflows'')) (\<lambda>degree.
       relax_edges coder edges (indegree[snd edge := degree])
         (if degree = 0 then ready @ [snd edge] else ready))))"

text \<open>
  The queue loop has no counter of its own. It ends because a coder enters the queue only when an
  indegree is taken down to zero, so the queue left plus the sum of the indegrees falls.
\<close>

lemma sum_list_dec: "i < length xs \<Longrightarrow> sum_list (xs[i := xs ! i - Suc 0]) = sum_list xs - (if xs ! i = 0 then 0 else 1)"
  by (simp add: sum_list_update elem_le_sum_list)

lemma relax_edges_weight:
  "relax_edges coder edges indegree ready s = (Inr (indegree', ready'), t) \<Longrightarrow>
     length ready' + sum_list indegree' \<le> length ready + sum_list indegree"
proof (induction edges arbitrary: indegree ready s)
  case Nil
  then show ?case by (auto simp: success)
next
  case (Cons edge edges)
  show ?case
  proof (cases "fst edge = coder")
    case False
    with Cons show ?thesis by (auto simp: success)
  next
    case True
    with Cons.prems obtain u where bound: "snd edge < length indegree" and "1 \<le> indegree ! snd edge"
      and rest: "relax_edges coder edges (indegree[snd edge := indegree ! snd edge - Suc 0])
        (if indegree ! snd edge - Suc 0 = 0 then ready @ [snd edge] else ready) u
        = (Inr (indegree', ready'), t)"
      by (auto simp: success)
    moreover have "indegree ! snd edge \<le> sum_list indegree"
      using bound by (rule elem_le_sum_list)
    ultimately show ?thesis
      using Cons.IH [OF rest] sum_list_dec [OF bound] by (auto split: if_splits)
  qed
qed

lemma relax_edges_extends:
  "relax_edges coder edges indegree ready s = (Inr (indegree', ready'), t) \<Longrightarrow>
     length indegree' = length indegree \<and> (\<exists>new. ready' = ready @ new)"
  by (induction edges arbitrary: indegree ready s) (fastforce simp: success split: if_splits)+

function queue_loop ::
  "(nat \<times> nat) list \<Rightarrow> nat list \<Rightarrow> nat list \<Rightarrow> nat \<Rightarrow> nat list \<Rightarrow>
   ('z control_scheme, error, nat list) comp" where
  "queue_loop edges indegree ready cursor order s =
     (case get_at ready cursor of
        None \<Rightarrow> ret order s
      | Some coder \<Rightarrow>
          bind (ok_or (checked_add cursor 1)
                  (format_error ''topological queue index overflows'')) (\<lambda>cursor'.
          bind (checkpoint 1) (\<lambda>_.
          bind (usize_to_u64 coder ''coder index is not representable as u64'') (\<lambda>index.
          bind (relax_edges coder edges indegree ready) (\<lambda>r.
          queue_loop edges (fst r) (snd r) cursor' (order @ [index]))))) s)"
  by pat_completeness auto
termination
proof (relation "measure (\<lambda>(edges, indegree, ready, cursor, order, s).
    length ready - cursor + sum_list indegree)", goal_cases)
  case 1
  then show ?case by simp
next
  case (2 edges indegree ready cursor order s coder cursor' s1 u s2 index s3 r s4)
  obtain indegree' ready' where r: "r = (indegree', ready')" by (cases r)
  have "cursor < length ready" "cursor' = Suc cursor"
    using 2(1,2) by (auto simp: success)
  moreover have "length ready' + sum_list indegree' \<le> length ready + sum_list indegree"
    using 2(5) r relax_edges_weight by blast
  moreover have "length ready \<le> length ready'"
    using 2(5) r relax_edges_extends by fastforce
  ultimately show ?case using r by simp
qed

declare queue_loop.simps [simp del]

definition topological_order ::
  "nat \<Rightarrow> nat list \<Rightarrow> nat list \<Rightarrow> raw_bind_pair list \<Rightarrow> ('z control_scheme, error, nat list) comp" where
  "topological_order coder_count input_owners output_owners bind_pairs =
     bind (try_reserve coder_count) (\<lambda>_.
     bind (try_reserve (length bind_pairs)) (\<lambda>_.
     bind (edges_loop input_owners output_owners bind_pairs (replicate coder_count 0) [])
       (\<lambda>(indegree, edges).
     bind (try_reserve coder_count) (\<lambda>_.
     let ready = filter (\<lambda>i. indegree ! i = 0) [0..<length indegree] in
     bind (try_reserve coder_count) (\<lambda>_.
     bind (queue_loop edges indegree ready 0 []) (\<lambda>order.
     bind (guard (length order = coder_count)
             (format_error ''folder coder graph contains a cycle'')) (\<lambda>_.
     ret order)))))))"

section \<open>Validation of a folder\<close>

text \<open>The owner of each input and output port, in coder order.\<close>

primrec owners_loop ::
  "raw_coder list \<Rightarrow> nat \<Rightarrow> nat list \<Rightarrow> nat list \<Rightarrow>
   ('z control_scheme, error, nat list \<times> nat list) comp" where
  "owners_loop [] coder_index input_owners output_owners = ret (input_owners, output_owners)"
| "owners_loop (coder # coders) coder_index input_owners output_owners =
     bind (ok_or (checked_add (rc_inputs coder) (rc_outputs coder))
             (format_error ''coder port count overflows'')) (\<lambda>port_count.
     bind (checkpoint port_count) (\<lambda>_.
     owners_loop coders (Suc coder_index)
       (input_owners @ replicate (rc_inputs coder) coder_index)
       (output_owners @ replicate (rc_outputs coder) coder_index)))"

primrec bind_pairs_loop ::
  "raw_bind_pair list \<Rightarrow> bool list \<Rightarrow> bool list \<Rightarrow> ('s, error, bind_pair list \<times> bool list \<times> bool list) comp" where
  "bind_pairs_loop [] input_used output_used = ret ([], input_used, output_used)"
| "bind_pairs_loop (pair # pairs) input_used output_used =
     bind (validate_bind_pair pair input_used output_used) (\<lambda>(valid, input_used, output_used).
     bind (bind_pairs_loop pairs input_used output_used) (\<lambda>(rest, used).
     ret (valid # rest, used)))"

primrec root_loop :: "bool list \<Rightarrow> nat \<Rightarrow> nat option \<Rightarrow> ('s, error, nat option) comp" where
  "root_loop [] index root = ret root"
| "root_loop (bound # bounds) index root =
     (if \<not> bound
      then bind (guard (root = None) (format_error ''folder has multiple root output streams'')) (\<lambda>_.
           bind (usize_to_u64 index ''root output index is not representable as u64'') (\<lambda>i.
           root_loop bounds (Suc index) (Some i)))
      else root_loop bounds (Suc index) root)"

primrec packed_loop :: "nat list \<Rightarrow> bool list \<Rightarrow> bool list \<Rightarrow> ('s, error, bool list) comp" where
  "packed_loop [] input_used packed_used = ret packed_used"
| "packed_loop (index # indices) input_used packed_used =
     bind (u64_to_usize index ''packed-input index is not representable on this platform'') (\<lambda>index.
     bind (ok_or (get_at packed_used index)
             (format_error ''packed-input index is out of range'')) (\<lambda>is_packed.
     bind (guard (\<not> is_packed) (format_error ''packed-input index is duplicated'')) (\<lambda>_.
     bind (ok_or (get_at input_used index)
             (format_error ''packed-input index is out of range'')) (\<lambda>is_bound.
     bind (guard (\<not> is_bound) (format_error ''packed-input index is already bound'')) (\<lambda>_.
     packed_loop indices input_used (packed_used[index := True]))))))"

text \<open>\<open>iter().position(|bound| !bound)\<close>.\<close>

fun position_unset :: "bool list \<Rightarrow> nat \<Rightarrow> nat option" where
  "position_unset [] index = None"
| "position_unset (b # bs) index = (if \<not> b then Some index else position_unset bs (Suc index))"

definition packed_indices_of ::
  "raw_folder \<Rightarrow> bool list \<Rightarrow> ('s, error, nat list) comp" where
  "packed_indices_of raw input_used =
     (case rf_packed_indices raw of
        Some indices \<Rightarrow> ret indices
      | None \<Rightarrow>
          bind (ok_or (position_unset input_used 0)
                  (format_error ''folder has no unbound packed input'')) (\<lambda>index.
          bind (usize_to_u64 index ''packed-input index is not representable as u64'') (\<lambda>index.
          ret [index])))"

definition root_output_of :: "bool list \<Rightarrow> ('s, error, nat) comp" where
  "root_output_of output_used =
     bind (root_loop output_used 0 None) (\<lambda>root_output.
     ok_or root_output (format_error ''folder has no root output stream''))"

text \<open>The packed-input section: the indices, their checks, and the partition of the inputs.\<close>

definition packed_inputs_of :: "raw_folder \<Rightarrow> bool list \<Rightarrow> ('z control_scheme, error, nat list) comp" where
  "packed_inputs_of raw input_used =
     bind (u64_to_usize (rf_packed_streams raw)
             ''packed-input count is not representable on this platform'') (\<lambda>packed_capacity.
     bind (try_reserve packed_capacity) (\<lambda>_.
     bind (packed_indices_of raw input_used) (\<lambda>packed_indices.
     bind (guard (length packed_indices = packed_capacity)
             (format_error ''folder packed-input count is inconsistent'')) (\<lambda>_.
     bind (false_vector (rf_inputs raw)
             ''folder input count is not representable on this platform'') (\<lambda>packed_used.
     bind (packed_loop packed_indices input_used packed_used) (\<lambda>packed_used.
     bind (guard (\<forall>(bound, packed)\<in>set (zip input_used packed_used). bound \<noteq> packed)
             (format_error ''folder inputs are not partitioned into bound and packed streams'')) (\<lambda>_.
     ret packed_indices)))))))"

definition validate_folder_graph :: "raw_folder \<Rightarrow> ('z control_scheme, error, validated_graph) comp" where
  "validate_folder_graph raw =
     bind (ok_or (checked_add (rf_inputs raw) (rf_outputs raw))
             (format_error ''folder port count overflows'')) (\<lambda>port_count.
     bind (checkpoint port_count) (\<lambda>_.
     bind (u64_to_usize (rf_inputs raw)
             ''folder input count is not representable on this platform'') (\<lambda>input_count.
     bind (u64_to_usize (rf_outputs raw)
             ''folder output count is not representable on this platform'') (\<lambda>output_count.
     bind (try_reserve input_count) (\<lambda>_.
     bind (try_reserve output_count) (\<lambda>_.
     bind (owners_loop (rf_coders raw) 0 [] []) (\<lambda>(input_owners, output_owners).
     bind (guard (length input_owners = input_count \<and> length output_owners = output_count)
             (format_error ''folder stream-owner totals are inconsistent'')) (\<lambda>_.
     bind (false_vector (rf_inputs raw)
             ''folder input count is not representable on this platform'') (\<lambda>input_used.
     bind (false_vector (rf_outputs raw)
             ''folder output count is not representable on this platform'') (\<lambda>output_used.
     bind (try_reserve (length (rf_bind_pairs raw))) (\<lambda>_.
     bind (bind_pairs_loop (rf_bind_pairs raw) input_used output_used)
       (\<lambda>(bind_pairs, input_used, output_used).
     bind (root_output_of output_used) (\<lambda>root_output_index.
     bind (packed_inputs_of raw input_used) (\<lambda>packed_indices.
     bind (topological_order (length (rf_coders raw)) input_owners output_owners (rf_bind_pairs raw))
       (\<lambda>order.
     ret \<lparr>vg_bind_pairs = bind_pairs, vg_packed_input_indices = packed_indices,
          vg_root_output_index = root_output_index,
          vg_topological_coder_order = order\<rparr>)))))))))))))))"

section \<open>Frame\<close>

lemma metered_false_vector [frame]: "metered.keeps (false_vector n d)"
  by (auto simp: false_vector_def intro!: metered.keeps_rules frame)

lemma metered_edges_loop [frame]: "metered.keeps (edges_loop io oo ps ind es)"
  by (induction ps arbitrary: ind es)
     (auto simp: owner_for_port_def intro!: metered.keeps_rules frame)

lemma metered_relax_edges [frame]: "metered.keeps (relax_edges c es ind ready)"
  by (induction es arbitrary: ind ready) (auto intro!: metered.keeps_rules frame)

lemma metered_queue_loop: "metered_le s (snd (queue_loop es ind ready cursor order s))"
proof (induction es ind ready cursor order s rule: queue_loop.induct)
  case (1 es ind ready cursor order s)
  show ?case
  proof (cases "get_at ready cursor")
    case None
    show ?thesis
      by (subst queue_loop.simps, simp only: None option.case) (rule metered.le_ret)
  next
    case (Some coder)
    show ?thesis
      by (subst queue_loop.simps, simp only: Some option.case)
        (intro metered.le_bind metered.keeps_rules frame; rule 1 [OF Some]; assumption)
  qed
qed

lemma metered_topological_order [frame]: "metered.keeps (topological_order n io oo ps)"
  unfolding topological_order_def Let_def
  by (intro metered.keeps_rules frame) (simp add: metered.keeps_def metered_queue_loop)

lemma metered_owners_loop [frame]: "metered.keeps (owners_loop cs i io oo)"
  by (induction cs arbitrary: i io oo) (auto intro!: metered.keeps_rules frame)

lemma metered_bind_pairs_loop [frame]: "metered.keeps (bind_pairs_loop ps iu ou)"
  by (induction ps arbitrary: iu ou)
     (auto simp: validate_bind_pair_def intro!: metered.keeps_rules frame)

lemma metered_root_loop [frame]: "metered.keeps (root_loop bs i r)"
  by (induction bs arbitrary: i r) (auto intro!: metered.keeps_rules frame)

lemma metered_packed_loop [frame]: "metered.keeps (packed_loop is iu pu)"
  by (induction "is" arbitrary: pu) (auto intro!: metered.keeps_rules frame)

lemma metered_validate_folder_graph [frame]: "metered.keeps (validate_folder_graph raw)"
  unfolding validate_folder_graph_def packed_indices_of_def root_output_of_def packed_inputs_of_def
  by (intro metered.keeps_rules frame)

lemma queue_loop_step:
  assumes "cursor < length ready" "ready ! cursor < 2 ^ 64" "Suc cursor < 2 ^ 64"
  shows "queue_loop edges indegree ready cursor order =
    bind (checkpoint 1) (\<lambda>_. bind (relax_edges (ready ! cursor) edges indegree ready) (\<lambda>r.
      queue_loop edges (fst r) (snd r) (Suc cursor) (order @ [ready ! cursor])))"
  using assms
  by (subst fun_eq_iff, subst queue_loop.simps)
    (simp add: get_at_def checked_add_def usize_to_u64_def bind_assoc)

lemma queue_loop_end: "length ready \<le> cursor \<Longrightarrow> queue_loop edges indegree ready cursor order = ret order"
  by (subst fun_eq_iff, subst queue_loop.simps) (simp add: get_at_def)

text \<open>The definitions the evaluation of a concrete folder unfolds.\<close>

lemmas run_graph = validate_folder_graph_def false_vector_def validate_bind_pair_def
  root_output_of_def packed_inputs_of_def packed_indices_of_def topological_order_def
  owner_for_port_def queue_loop_step queue_loop_end

end
