(* ===== verification/ValidateCoders.thy ===== *)
theory ValidateCoders
  imports CoderProps Graph
begin

unbundle bit_operations_syntax

text \<open>
  The first part of \<open>validate.rs\<close>: its small helpers, the coder-property checks, and the
  validation of one folder into a draft that only lacks its substreams.
\<close>

definition FIXED_HEADER_SIZE :: nat where "FIXED_HEADER_SIZE = 32"
definition UNKNOWN_SIZE :: nat where "UNKNOWN_SIZE = 2 ^ 64 - 1"
definition METHOD_LZMA :: "u8 list" where "METHOD_LZMA = [0x03, 0x01, 0x01]"
definition METHOD_LZMA2 :: "u8 list" where "METHOD_LZMA2 = [0x21]"
definition METHOD_PPMD :: "u8 list" where "METHOD_PPMD = [0x03, 0x04, 0x01]"
definition METHOD_DEFLATE64 :: "u8 list" where "METHOD_DEFLATE64 = [0x04, 0x01, 0x09]"
definition METHOD_AES :: "u8 list" where "METHOD_AES = [0x06, 0xf1, 0x07, 0x01]"
definition DEFLATE64_DICTIONARY_BYTES :: nat where "DEFLATE64_DICTIONARY_BYTES = 64 * 1024"

lemmas method_ids = METHOD_LZMA_def METHOD_LZMA2_def METHOD_PPMD_def METHOD_DEFLATE64_def
  METHOD_AES_def

record folder_draft =
  fd_coders :: "coder list"
  fd_bind_pairs :: "bind_pair list"
  fd_packed_input_indices :: "nat list"
  fd_unpack_sizes :: "nat option list"
  fd_root_output_index :: nat
  fd_root_size :: "nat option"
  fd_topological_coder_order :: "nat list"
  fd_crc :: "u32 option"
  fd_dictionary_bytes :: nat
  fd_first_pack_stream :: nat

section \<open>Helpers\<close>

definition push_repeated :: "nat \<Rightarrow> 'a \<Rightarrow> string \<Rightarrow> ('z control_scheme, error, 'a list) comp" where
  "push_repeated count v detail =
     bind (u64_to_usize count detail) (\<lambda>count.
     bind (try_reserve count) (\<lambda>_. ret (replicate count v)))"

definition value_at :: "'a list option \<Rightarrow> nat \<Rightarrow> string \<Rightarrow> ('s, error, 'a option) comp" where
  "value_at values index detail =
     (case values of
        Some items \<Rightarrow> bind (ok_or (get_at items index) (format_error detail)) (\<lambda>v. ret (Some v))
      | None \<Rightarrow> ret None)"

text \<open>\<open>Option::flatten\<close>.\<close>

definition flatten :: "'a option option \<Rightarrow> 'a option" where
  "flatten v = (case v of None \<Rightarrow> None | Some w \<Rightarrow> w)"

definition optional_size :: "nat \<Rightarrow> nat option" where
  "optional_size v = (if v \<noteq> UNKNOWN_SIZE then Some v else None)"

definition copy_properties ::
  "raw_property list \<Rightarrow> ('z control_scheme, error, stored_property list) comp" where
  "copy_properties properties =
     bind (usize_to_u64 (length properties) ''property count is not representable as u64'') (\<lambda>n.
     bind (checkpoint n) (\<lambda>_.
     bind (try_reserve (length properties)) (\<lambda>_.
     map_for (\<lambda>property. bind (copy_bytes (prop_data property)) (\<lambda>data.
       ret \<lparr>sp_id = prop_id property, sp_data = data\<rparr>)) properties)))"

definition validate_data_index :: "nat \<Rightarrow> nat \<Rightarrow> ('s, error, unit) comp" where
  "validate_data_index data_index additional_count =
     guard (data_index < additional_count)
       (format_error ''external property data index is outside additional streams'')"

definition little_endian_u32 :: "u8 list \<Rightarrow> string \<Rightarrow> ('s, error, nat) comp" where
  "little_endian_u32 bytes detail =
     (if length bytes = 4 then ret (le_bytes bytes) else fail (format_error detail))"

definition checked_shl :: "nat \<Rightarrow> nat \<Rightarrow> nat option" where
  "checked_shl v shift = (if shift < 64 then Some (v * 2 ^ shift mod 2 ^ 64) else None)"

section \<open>Coder properties\<close>

definition validate_lzma_properties :: "u8 list \<Rightarrow> ('s, error, nat) comp" where
  "validate_lzma_properties properties =
     bind (guard (length properties = 5)
             (format_error ''LZMA properties must contain exactly five bytes'')) (\<lambda>_.
     bind (ok_or (get_at properties 0)
             (format_error ''LZMA properties are missing the parameter byte'')) (\<lambda>first.
     let parameter = unat first; lc = parameter mod 9; remainder = parameter div 9;
         lp = remainder mod 5; pb = remainder div 5 in
     bind (guard (\<not> (pb > 4 \<or> (case checked_add lc lp of None \<Rightarrow> True | Some both \<Rightarrow> both > 4)))
             (format_error ''invalid LZMA lc/lp/pb properties'')) (\<lambda>_.
     bind (ok_or (get_range properties 1 5)
             (format_error ''LZMA dictionary property is truncated'')) (\<lambda>bytes.
     little_endian_u32 bytes ''LZMA dictionary property is truncated''))))"

definition validate_lzma2_properties :: "u8 list \<Rightarrow> ('s, error, nat) comp" where
  "validate_lzma2_properties properties =
     bind (guard (length properties = 1)
             (format_error ''LZMA2 properties must contain exactly one byte'')) (\<lambda>_.
     bind (ok_or (get_at properties 0)
             (format_error ''LZMA2 properties are missing the dictionary byte'')) (\<lambda>first.
     let property = unat first in
     bind (guard (property \<le> 40) (format_error ''invalid LZMA2 dictionary property'')) (\<lambda>_.
     bind (ok_or (checked_add (property div 2) 11)
             (format_error ''LZMA2 dictionary shift overflows'')) (\<lambda>shift.
     let base = unat (2 OR (first AND 1)) in
     ok_or (checked_shl base shift) (format_error ''LZMA2 dictionary size overflows'')))))"

definition coder_dictionary :: "u8 list \<Rightarrow> u8 list \<Rightarrow> ('s, error, nat option) comp" where
  "coder_dictionary method_id properties =
     (if method_id = METHOD_LZMA
      then bind (validate_lzma_properties properties) (\<lambda>n. ret (Some n))
      else if method_id = METHOD_LZMA2
      then bind (validate_lzma2_properties properties) (\<lambda>n. ret (Some n))
      else if method_id = METHOD_PPMD
      then bind (parse_ppmd_properties properties) (\<lambda>p. ret (Some (pp_memory_size p)))
      else if method_id = METHOD_DEFLATE64
      then bind (guard (properties = []) (format_error ''Deflate64 properties must be empty'')) (\<lambda>_.
           ret (Some DEFLATE64_DICTIONARY_BYTES))
      else ret None)"

definition validate_aes_properties :: "u8 list \<Rightarrow> limits \<Rightarrow> (control, error, unit) comp" where
  "validate_aes_properties properties limits =
     bind (with_reader properties
       (bind read_u8 (\<lambda>first.
        bind read_u8 (\<lambda>second.
        bind (ok_or (checked_add (unat (drop_bit 7 first AND 1)) (unat (drop_bit 4 second)))
                (format_error ''AES salt size overflows'')) (\<lambda>salt_size.
        bind (ok_or (checked_add (unat (drop_bit 6 first AND 1)) (unat (second AND 0x0f)))
                (format_error ''AES IV size overflows'')) (\<lambda>iv_size.
        bind (ok_or (checked_add salt_size iv_size)
                (format_error ''AES property size overflows'')) (\<lambda>variable_size.
        bind (read_bytes variable_size) (\<lambda>_.
        bind (finish ''AES properties were not consumed exactly'') (\<lambda>_.
        ret first))))))))) (\<lambda>first.
     let kdf_power = first AND 0x3f in
     if kdf_power \<noteq> 0x3f \<and> unat kdf_power > max_kdf_power limits
     then fail (LimitExceeded KdfPower (unat kdf_power) (max_kdf_power limits))
     else ret ())"

definition validate_coder_properties ::
  "u8 list \<Rightarrow> u8 list \<Rightarrow> limits \<Rightarrow> (control, error, nat option) comp" where
  "validate_coder_properties method_id properties limits =
     bind (coder_dictionary method_id properties) (\<lambda>dictionary.
     bind (if method_id = METHOD_AES then validate_aes_properties properties limits else ret ()) (\<lambda>_.
     bind (case dictionary of
             Some bytes \<Rightarrow> check_limit bytes (max_dictionary_bytes limits) DictionaryBytes
           | None \<Rightarrow> ret ()) (\<lambda>_.
     ret dictionary)))"

section \<open>Folders\<close>

text \<open>The coder loop: the port ranges and the summed dictionary sizes.\<close>

primrec validate_coders ::
  "raw_coder list \<Rightarrow> limits \<Rightarrow> nat \<Rightarrow> nat \<Rightarrow> nat \<Rightarrow>
   (control, error, coder list \<times> nat \<times> nat \<times> nat) comp" where
  "validate_coders [] limits input_start output_start dictionary_bytes =
     ret ([], input_start, output_start, dictionary_bytes)"
| "validate_coders (raw # raws) limits input_start output_start dictionary_bytes =
     bind (checkpoint 1) (\<lambda>_.
     bind (validate_coder_properties (rc_method_id raw) (rc_properties raw) limits) (\<lambda>dictionary.
     bind (case dictionary of
             Some bytes \<Rightarrow>
               bind (ok_or (checked_add dictionary_bytes bytes)
                       (format_error ''folder dictionary accounting overflows'')) (\<lambda>total.
               bind (check_limit total (max_dictionary_bytes limits) DictionaryBytes) (\<lambda>_.
               ret total))
           | None \<Rightarrow> ret dictionary_bytes) (\<lambda>dictionary_bytes.
     bind (copy_bytes (rc_method_id raw)) (\<lambda>method_id.
     bind (copy_bytes (rc_properties raw)) (\<lambda>properties.
     bind (ok_or (checked_add input_start (rc_inputs raw))
             (format_error ''coder input range overflows'')) (\<lambda>next_input.
     bind (ok_or (checked_add output_start (rc_outputs raw))
             (format_error ''coder output range overflows'')) (\<lambda>next_output.
     bind (validate_coders raws limits next_input next_output dictionary_bytes) (\<lambda>(coders, totals).
     ret (\<lparr>co_method_id = method_id, co_input_start = input_start,
           co_input_count = rc_inputs raw, co_output_start = output_start,
           co_output_count = rc_outputs raw, co_properties = properties,
           co_dictionary_bytes = dictionary\<rparr> # coders, totals)))))))))"

definition validate_folder ::
  "raw_folder \<Rightarrow> u32 option \<Rightarrow> nat \<Rightarrow> limits \<Rightarrow> (control, error, folder_draft) comp" where
  "validate_folder raw folder_crc first_pack_stream limits =
     bind (usize_to_u64 (length (rf_coders raw)) ''coder count is not representable as u64'') (\<lambda>n.
     bind (checkpoint n) (\<lambda>_.
     bind (u64_to_usize (rf_outputs raw)
             ''folder output count is not representable on this platform'') (\<lambda>output_count.
     bind (try_reserve (length (rf_coders raw))) (\<lambda>_.
     bind (validate_coders (rf_coders raw) limits 0 0 0)
       (\<lambda>(coders, input_start, output_start, dictionary_bytes).
     bind (guard (input_start = rf_inputs raw \<and> output_start = rf_outputs raw)
             (format_error ''folder stream-port totals are inconsistent'')) (\<lambda>_.
     bind (validate_folder_graph raw) (\<lambda>graph.
     bind (guard (length (rf_unpack_sizes raw) = output_count)
             (format_error ''folder unpack-size count is inconsistent'')) (\<lambda>_.
     bind (try_reserve (length (rf_unpack_sizes raw))) (\<lambda>_.
     let unpack_sizes = map optional_size (rf_unpack_sizes raw) in
     bind (u64_to_usize (vg_root_output_index graph)
             ''root output index is not representable on this platform'') (\<lambda>root_index.
     bind (ok_or (get_at unpack_sizes root_index)
             (format_error ''root output size is missing'')) (\<lambda>root_size.
     ret \<lparr>fd_coders = coders, fd_bind_pairs = vg_bind_pairs graph,
          fd_packed_input_indices = vg_packed_input_indices graph, fd_unpack_sizes = unpack_sizes,
          fd_root_output_index = vg_root_output_index graph, fd_root_size = root_size,
          fd_topological_coder_order = vg_topological_coder_order graph, fd_crc = folder_crc,
          fd_dictionary_bytes = dictionary_bytes,
          fd_first_pack_stream = first_pack_stream\<rparr>)))))))))))"

end
