(* ===== verification/ValidateStreams.thy ===== *)
theory ValidateStreams
  imports ValidateCoders
begin

text \<open>
  The stream part of \<open>validate.rs\<close>: substreams, packed ranges and stream sections. The shared
  cursors and the growing range list of the source are threaded as values.
\<close>

section \<open>Substreams\<close>

text \<open>The loop over all substreams of a folder but the last: \<open>for _ in 1..count\<close>.\<close>

primrec sizes_loop ::
  "nat \<Rightarrow> nat list option \<Rightarrow> nat \<Rightarrow> nat \<Rightarrow> bool \<Rightarrow>
   ('z control_scheme, error, nat option list \<times> nat \<times> nat \<times> bool) comp" where
  "sizes_loop 0 explicit_sizes size_cursor running all_known = ret ([], size_cursor, running, all_known)"
| "sizes_loop (Suc n) explicit_sizes size_cursor running all_known =
     bind (checkpoint 1) (\<lambda>_.
     bind (case explicit_sizes of
             Some values \<Rightarrow>
               bind (ok_or (get_at values size_cursor)
                       (format_error ''explicit substream-size vector is too short'')) (\<lambda>v.
               bind (ok_or (checked_add size_cursor 1)
                       (format_error ''substream-size index overflows'')) (\<lambda>size_cursor.
               case optional_size v of
                 Some known_size \<Rightarrow>
                   bind (ok_or (checked_add running known_size)
                           (format_error ''substream-size sum overflows'')) (\<lambda>running.
                   ret (Some known_size, size_cursor, running, all_known))
               | None \<Rightarrow> ret (None, size_cursor, running, False)))
           | None \<Rightarrow> ret (None, size_cursor, running, all_known))
       (\<lambda>(size, size_cursor, running, all_known).
     bind (sizes_loop n explicit_sizes size_cursor running all_known) (\<lambda>(sizes, rest).
     ret (size # sizes, rest))))"

text \<open>The sizes of a folder's substreams; the last one is what the folder size leaves.\<close>

definition substream_sizes ::
  "folder_draft \<Rightarrow> nat \<Rightarrow> nat list option \<Rightarrow> nat \<Rightarrow>
   ('z control_scheme, error, nat option list \<times> nat) comp" where
  "substream_sizes draft count explicit_sizes size_cursor =
     (if count = 1 then ret ([fd_root_size draft], size_cursor)
      else if count > 1
      then bind (sizes_loop (count - 1) explicit_sizes size_cursor 0 True)
             (\<lambda>(sizes, size_cursor, running, all_known).
           bind (case (fd_root_size draft, explicit_sizes, all_known) of
                   (Some folder_size, Some _, True) \<Rightarrow>
                     bind (ok_or (checked_sub folder_size running)
                             (format_error ''substream sizes exceed folder size'')) (\<lambda>final_size.
                     ret (Some final_size))
                 | _ \<Rightarrow> ret None) (\<lambda>final_size.
           ret (sizes @ [final_size], size_cursor)))
      else ret ([], size_cursor))"

primrec crcs_loop ::
  "nat option list \<Rightarrow> bool \<Rightarrow> u32 option \<Rightarrow> u32 option list option \<Rightarrow> nat \<Rightarrow>
   ('z control_scheme, error, substream list \<times> nat) comp" where
  "crcs_loop [] inherit_folder_crc folder_crc explicit_crcs crc_cursor = ret ([], crc_cursor)"
| "crcs_loop (stream_size # sizes) inherit_folder_crc folder_crc explicit_crcs crc_cursor =
     bind (checkpoint 1) (\<lambda>_.
     bind (if inherit_folder_crc then ret (folder_crc, crc_cursor)
           else
             bind (case explicit_crcs of
                     Some values \<Rightarrow> ok_or (get_at values crc_cursor)
                       (format_error ''substream CRC vector is too short'')
                   | None \<Rightarrow> ret None) (\<lambda>v.
             bind (if explicit_crcs \<noteq> None
                   then ok_or (checked_add crc_cursor 1)
                          (format_error ''substream CRC index overflows'')
                   else ret crc_cursor) (\<lambda>crc_cursor.
             ret (v, crc_cursor)))) (\<lambda>(crc, crc_cursor).
     bind (crcs_loop sizes inherit_folder_crc folder_crc explicit_crcs crc_cursor)
       (\<lambda>(streams, crc_cursor).
     ret (\<lparr>ss_size = stream_size, ss_crc = crc\<rparr> # streams, crc_cursor))))"

definition build_substreams ::
  "folder_draft \<Rightarrow> nat \<Rightarrow> nat list option \<Rightarrow> nat \<Rightarrow> u32 option list option \<Rightarrow> nat \<Rightarrow>
   ('z control_scheme, error, substream list \<times> nat \<times> nat) comp" where
  "build_substreams draft count explicit_sizes size_cursor explicit_crcs crc_cursor =
     bind (checkpoint count) (\<lambda>_.
     bind (u64_to_usize count
             ''folder substream count is not representable on this platform'') (\<lambda>capacity.
     bind (try_reserve capacity) (\<lambda>_.
     bind (substream_sizes draft count explicit_sizes size_cursor) (\<lambda>(sizes, size_cursor).
     let inherit_folder_crc = (count = 1 \<and> fd_crc draft \<noteq> None) in
     bind (try_reserve capacity) (\<lambda>_.
     bind (crcs_loop sizes inherit_folder_crc (fd_crc draft) explicit_crcs crc_cursor)
       (\<lambda>(streams, crc_cursor).
     ret (streams, size_cursor, crc_cursor)))))))"

section \<open>Packed streams\<close>

primrec pack_loop ::
  "nat list \<Rightarrow> nat \<Rightarrow> u32 option list option \<Rightarrow> header_envelope \<Rightarrow> u8 list \<Rightarrow> nat \<Rightarrow>
   ('z control_scheme, error, pack_stream list \<times> nat) comp" where
  "pack_loop [] index crcs envelope archive_bytes offset = ret ([], offset)"
| "pack_loop (raw_size # sizes) index crcs envelope archive_bytes offset =
     bind (checkpoint 1) (\<lambda>_.
     bind (guard (raw_size \<noteq> UNKNOWN_SIZE)
             (UnsupportedFeature ''unknown-packed-stream-size'')) (\<lambda>_.
     bind (ok_or (checked_add offset raw_size)
             (format_error ''packed-stream range overflows'')) (\<lambda>end_at.
     bind (guard (end_at \<le> he_next_header_offset envelope)
             (format_error ''packed stream overlaps the stored next header'')) (\<lambda>_.
     bind (checked_range archive_bytes offset raw_size ''packed-stream range overflows''
             ''packed-stream range is outside the supplied archive'') (\<lambda>_.
     bind (value_at crcs index ''packed-stream CRC count is inconsistent'') (\<lambda>crc.
     bind (pack_loop sizes (Suc index) crcs envelope archive_bytes end_at) (\<lambda>(streams, end_offset).
     ret (\<lparr>ps_offset = offset, ps_size = Some raw_size, ps_crc = flatten crc\<rparr> # streams, end_offset))))))))"

text \<open>A section that holds any bytes is recorded for the overlap check.\<close>

definition push_range ::
  "(nat \<times> nat) list \<Rightarrow> nat \<Rightarrow> nat \<Rightarrow> ('z control_scheme, error, (nat \<times> nat) list) comp" where
  "push_range ranges section_start offset =
     (if offset > section_start
      then bind (try_reserve 1) (\<lambda>_. ret (ranges @ [(section_start, offset)]))
      else ret ranges)"

definition validate_pack_ranges ::
  "raw_pack_info option \<Rightarrow> header_envelope \<Rightarrow> u8 list \<Rightarrow> (nat \<times> nat) list \<Rightarrow>
   ('z control_scheme, error, (nat \<times> pack_stream list) \<times> (nat \<times> nat) list) comp" where
  "validate_pack_ranges pack envelope archive_bytes ranges =
     (case pack of
        None \<Rightarrow> ret ((0, []), ranges)
      | Some pack \<Rightarrow>
          bind (ok_or (rp_sizes pack)
                  (format_error ''PackInfo is missing packed-stream sizes'')) (\<lambda>sizes.
          bind (u64_to_usize (rp_streams pack)
                  ''packed-stream count is not representable on this platform'') (\<lambda>stream_count.
          bind (checkpoint (rp_streams pack)) (\<lambda>_.
          bind (guard (length sizes = stream_count)
                  (format_error ''packed-stream size count is inconsistent'')) (\<lambda>_.
          bind (guard (case rp_crcs pack of None \<Rightarrow> True | Some crcs \<Rightarrow> length crcs = stream_count)
                  (format_error ''packed-stream CRC count is inconsistent'')) (\<lambda>_.
          bind (ok_or (checked_add (he_signature_offset envelope) FIXED_HEADER_SIZE)
                  (format_error ''signature-header end overflows'')) (\<lambda>fixed_end.
          bind (ok_or (checked_add fixed_end (rp_position pack))
                  (format_error ''packed-data position overflows'')) (\<lambda>section_start.
          bind (try_reserve stream_count) (\<lambda>_.
          bind (pack_loop sizes 0 (rp_crcs pack) envelope archive_bytes section_start)
            (\<lambda>(streams, offset).
          bind (push_range ranges section_start offset) (\<lambda>ranges.
          ret ((rp_position pack, streams), ranges))))))))))))"

section \<open>Stream sections\<close>

primrec drafts_loop ::
  "raw_folder list \<Rightarrow> nat \<Rightarrow> u32 option list option \<Rightarrow> limits \<Rightarrow> nat \<Rightarrow>
   (control, error, folder_draft list \<times> nat) comp" where
  "drafts_loop [] folder_index crcs limits assigned = ret ([], assigned)"
| "drafts_loop (raw # raws) folder_index crcs limits assigned =
     bind (value_at crcs folder_index ''folder CRC count is inconsistent'') (\<lambda>crc.
     bind (validate_folder raw (flatten crc) assigned limits) (\<lambda>draft.
     bind (ok_or (checked_add assigned (rf_packed_streams raw))
             (format_error ''assigned packed-stream count overflows'')) (\<lambda>assigned.
     bind (drafts_loop raws (Suc folder_index) crcs limits assigned) (\<lambda>(drafts, assigned).
     ret (draft # drafts, assigned)))))"

definition folder_of_draft :: "folder_draft \<Rightarrow> substream list \<Rightarrow> folder" where
  "folder_of_draft draft substreams = \<lparr>fo_coders = fd_coders draft,
     fo_bind_pairs = fd_bind_pairs draft,
     fo_packed_input_indices = fd_packed_input_indices draft,
     fo_unpack_sizes = fd_unpack_sizes draft, fo_root_output_index = fd_root_output_index draft,
     fo_topological_coder_order = fd_topological_coder_order draft, fo_crc = fd_crc draft,
     fo_substreams = substreams, fo_dictionary_bytes = fd_dictionary_bytes draft,
     fo_first_pack_stream = fd_first_pack_stream draft\<rparr>"

primrec folders_loop ::
  "folder_draft list \<Rightarrow> nat \<Rightarrow> nat list \<Rightarrow> nat list option \<Rightarrow> u32 option list option \<Rightarrow> limits \<Rightarrow>
   nat \<Rightarrow> nat \<Rightarrow> nat \<Rightarrow> ('z control_scheme, error, folder list \<times> nat \<times> nat \<times> nat) comp" where
  "folders_loop [] index counts explicit_sizes explicit_crcs limits running size_cursor crc_cursor =
     ret ([], running, size_cursor, crc_cursor)"
| "folders_loop (draft # drafts) index counts explicit_sizes explicit_crcs limits running size_cursor crc_cursor =
     bind (if counts = [] then ret 1
           else ok_or (get_at counts index)
                  (format_error ''substream count vector is too short'')) (\<lambda>count.
     bind (ok_or (checked_add running count)
             (format_error ''total substream count overflows'')) (\<lambda>running.
     bind (check_limit running (max_substreams limits) Substreams) (\<lambda>_.
     bind (build_substreams draft count explicit_sizes size_cursor explicit_crcs crc_cursor)
       (\<lambda>(substreams, size_cursor, crc_cursor).
     bind (folders_loop drafts (Suc index) counts explicit_sizes explicit_crcs limits running
             size_cursor crc_cursor) (\<lambda>(folders, rest).
     ret (folder_of_draft draft substreams # folders, rest))))))"

definition validate_streams ::
  "raw_streams_info \<Rightarrow> header_envelope \<Rightarrow> u8 list \<Rightarrow> limits \<Rightarrow> (nat \<times> nat) list \<Rightarrow>
   (control, error, streams_info \<times> (nat \<times> nat) list) comp" where
  "validate_streams raw envelope archive_bytes limits ranges =
     bind (guard ((ri_pack raw \<noteq> None) = (ri_unpack raw \<noteq> None))
             (format_error ''PackInfo and UnpackInfo must appear together'')) (\<lambda>_.
     if ri_pack raw = None
     then bind (guard (ri_substreams raw = None)
                  (format_error ''SubStreamsInfo has no streams'')) (\<lambda>_.
          ret (\<lparr>si_pack_position = 0, si_pack_streams = [], si_folders = [],
                si_substream_count = 0\<rparr>, ranges))
     else
     bind (validate_pack_ranges (ri_pack raw) envelope archive_bytes ranges)
       (\<lambda>((pack_position, pack_streams), ranges).
     bind (ok_or (ri_unpack raw) (format_error ''StreamsInfo is missing UnpackInfo'')) (\<lambda>unpack.
     bind (guard (case ru_crcs unpack of None \<Rightarrow> True
                  | Some crcs \<Rightarrow> length crcs = length (ru_folders unpack))
             (format_error ''folder CRC count is inconsistent'')) (\<lambda>_.
     bind (usize_to_u64 (length pack_streams)
             ''packed-stream count is not representable as u64'') (\<lambda>pack_count.
     bind (usize_to_u64 (length (ru_folders unpack))
             ''folder count is not representable as u64'') (\<lambda>n.
     bind (checkpoint n) (\<lambda>_.
     bind (try_reserve (length (ru_folders unpack))) (\<lambda>_.
     bind (drafts_loop (ru_folders unpack) 0 (ru_crcs unpack) limits 0)
       (\<lambda>(drafts, assigned_pack_streams).
     bind (guard (assigned_pack_streams = pack_count)
             (format_error ''folder packed-stream total does not match PackInfo'')) (\<lambda>_.
     let counts = (case ri_substreams raw of Some b \<Rightarrow> rs_counts b | None \<Rightarrow> []) in
     bind (guard (counts = [] \<or> length counts = length drafts)
             (format_error ''substream folder-count vector is inconsistent'')) (\<lambda>_.
     let explicit_sizes = (case ri_substreams raw of Some b \<Rightarrow> rs_explicit_sizes b | None \<Rightarrow> None);
         explicit_crcs = (case ri_substreams raw of Some b \<Rightarrow> rs_crcs b | None \<Rightarrow> None) in
     bind (try_reserve (length drafts)) (\<lambda>_.
     bind (folders_loop drafts 0 counts explicit_sizes explicit_crcs limits 0 0 0)
       (\<lambda>(folders, total_substreams, size_cursor, crc_cursor).
     bind (guard (case explicit_sizes of None \<Rightarrow> True | Some sizes \<Rightarrow> size_cursor = length sizes)
             (format_error ''substream-size vector has unused values'')) (\<lambda>_.
     bind (guard (case explicit_crcs of None \<Rightarrow> True | Some crcs \<Rightarrow> crc_cursor = length crcs)
             (format_error ''substream CRC vector has unused values'')) (\<lambda>_.
     ret (\<lparr>si_pack_position = pack_position, si_pack_streams = pack_streams,
           si_folders = folders, si_substream_count = total_substreams\<rparr>, ranges))))))))))))))))"

text \<open>
  The overlap check walks the ranges by start. The source sorts unstably: ranges with equal
  starts may come in any order, which makes no difference to the verdict since all of them are
  non-empty (see \<open>sorted_check_exact\<close>); the model takes the stable order.
\<close>

primrec sorted_check :: "(nat \<times> nat) list \<Rightarrow> nat option \<Rightarrow> ('s, error, unit) comp" where
  "sorted_check [] previous_end = ret ()"
| "sorted_check (r # ranges) previous_end =
     bind (guard (case previous_end of None \<Rightarrow> True | Some v \<Rightarrow> v \<le> fst r)
             (format_error ''packed-stream ranges overlap'')) (\<lambda>_.
     sorted_check ranges (Some (snd r)))"

definition check_non_overlapping_ranges :: "(nat \<times> nat) list \<Rightarrow> ('s, error, unit) comp" where
  "check_non_overlapping_ranges ranges = sorted_check (sort_key fst ranges) None"

end
