(* ===== verification/ValidateFiles.thy ===== *)
theory ValidateFiles
  imports ValidateStreams
begin

unbundle bit_operations_syntax

text \<open>
  The file part of \<open>validate.rs\<close> and its entry points: the per-file property vectors, the names,
  the mapping of files to substreams, and the plain, encoded and external-folder headers.
\<close>

datatype 'a property_values = Inline "'a option list" | External nat "bool list"

section \<open>Reads and bit vectors\<close>

definition v_read_u8 :: "('z reader_scheme, error, u8) comp" where
  "v_read_u8 = bind (checkpoint 1) (\<lambda>_. read_u8)"

definition v_read_u32 :: "('z reader_scheme, error, u32) comp" where
  "v_read_u32 = bind (checkpoint 4) (\<lambda>_. read_u32_le)"

definition v_read_u64 :: "('z reader_scheme, error, nat) comp" where
  "v_read_u64 = bind (checkpoint 8) (\<lambda>_. read_u64_le)"

definition v_read_uint :: "('z reader_scheme, error, nat) comp" where
  "v_read_uint = bind (checkpoint 9) (\<lambda>_. read_7z_uint)"

primrec v_bits_loop :: "nat \<Rightarrow> u8 \<Rightarrow> u8 \<Rightarrow> ('z reader_scheme, error, bool list) comp" where
  "v_bits_loop 0 byte bit_mask = ret []"
| "v_bits_loop (Suc n) byte bit_mask =
     bind (if bit_mask = 0 then bind v_read_u8 (\<lambda>b. ret (b, 0x80)) else ret (byte, bit_mask))
       (\<lambda>(byte, bit_mask).
     bind (v_bits_loop n byte (drop_bit 1 bit_mask)) (\<lambda>values.
     ret ((byte AND bit_mask \<noteq> 0) # values)))"

definition v_parse_bits :: "nat \<Rightarrow> ('z reader_scheme, error, bool list) comp" where
  "v_parse_bits count =
     bind (checkpoint count) (\<lambda>_.
     bind (push_repeated count False
             ''bit-vector count is not representable on this platform'') (\<lambda>_.
     v_bits_loop count 0 0))"

definition parse_optional_bits :: "nat \<Rightarrow> ('z reader_scheme, error, bool list) comp" where
  "parse_optional_bits count =
     bind v_read_u8 (\<lambda>all_defined.
     if all_defined = 0 then v_parse_bits count
     else push_repeated count True ''definition count is not representable on this platform'')"

definition parse_defined_values ::
  "u8 list \<Rightarrow> nat \<Rightarrow> (reader, error, 'a) comp \<Rightarrow> (control, error, 'a property_values) comp" where
  "parse_defined_values data count read_value =
     with_reader data
      (bind (parse_optional_bits count) (\<lambda>defined.
       bind v_read_u8 (\<lambda>external.
       if external \<noteq> 0
       then bind v_read_uint (\<lambda>data_index.
            bind (finish ''external property was not consumed exactly'') (\<lambda>_.
            ret (External data_index defined)))
       else
         bind (try_reserve (length defined)) (\<lambda>_.
         bind (map_for (\<lambda>is_defined.
                 bind (checkpoint 1) (\<lambda>_.
                 if is_defined then bind read_value (\<lambda>v. ret (Some v)) else ret None)) defined)
           (\<lambda>values.
         bind (finish ''inline property was not consumed exactly'') (\<lambda>_.
         ret (Inline values)))))))"

definition parse_plain_bits :: "raw_property \<Rightarrow> nat \<Rightarrow> (control, error, bool list) comp" where
  "parse_plain_bits property count =
     with_reader (prop_data property)
      (bind (v_parse_bits count) (\<lambda>bits.
       bind (finish ''bit-vector property was not consumed exactly'') (\<lambda>_. ret bits)))"

section \<open>Substream mappings\<close>

primrec substream_mappings ::
  "nat \<Rightarrow> nat \<Rightarrow> substream list \<Rightarrow> ('z control_scheme, error, file_stream list) comp" where
  "substream_mappings folder_index substream_index [] = ret []"
| "substream_mappings folder_index substream_index (stream # streams) =
     bind (checkpoint 1) (\<lambda>_.
     bind (usize_to_u64 substream_index ''substream index is not representable as u64'') (\<lambda>index.
     bind (substream_mappings folder_index (Suc substream_index) streams) (\<lambda>rest.
     ret (\<lparr>fs_folder_index = folder_index, fs_substream_index = index,
           fs_size = ss_size stream, fs_crc = ss_crc stream\<rparr> # rest))))"

primrec folder_mappings ::
  "nat \<Rightarrow> folder list \<Rightarrow> ('z control_scheme, error, file_stream list) comp" where
  "folder_mappings folder_index [] = ret []"
| "folder_mappings folder_index (folder # folders) =
     bind (usize_to_u64 folder_index ''folder index is not representable as u64'') (\<lambda>index.
     bind (substream_mappings index 0 (fo_substreams folder)) (\<lambda>here.
     bind (folder_mappings (Suc folder_index) folders) (\<lambda>rest.
     ret (here @ rest))))"

definition collect_stream_mappings ::
  "streams_info option \<Rightarrow> ('z control_scheme, error, file_stream list) comp" where
  "collect_stream_mappings streams =
     (let count = (case streams of None \<Rightarrow> 0 | Some info \<Rightarrow> si_substream_count info) in
     bind (checkpoint count) (\<lambda>_.
     bind (u64_to_usize count
             ''member-stream count is not representable on this platform'') (\<lambda>capacity.
     bind (try_reserve capacity) (\<lambda>_.
     bind (case streams of None \<Rightarrow> ret [] | Some info \<Rightarrow> folder_mappings 0 (si_folders info)) (\<lambda>mappings.
     bind (guard (length mappings = capacity)
             (format_error ''member-stream count is inconsistent'')) (\<lambda>_.
     ret mappings))))))"

section \<open>Names\<close>

text \<open>
  Two passes over the UTF-16 units: the first checks the limits and that the property holds exactly
  \<open>count\<close> terminated names, the second allocates them. Both loops end because every round reads
  two bytes of the slice.
\<close>

definition read_unit :: "('z reader_scheme, error, u16) comp" where
  "read_unit =
     bind (read_bytes 2) (\<lambda>pair.
     bind (checkpoint 2) (\<lambda>_.
     if length pair = 2 then ret (of_nat (le_bytes pair))
     else fail (format_error ''UTF-16 name code unit is truncated'')))"

lemma read_unit_step:
  "read_unit s = (Inr x, t) \<Longrightarrow>
     rbytes t = rbytes s \<and> rpos t = rpos s + 2 \<and> rpos t \<le> length (rbytes s)"
  by (auto simp: read_unit_def success split: if_splits dest!: checkpoint_reader)

definition name_end :: "nat \<Rightarrow> nat \<Rightarrow> nat \<Rightarrow> limits \<Rightarrow> ('s, error, nat \<times> nat) comp" where
  "name_end names_seen current_bytes total_bytes limits =
     bind (check_limit current_bytes (max_name_bytes_per_entry limits) NameBytesPerEntry) (\<lambda>_.
     bind (ok_or (checked_add total_bytes current_bytes)
             (format_error ''total name bytes overflow'')) (\<lambda>total_bytes.
     bind (check_limit total_bytes (max_total_name_bytes limits) TotalNameBytes) (\<lambda>_.
     bind (ok_or (checked_add names_seen 1) (format_error ''name count overflows'')) (\<lambda>names_seen.
     ret (names_seen, total_bytes)))))"

definition name_unit :: "nat \<Rightarrow> limits \<Rightarrow> ('s, error, nat) comp" where
  "name_unit current_bytes limits =
     bind (ok_or (checked_add current_bytes 2)
             (format_error ''name byte count overflows'')) (\<lambda>current_bytes.
     bind (check_limit current_bytes (max_name_bytes_per_entry limits) NameBytesPerEntry) (\<lambda>_.
     ret current_bytes))"

lemma name_end_state: "name_end a b c lim s = (Inr x, t) \<Longrightarrow> t = s"
  by (auto simp: name_end_def success)

lemma name_unit_state: "name_unit a lim s = (Inr x, t) \<Longrightarrow> t = s"
  by (auto simp: name_unit_def success)

function scan_names ::
  "nat \<Rightarrow> limits \<Rightarrow> nat \<Rightarrow> nat \<Rightarrow> nat \<Rightarrow> ('z reader_scheme, error, unit) comp" where
  "scan_names count limits names_seen current_bytes total_bytes s =
     branch (names_seen < count)
      (bind read_unit (\<lambda>code_unit.
       branch (code_unit = 0)
        (bind (name_end names_seen current_bytes total_bytes limits) (\<lambda>r.
         scan_names count limits (fst r) 0 (snd r)))
        (bind (name_unit current_bytes limits) (\<lambda>current_bytes.
         scan_names count limits names_seen current_bytes total_bytes))))
      (ret ()) s"
  by pat_completeness auto
termination
  by (relation "measure (\<lambda>(count, limits, names_seen, current_bytes, total_bytes, s).
        length (rbytes s) - rpos s)")
    (auto dest!: read_unit_step name_end_state name_unit_state)

declare scan_names.simps [simp del]

text \<open>The inner loop of the second pass, up to the terminator.\<close>

function name_loop :: "u16 list \<Rightarrow> ('z reader_scheme, error, u16 list) comp" where
  "name_loop name s =
     bind read_unit (\<lambda>code_unit.
     branch (code_unit = 0) (ret name)
      (bind (try_reserve 1) (\<lambda>_. name_loop (name @ [code_unit])))) s"
  by pat_completeness auto
termination
  by (relation "measure (\<lambda>(name, s). length (rbytes s) - rpos s)")
    (auto simp: try_reserve_def dest!: read_unit_step reserve_with_reader)

declare name_loop.simps [simp del]

definition parse_names ::
  "u8 list \<Rightarrow> nat \<Rightarrow> limits \<Rightarrow> (control, error, u16 list property_values) comp" where
  "parse_names data count limits =
     bind (with_reader data
       (bind v_read_u8 (\<lambda>external.
        if external \<noteq> 0
        then bind v_read_uint (\<lambda>data_index.
             bind (finish ''external Name property was not consumed exactly'') (\<lambda>_.
             bind (push_repeated count True ''file count is not representable on this platform'') (\<lambda>defined.
             ret (Some (External data_index defined)))))
        else bind (scan_names count limits 0 0 0) (\<lambda>_.
             bind (finish ''Name property was not consumed exactly'') (\<lambda>_. ret None)))))
       (\<lambda>scanned.
     case scanned of
       Some external \<Rightarrow> ret external
     | None \<Rightarrow>
         with_reader data
          (bind v_read_u8 (\<lambda>external.
           bind (guard (external = 0)
                   (format_error ''Name property changed during validation'')) (\<lambda>_.
           bind (u64_to_usize count ''name count is not representable on this platform'') (\<lambda>capacity.
           bind (try_reserve capacity) (\<lambda>_.
           bind (repeat_for count (bind (name_loop []) (\<lambda>name. ret (Some name)))) (\<lambda>names.
           bind (finish ''Name property was not consumed exactly'') (\<lambda>_.
           ret (Inline names)))))))))"

definition apply_external ::
  "u8 \<Rightarrow> 'a property_values \<Rightarrow> nat \<Rightarrow> external_property list \<Rightarrow>
   ('z control_scheme, error, 'a option list option \<times> external_property list) comp" where
  "apply_external property_id values additional_count external =
     (case values of
        Inline values \<Rightarrow> ret (Some values, external)
      | External data_index defined \<Rightarrow>
          bind (validate_data_index data_index additional_count) (\<lambda>_.
          bind (try_reserve 1) (\<lambda>_.
          ret (None, external @ [\<lparr>ep_property_id = property_id, ep_data_index = data_index,
                                 ep_defined_entries = defined\<rparr>]))))"

section \<open>File entries\<close>

text \<open>The recognised properties, each at most once.\<close>

record file_slots =
  fl_empty_stream :: "raw_property option"
  fl_empty_file :: "raw_property option"
  fl_anti :: "raw_property option"
  fl_name :: "raw_property option"
  fl_creation :: "raw_property option"
  fl_access :: "raw_property option"
  fl_modification :: "raw_property option"
  fl_attributes :: "raw_property option"
  fl_start_position :: "raw_property option"
  fl_unknown :: "stored_property list"

definition no_slots :: file_slots where
  "no_slots = \<lparr>fl_empty_stream = None, fl_empty_file = None, fl_anti = None, fl_name = None,
     fl_creation = None, fl_access = None, fl_modification = None, fl_attributes = None,
     fl_start_position = None, fl_unknown = []\<rparr>"

definition known_property_slot ::
  "raw_property option \<Rightarrow> raw_property \<Rightarrow> ('s, error, raw_property option) comp" where
  "known_property_slot slot property =
     (if slot \<noteq> None then fail (format_error ''FilesInfo property is duplicated'')
      else ret (Some property))"

definition place_property ::
  "raw_property \<Rightarrow> file_slots \<Rightarrow> ('z control_scheme, error, file_slots) comp" where
  "place_property p f =
     (if prop_id p = ID_EMPTY_STREAM
      then bind (known_property_slot (fl_empty_stream f) p) (\<lambda>v. ret (f\<lparr>fl_empty_stream := v\<rparr>))
      else if prop_id p = ID_EMPTY_FILE
      then bind (known_property_slot (fl_empty_file f) p) (\<lambda>v. ret (f\<lparr>fl_empty_file := v\<rparr>))
      else if prop_id p = ID_ANTI
      then bind (known_property_slot (fl_anti f) p) (\<lambda>v. ret (f\<lparr>fl_anti := v\<rparr>))
      else if prop_id p = ID_NAME
      then bind (known_property_slot (fl_name f) p) (\<lambda>v. ret (f\<lparr>fl_name := v\<rparr>))
      else if prop_id p = ID_CTIME
      then bind (known_property_slot (fl_creation f) p) (\<lambda>v. ret (f\<lparr>fl_creation := v\<rparr>))
      else if prop_id p = ID_ATIME
      then bind (known_property_slot (fl_access f) p) (\<lambda>v. ret (f\<lparr>fl_access := v\<rparr>))
      else if prop_id p = ID_MTIME
      then bind (known_property_slot (fl_modification f) p) (\<lambda>v. ret (f\<lparr>fl_modification := v\<rparr>))
      else if prop_id p = ID_WIN_ATTRIBUTES
      then bind (known_property_slot (fl_attributes f) p) (\<lambda>v. ret (f\<lparr>fl_attributes := v\<rparr>))
      else if prop_id p = ID_START_POS
      then bind (known_property_slot (fl_start_position f) p) (\<lambda>v. ret (f\<lparr>fl_start_position := v\<rparr>))
      else if prop_id p = ID_DUMMY
      then bind (guard (\<forall>b\<in>set (prop_data p). b = 0)
                   (format_error ''Dummy property contains a non-zero byte'')) (\<lambda>_. ret f)
      else bind (try_reserve 1) (\<lambda>_.
           bind (copy_bytes (prop_data p)) (\<lambda>data.
           ret (f\<lparr>fl_unknown := fl_unknown f @ [\<lparr>sp_id = prop_id p, sp_data = data\<rparr>]\<rparr>))))"

text \<open>A bit vector that defaults to all false.\<close>

definition bits_or_false ::
  "raw_property option \<Rightarrow> nat \<Rightarrow> string \<Rightarrow> (control, error, bool list) comp" where
  "bits_or_false property count detail =
     (case property of
        Some property \<Rightarrow> parse_plain_bits property count
      | None \<Rightarrow> push_repeated count False detail)"

text \<open>An optional value vector, inline or recorded as external.\<close>

definition optional_values ::
  "raw_property option \<Rightarrow> (u8 list \<Rightarrow> (control, error, 'a property_values) comp) \<Rightarrow> u8 \<Rightarrow> nat \<Rightarrow>
   external_property list \<Rightarrow> (control, error, 'a option list option \<times> external_property list) comp" where
  "optional_values property parse property_id additional_count external =
     (case property of
        Some property \<Rightarrow>
          bind (parse (prop_data property)) (\<lambda>values.
          apply_external property_id values additional_count external)
      | None \<Rightarrow> ret (None, external))"

record file_vectors =
  fv_empty_streams :: "bool list"
  fv_empty_file_bits :: "bool list"
  fv_anti_bits :: "bool list"
  fv_names :: "u16 list option list option"
  fv_creation :: "nat option list option"
  fv_access :: "nat option list option"
  fv_modification :: "nat option list option"
  fv_attributes :: "u32 option list option"
  fv_start_positions :: "nat option list option"
  fv_mappings :: "file_stream list"

text \<open>One file: its flags from the empty-stream vectors, its stream from the next mapping.\<close>

definition empty_flags ::
  "file_vectors \<Rightarrow> bool \<Rightarrow> nat \<Rightarrow> ('s, error, (bool \<times> bool) \<times> nat) comp" where
  "empty_flags v is_empty_stream empty_cursor =
     (if is_empty_stream
      then bind (ok_or (get_at (fv_empty_file_bits v) empty_cursor)
                   (format_error ''EmptyFile vector is too short'')) (\<lambda>empty_value.
           bind (ok_or (get_at (fv_anti_bits v) empty_cursor)
                   (format_error ''Anti vector is too short'')) (\<lambda>anti_value.
           bind (ok_or (checked_add empty_cursor 1)
                   (format_error ''empty-file index overflows'')) (\<lambda>empty_cursor.
           ret ((empty_value, anti_value), empty_cursor))))
      else ret ((False, False), empty_cursor))"

definition next_stream ::
  "file_vectors \<Rightarrow> bool \<Rightarrow> nat \<Rightarrow> ('s, error, file_stream option \<times> nat) comp" where
  "next_stream v is_empty_stream stream_cursor =
     (if is_empty_stream then ret (None, stream_cursor)
      else bind (ok_or (get_at (fv_mappings v) stream_cursor)
                   (format_error ''member-stream mapping is too short'')) (\<lambda>stream.
           bind (ok_or (checked_add stream_cursor 1)
                   (format_error ''member-stream index overflows'')) (\<lambda>stream_cursor.
           ret (Some stream, stream_cursor))))"

definition file_name :: "file_vectors \<Rightarrow> nat \<Rightarrow> ('s, error, u16 list option) comp" where
  "file_name v file_index =
     (case fv_names v of
        Some values \<Rightarrow> ok_or (get_at values file_index) (format_error ''Name vector is too short'')
      | None \<Rightarrow> ret None)"

primrec files_loop ::
  "nat \<Rightarrow> file_vectors \<Rightarrow> nat \<Rightarrow> nat \<Rightarrow> nat \<Rightarrow>
   ('z control_scheme, error, file_entry list \<times> nat \<times> nat) comp" where
  "files_loop 0 v file_index empty_cursor stream_cursor = ret ([], empty_cursor, stream_cursor)"
| "files_loop (Suc n) v file_index empty_cursor stream_cursor =
     bind (checkpoint 1) (\<lambda>_.
     bind (ok_or (get_at (fv_empty_streams v) file_index)
             (format_error ''EmptyStream vector is too short'')) (\<lambda>is_empty_stream.
     bind (empty_flags v is_empty_stream empty_cursor) (\<lambda>((is_empty_file, is_anti), empty_cursor).
     bind (next_stream v is_empty_stream stream_cursor) (\<lambda>(stream, stream_cursor).
     bind (file_name v file_index) (\<lambda>raw_name.
     bind (value_at (fv_creation v) file_index ''creation-time vector is too short'') (\<lambda>creation.
     bind (value_at (fv_access v) file_index ''access-time vector is too short'') (\<lambda>access.
     bind (value_at (fv_modification v) file_index
             ''modification-time vector is too short'') (\<lambda>modification.
     bind (value_at (fv_attributes v) file_index ''attribute vector is too short'') (\<lambda>attributes.
     bind (value_at (fv_start_positions v) file_index ''StartPos vector is too short'') (\<lambda>start.
     bind (files_loop n v (Suc file_index) empty_cursor stream_cursor) (\<lambda>(files, cursors).
     ret (\<lparr>fe_raw_name = raw_name, fe_has_stream = \<not> is_empty_stream,
           fe_empty_file = is_empty_file, fe_anti_item = is_anti,
           fe_creation_time = flatten creation, fe_access_time = flatten access,
           fe_modification_time = flatten modification,
           fe_windows_attributes = flatten attributes, fe_start_position = flatten start,
           fe_stream = stream\<rparr> # files, cursors))))))))))))"

definition file_vectors_of ::
  "raw_files_info \<Rightarrow> file_slots \<Rightarrow> streams_info option \<Rightarrow> streams_info option \<Rightarrow> limits \<Rightarrow>
   (control, error, file_vectors \<times> external_property list) comp" where
  "file_vectors_of raw slots main_streams additional_streams limits =
     bind (bits_or_false (fl_empty_stream slots) (rfi_count raw)
             ''file count is not representable on this platform'') (\<lambda>empty_streams.
     bind (usize_to_u64 (length (filter (\<lambda>b. b) empty_streams))
             ''empty-stream count is not representable as u64'') (\<lambda>empty_count.
     bind (bits_or_false (fl_empty_file slots) empty_count
             ''empty-file count is not representable on this platform'') (\<lambda>empty_file_bits.
     bind (bits_or_false (fl_anti slots) empty_count
             ''anti-item count is not representable on this platform'') (\<lambda>anti_bits.
     bind (case additional_streams of
             Some streams \<Rightarrow> usize_to_u64 (length (si_folders streams))
               ''additional-stream folder count is not representable as u64''
           | None \<Rightarrow> ret 0) (\<lambda>additional_count.
     bind (optional_values (fl_name slots) (\<lambda>data. parse_names data (rfi_count raw) limits)
             ID_NAME additional_count []) (\<lambda>(names, external).
     bind (optional_values (fl_creation slots)
             (\<lambda>data. parse_defined_values data (rfi_count raw) v_read_u64)
             ID_CTIME additional_count external) (\<lambda>(creation_times, external).
     bind (optional_values (fl_access slots)
             (\<lambda>data. parse_defined_values data (rfi_count raw) v_read_u64)
             ID_ATIME additional_count external) (\<lambda>(access_times, external).
     bind (optional_values (fl_modification slots)
             (\<lambda>data. parse_defined_values data (rfi_count raw) v_read_u64)
             ID_MTIME additional_count external) (\<lambda>(modification_times, external).
     bind (optional_values (fl_attributes slots)
             (\<lambda>data. parse_defined_values data (rfi_count raw) v_read_u32)
             ID_WIN_ATTRIBUTES additional_count external) (\<lambda>(attribute_values, external).
     bind (optional_values (fl_start_position slots)
             (\<lambda>data. parse_defined_values data (rfi_count raw) v_read_u64)
             ID_START_POS additional_count external) (\<lambda>(start_positions, external).
     bind (collect_stream_mappings main_streams) (\<lambda>mappings.
     ret (\<lparr>fv_empty_streams = empty_streams, fv_empty_file_bits = empty_file_bits,
           fv_anti_bits = anti_bits, fv_names = names, fv_creation = creation_times,
           fv_access = access_times, fv_modification = modification_times,
           fv_attributes = attribute_values, fv_start_positions = start_positions,
           fv_mappings = mappings\<rparr>, external)))))))))))))"

definition validate_files ::
  "raw_files_info \<Rightarrow> streams_info option \<Rightarrow> streams_info option \<Rightarrow> limits \<Rightarrow>
   (control, error, files_info) comp" where
  "validate_files raw main_streams additional_streams limits =
     bind (checkpoint (rfi_count raw)) (\<lambda>_.
     bind (fold_for place_property (rfi_properties raw) no_slots) (\<lambda>slots.
     bind (file_vectors_of raw slots main_streams additional_streams limits) (\<lambda>(v, external).
     let expected_mappings = length (filter (\<lambda>empty. \<not> empty) (fv_empty_streams v)) in
     bind (guard (length (fv_mappings v) = expected_mappings)
             (format_error ''file stream count does not match main-stream substreams'')) (\<lambda>_.
     bind (u64_to_usize (rfi_count raw)
             ''file count is not representable on this platform'') (\<lambda>file_capacity.
     bind (try_reserve file_capacity) (\<lambda>_.
     bind (files_loop file_capacity v 0 0 0) (\<lambda>(files, empty_cursor, stream_cursor).
     bind (guard (empty_cursor = length (fv_empty_file_bits v)
                  \<and> empty_cursor = length (fv_anti_bits v)
                  \<and> stream_cursor = length (fv_mappings v))
             (format_error ''file property vectors have unused values'')) (\<lambda>_.
     ret \<lparr>fi_entries = files, fi_external_properties = external,
          fi_unknown_properties = fl_unknown slots\<rparr>))))))))"

section \<open>Headers\<close>

definition optional_streams ::
  "raw_streams_info option \<Rightarrow> header_envelope \<Rightarrow> u8 list \<Rightarrow> limits \<Rightarrow> (nat \<times> nat) list \<Rightarrow>
   (control, error, streams_info option \<times> (nat \<times> nat) list) comp" where
  "optional_streams raw envelope archive_bytes limits ranges =
     (case raw of
        Some streams \<Rightarrow>
          bind (validate_streams streams envelope archive_bytes limits ranges) (\<lambda>(info, ranges).
          ret (Some info, ranges))
      | None \<Rightarrow> ret (None, ranges))"

definition validate_plain_header ::
  "raw_header \<Rightarrow> header_envelope \<Rightarrow> u8 list \<Rightarrow> limits \<Rightarrow> (control, error, archive_header) comp" where
  "validate_plain_header raw envelope archive_bytes limits =
     bind (optional_streams (rh_additional_streams raw) envelope archive_bytes limits [])
       (\<lambda>(additional_streams, ranges).
     bind (optional_streams (rh_main_streams raw) envelope archive_bytes limits ranges)
       (\<lambda>(main_streams, ranges).
     bind (check_non_overlapping_ranges ranges) (\<lambda>_.
     bind (case rh_files raw of
             Some files \<Rightarrow>
               bind (validate_files files main_streams additional_streams limits) (\<lambda>v. ret (Some v))
           | None \<Rightarrow> ret None) (\<lambda>files.
     bind (copy_properties (rh_archive_properties raw)) (\<lambda>archive_properties.
     ret \<lparr>ah_archive_properties = archive_properties, ah_additional_streams = additional_streams,
          ah_main_streams = main_streams, ah_files = files\<rparr>)))))"

definition validate_next_header ::
  "raw_next_header \<Rightarrow> header_envelope \<Rightarrow> u8 list \<Rightarrow> limits \<Rightarrow>
   (control, error, parsed_next_header) comp" where
  "validate_next_header raw envelope archive_bytes limits =
     (case raw of
        RawHeader header \<Rightarrow>
          bind (validate_plain_header header envelope archive_bytes limits) (\<lambda>v. ret (ParsedHeader v))
      | RawExternalFolders pending \<Rightarrow>
          bind (validate_streams (re_additional_streams pending) envelope archive_bytes limits [])
            (\<lambda>(additional_streams, ranges).
          bind (guard (re_main_pack pending \<noteq> None)
                  (format_error ''PackInfo and external UnpackInfo must appear together'')) (\<lambda>_.
          bind (validate_pack_ranges (re_main_pack pending) envelope archive_bytes ranges)
            (\<lambda>(_, ranges).
          bind (check_non_overlapping_ranges ranges) (\<lambda>_.
          bind (usize_to_u64 (length (si_folders additional_streams))
                  ''additional-stream folder count is not representable as u64'') (\<lambda>count.
          bind (validate_data_index (re_data_index pending) count) (\<lambda>_.
          bind (copy_bytes (re_header_bytes pending)) (\<lambda>header_bytes.
          ret (ParsedPendingExternalFolders
            \<lparr>pf_additional_streams = additional_streams, pf_data_index = re_data_index pending,
             pf_header_bytes = header_bytes\<rparr>))))))))
      | RawEncoded streams \<Rightarrow>
          bind (validate_streams streams envelope archive_bytes limits []) (\<lambda>(streams, ranges).
          bind (check_non_overlapping_ranges ranges) (\<lambda>_.
          ret (ParsedEncodedHeader streams))))"

end
