(* ===== verification/ValidateFacts.thy ===== *)
theory ValidateFacts
  imports ValidateFiles
begin

text \<open>
  Facts about the validator shared by the properties: every operation only spends budget, and
  what a successful run of the single steps returns.
\<close>

section \<open>Frame\<close>

lemma metered_case_prod4 [frame]:
  "(\<And>a b c d. metered.keeps (f a b c d)) \<Longrightarrow> metered.keeps (case z of (a, b, c, d) \<Rightarrow> f a b c d)"
  by (cases z) simp

lemma metered_case_prod_arg [frame]:
  "(\<And>a b. metered.keeps (f a b c)) \<Longrightarrow> metered.keeps ((case z of (a, b) \<Rightarrow> f a b) c)"
  by (cases z) simp

lemma metered_helpers [frame]:
  "metered.keeps (push_repeated n v d)" "metered.keeps (value_at vs i d)"
  "metered.keeps (copy_properties ps)" "metered.keeps (validate_data_index i n)"
  unfolding push_repeated_def value_at_def copy_properties_def validate_data_index_def
  by (intro metered.keeps_rules frame)+

lemma metered_coder_dictionary [frame]: "metered.keeps (coder_dictionary m ps)"
  unfolding coder_dictionary_def validate_lzma_properties_def validate_lzma2_properties_def
    parse_ppmd_properties_def little_endian_u32_def Let_def
  by (intro metered.keeps_rules frame)

lemma metered_validate_coder_properties [frame]: "metered.keeps (validate_coder_properties m ps lim)"
  unfolding validate_coder_properties_def validate_aes_properties_def Let_def
  by (intro metered.keeps_rules reads.keeps_rules frame)

lemma metered_validate_coders [frame]: "metered.keeps (validate_coders cs lim a b d)"
  by (induction cs arbitrary: a b d) (auto intro!: metered.keeps_rules frame)

lemma metered_validate_folder [frame]: "metered.keeps (validate_folder raw crc k lim)"
  unfolding validate_folder_def Let_def by (intro metered.keeps_rules frame)

lemma metered_sizes_loop [frame]: "metered.keeps (sizes_loop n es c t k)"
  by (induction n arbitrary: c t k) (auto intro!: metered.keeps_rules frame)

lemma metered_crcs_loop [frame]: "metered.keeps (crcs_loop ss i f es c)"
  by (induction ss arbitrary: c) (auto intro!: metered.keeps_rules frame)

lemma metered_build_substreams [frame]: "metered.keeps (build_substreams d n es sc ec cc)"
  unfolding build_substreams_def substream_sizes_def Let_def
  by (auto intro!: metered.keeps_rules frame split: prod.split option.split bool.split)

lemma metered_pack_loop [frame]: "metered.keeps (pack_loop ss i crcs env bs off)"
  by (induction ss arbitrary: i off) (auto intro!: metered.keeps_rules frame)

lemma metered_validate_pack_ranges [frame]: "metered.keeps (validate_pack_ranges p env bs rs)"
  unfolding validate_pack_ranges_def push_range_def by (intro metered.keeps_rules frame)

lemma metered_drafts_loop [frame]: "metered.keeps (drafts_loop fs i crcs lim a)"
  by (induction fs arbitrary: i a) (auto intro!: metered.keeps_rules frame)

lemma metered_folders_loop [frame]: "metered.keeps (folders_loop ds i cs es ec lim t sc cc)"
  by (induction ds arbitrary: i t sc cc) (auto intro!: metered.keeps_rules frame)

lemma metered_validate_streams [frame]: "metered.keeps (validate_streams raw env bs lim rs)"
  unfolding validate_streams_def Let_def by (intro metered.keeps_rules frame)

lemma metered_check_ranges [frame]: "metered.keeps (check_non_overlapping_ranges rs)"
proof -
  have "metered.keeps (sorted_check rs p)" for rs p
    by (induction rs arbitrary: p) (auto intro!: metered.keeps_rules)
  then show ?thesis by (simp add: check_non_overlapping_ranges_def)
qed

lemma v_reads [frame]:
  "reads.keeps v_read_u8" "reads.keeps v_read_u32" "reads.keeps v_read_u64" "reads.keeps v_read_uint"
  unfolding v_read_u8_def v_read_u32_def v_read_u64_def v_read_uint_def
  by (intro reads.keeps_rules frame)+

lemma reads_push_repeated [frame]: "reads.keeps (push_repeated n v d)"
  unfolding push_repeated_def by (intro reads.keeps_rules frame)

lemma reads_v_bits_loop [frame]: "reads.keeps (v_bits_loop n b m)"
  by (induction n arbitrary: b m) (auto intro!: reads.keeps_rules frame)

lemma reads_v_parse_bits [frame]: "reads.keeps (v_parse_bits n)" "reads.keeps (parse_optional_bits n)"
  unfolding v_parse_bits_def parse_optional_bits_def by (intro reads.keeps_rules frame)+

lemma metered_parse_defined_values [frame]:
  "reads.keeps read \<Longrightarrow> metered.keeps (parse_defined_values data n read)"
  unfolding parse_defined_values_def by (intro metered_with_reader reads.keeps_rules frame)

lemma metered_parse_plain_bits [frame]: "metered.keeps (parse_plain_bits p n)"
  unfolding parse_plain_bits_def by (intro metered_with_reader reads.keeps_rules frame)

lemma metered_substream_mappings [frame]: "metered.keeps (substream_mappings f i ss)"
  by (induction ss arbitrary: i) (auto intro!: metered.keeps_rules frame)

lemma metered_folder_mappings [frame]: "metered.keeps (folder_mappings i fs)"
  by (induction fs arbitrary: i) (auto intro!: metered.keeps_rules frame)

lemma metered_collect_stream_mappings [frame]: "metered.keeps (collect_stream_mappings ss)"
  unfolding collect_stream_mappings_def Let_def by (intro metered.keeps_rules frame)

lemma reads_read_unit [frame]: "reads.keeps read_unit"
  unfolding read_unit_def by (intro reads.keeps_rules frame)

lemma reads_name_steps [frame]: "reads.keeps (name_end a b c lim)" "reads.keeps (name_unit b lim)"
  unfolding name_end_def name_unit_def by (intro reads.keeps_rules frame)+

lemma reads_scan_names_at: "read_le s (snd (scan_names n lim a b c s))"
proof (induction n lim a b c s rule: scan_names.induct)
  case (1 n lim a b c s)
  show ?case
    by (subst scan_names.simps)
      (intro reads.le_bind reads.le_branch reads.le_ret frame; rule 1; assumption)
qed

lemma reads_scan_names [frame]: "reads.keeps (scan_names n lim a b c)"
  by (simp add: reads.keeps_def reads_scan_names_at)

lemma reads_name_loop_at: "read_le s (snd (name_loop ns s))"
proof (induction ns s rule: name_loop.induct)
  case (1 ns s)
  show ?case
    by (subst name_loop.simps)
      (intro reads.le_bind reads.le_branch reads.le_ret frame; rule 1; assumption)
qed

lemma reads_name_loop [frame]: "reads.keeps (name_loop ns)"
  by (simp add: reads.keeps_def reads_name_loop_at)

lemma metered_parse_names [frame]: "metered.keeps (parse_names data n lim)"
  unfolding parse_names_def by (intro metered.keeps_rules metered_with_reader reads.keeps_rules frame)

lemma metered_apply_external [frame]: "metered.keeps (apply_external p v n e)"
  unfolding apply_external_def by (cases v) (auto intro!: metered.keeps_rules frame)

lemma metered_place_property [frame]: "metered.keeps (place_property p f)"
  unfolding place_property_def known_property_slot_def by (intro metered.keeps_rules frame)

lemma metered_file_parts [frame]:
  "metered.keeps (bits_or_false p n d)" "metered.keeps (empty_flags v b c)"
  "metered.keeps (next_stream v b c)" "metered.keeps (file_name v i)"
  unfolding bits_or_false_def empty_flags_def next_stream_def file_name_def
  by (intro metered.keeps_rules frame)+

lemma metered_optional_values [frame]:
  "(\<And>data. metered.keeps (parse data)) \<Longrightarrow> metered.keeps (optional_values p parse i n e)"
  unfolding optional_values_def by (intro metered.keeps_rules frame)

lemma metered_files_loop [frame]: "metered.keeps (files_loop n v i e s)"
  by (induction n arbitrary: i e s) (auto intro!: metered.keeps_rules frame)

lemma metered_validate_files [frame]: "metered.keeps (validate_files raw m a lim)"
  unfolding validate_files_def file_vectors_of_def Let_def by (intro metered.keeps_rules frame)

lemma metered_validate_plain_header [frame]: "metered.keeps (validate_plain_header raw env bs lim)"
  unfolding validate_plain_header_def optional_streams_def by (intro metered.keeps_rules frame)

lemma metered_validate_next_header [frame]: "metered.keeps (validate_next_header raw env bs lim)"
  unfolding validate_next_header_def
  by (cases raw) (simp_all, (intro metered.keeps_rules frame)+)

section \<open>Examples\<close>

text \<open>A section with one packed stream of \<open>n\<close> bytes that a single copy coder passes through.\<close>

definition copy_section :: "nat \<Rightarrow> nat \<Rightarrow> raw_streams_info" where
  "copy_section position n = \<lparr>
     ri_pack = Some \<lparr>rp_position = position, rp_streams = 1, rp_sizes = Some [n], rp_crcs = None\<rparr>,
     ri_unpack = Some \<lparr>ru_folders = [\<lparr>rf_coders = [\<lparr>rc_method_id = [0x00], rc_inputs = 1,
       rc_outputs = 1, rc_properties = []\<rparr>], rf_inputs = 1, rf_outputs = 1, rf_bind_pairs = [],
       rf_packed_streams = 1, rf_packed_indices = None, rf_unpack_sizes = [n]\<rparr>], ru_crcs = None\<rparr>,
     ri_substreams = None\<rparr>"

definition example_envelope :: header_envelope where
  "example_envelope = \<lparr>he_signature_offset = 0, he_version = \<lparr>av_major = 0, av_minor = 4\<rparr>,
     he_next_header_offset = 40, he_next_header_size = 1, he_next_header_crc = 0,
     he_next_header_kind = KindHeader\<rparr>"

lemmas run_sections = copy_section_def example_envelope_def validate_streams_def
  validate_pack_ranges_def FIXED_HEADER_SIZE_def UNKNOWN_SIZE_def value_at_def push_range_def flatten_def
  validate_folder_def validate_coder_properties_def coder_dictionary_def method_ids run_graph run_control
  optional_size_def build_substreams_def substream_sizes_def folder_of_draft_def

end
