(* ===== verification/Outcome.thy ===== *)
theory Outcome
  imports Control
begin

text \<open>
  How a run ends, for statements that are exact in both directions: \<open>ends_with E P r\<close> says that
  a success satisfies \<open>P\<close>, and that an error satisfies \<open>E\<close> unless it only tells that the run was
  cancelled, ran out of budget or found no memory.
\<close>

definition ends_with ::
  "(error \<Rightarrow> bool) \<Rightarrow> ('a \<Rightarrow> bool) \<Rightarrow> (error + 'a) \<times> 's \<Rightarrow> bool" where
  "ends_with E P r = (case r of (Inl e, _) \<Rightarrow> resource_error e \<or> E e | (Inr x, _) \<Rightarrow> P x)"

lemma ends_with_bind:
  assumes "ends_with E P (m s)" and "\<And>x t. P x \<Longrightarrow> ends_with E Q (f x t)"
  shows "ends_with E Q (bind m f s)"
proof (cases "m s")
  case (Pair r t)
  show ?thesis
  proof (cases r)
    case (Inl e)
    with Pair assms(1) show ?thesis by (simp add: ends_with_def bind_def)
  next
    case (Inr x)
    with Pair assms(1) have "P x" by (simp add: ends_with_def)
    then have "ends_with E Q (f x t)" by (rule assms(2))
    with Pair Inr show ?thesis by (simp add: ends_with_def bind_def)
  qed
qed

lemma ends_with_reserve: "ends_with E (\<lambda>_. True) (try_reserve n s)"
  by (auto simp: ends_with_def split: prod.split sum.split dest: try_reserve_Inl)

lemma ends_with_checkpoint: "ends_with E (\<lambda>_. True) (checkpoint n s)"
  by (auto simp: ends_with_def split: prod.split sum.split dest: checkpoint_Inl)

lemma ends_with_mono:
  "ends_with E P r \<Longrightarrow> (\<And>e. E e \<Longrightarrow> E' e) \<Longrightarrow> (\<And>x. P x \<Longrightarrow> P' x) \<Longrightarrow> ends_with E' P' r"
  by (auto simp: ends_with_def split: prod.splits sum.splits)

lemma ends_with_run:
  "ends_with E P (ret x s) \<longleftrightarrow> P x" "ends_with E P (fail e s) \<longleftrightarrow> resource_error e \<or> E e"
  by (simp_all add: ends_with_def ret_def fail_def)

lemma ends_with_guard: "ends_with E P (guard b e s) \<longleftrightarrow> (if b then P () else resource_error e \<or> E e)"
  by (cases b) (simp_all add: ends_with_run)

lemma ends_with_bind_mono:
  assumes "ends_with E P (m s)" and "\<And>e. E e \<Longrightarrow> E' e" and "\<And>x t. P x \<Longrightarrow> ends_with E' Q (f x t)"
  shows "ends_with E' Q (bind m f s)"
proof (rule ends_with_bind)
  show "ends_with E' P (m s)" using assms(1) by (rule ends_with_mono) (simp_all add: assms(2))
qed (rule assms(3))

lemma ends_with_check:
  assumes "\<not> b \<Longrightarrow> E err" "b \<Longrightarrow> ends_with E P (f () s)"
  shows "ends_with E P (bind (guard b err) f s)"
  using assms by (cases b) (simp_all add: ends_with_run)

lemma ends_with_skip:
  assumes "\<And>E. ends_with E (\<lambda>_. True) (m s)" "\<And>x t. ends_with E P (f x t)"
  shows "ends_with E P (bind m f s)"
  using assms by (blast intro: ends_with_bind)

lemma ends_with_step: "m s = (Inr x, t) \<Longrightarrow> ends_with E P (f x t) \<Longrightarrow> ends_with E P (bind m f s)"
  by (simp add: bind_step)

lemma ends_with_limit:
  assumes "maximum < v \<Longrightarrow> E (LimitExceeded l v maximum)" "v \<le> maximum \<Longrightarrow> ends_with E P (f () s)"
  shows "ends_with E P (bind (check_limit v maximum l) f s)"
  using assms by (cases "maximum < v") (simp_all add: check_limit_def ends_with_run)

lemma ends_with_add:
  assumes "2 ^ 64 \<le> a + b \<Longrightarrow> E e" "a + b < 2 ^ 64 \<Longrightarrow> ends_with E P (f (a + b) s)"
  shows "ends_with E P (bind (ok_or (checked_add a b) e) f s)"
  using assms by (cases "a + b < 2 ^ 64") (simp_all add: checked_add_def ends_with_run)

lemma ends_with_range:
  assumes "length bytes < 2 ^ 64"
    and "2 ^ 64 \<le> i + n \<Longrightarrow> E (Format d1)" "length bytes < i + n \<Longrightarrow> E (Format d2)"
    and "i + n \<le> length bytes \<Longrightarrow> ends_with E P (f (take n (drop i bytes)) s)"
  shows "ends_with E P (bind (checked_range bytes i n d1 d2) f s)"
  using assms
  by (cases "i + n < 2 ^ 64"; cases "i + n \<le> length bytes")
    (simp_all add: checked_range_def checked_add_def u64_to_usize_def get_range_def ends_with_run
      format_error_def)

end
