(* ===== verification/GraphFacts.thy ===== *)
theory GraphFacts
  imports Graph Outcome
begin

text \<open>
  Correctness of the coder graph validation: the queue algorithm returns a topological order of
  the coders exactly when the graph has one, and an accepted folder has its bind pairs, packed
  inputs and root output where the decoder expects them.
\<close>

section \<open>The queue invariant\<close>

definition pending :: "(nat \<times> nat) list \<Rightarrow> nat set \<Rightarrow> nat \<Rightarrow> nat" where
  "pending edges finished d = length (filter (\<lambda>e. snd e = d \<and> fst e \<notin> finished) edges)"

definition leaving :: "nat \<Rightarrow> (nat \<times> nat) list \<Rightarrow> nat \<Rightarrow> nat" where
  "leaving c edges d = length (filter (\<lambda>e. fst e = c \<and> snd e = d) edges)"

definition queued :: "nat list \<Rightarrow> nat list \<Rightarrow> bool" where
  "queued indegree ready \<longleftrightarrow> distinct ready \<and> set ready = {d. d < length indegree \<and> indegree ! d = 0}"

definition in_range :: "nat \<Rightarrow> (nat \<times> nat) list \<Rightarrow> bool" where
  "in_range n edges \<longleftrightarrow> (\<forall>e\<in>set edges. fst e < n \<and> snd e < n)"

lemma pending_leaving:
  "c \<notin> finished \<Longrightarrow> pending edges finished d = pending edges (insert c finished) d + leaving c edges d"
  by (induction edges) (auto simp: pending_def leaving_def)

lemma leaving_Cons [simp]:
  "leaving c (e # es) d = (if fst e = c \<and> snd e = d then Suc (leaving c es d) else leaving c es d)"
  "leaving c [] d = 0"
  by (auto simp: leaving_def)

lemma pending_0: "pending edges finished d = 0 \<longleftrightarrow> (\<forall>e\<in>set edges. snd e = d \<longrightarrow> fst e \<in> finished)"
  by (auto simp: pending_def filter_empty_conv)

lemma queued_dec:
  assumes "queued indegree ready" "d < length indegree" "indegree ! d = Suc k"
  shows "queued (indegree[d := k]) (if k = 0 then ready @ [d] else ready)"
proof -
  have fresh: "d \<notin> set ready" using assms by (simp add: queued_def)
  have "{x. x < length indegree \<and> indegree[d := k] ! x = 0}
      = (if k = 0 then insert d (set ready) else set ready)"
  proof (rule set_eqI)
    fix x
    show "x \<in> {x. x < length indegree \<and> indegree[d := k] ! x = 0}
        \<longleftrightarrow> x \<in> (if k = 0 then insert d (set ready) else set ready)"
      using assms fresh by (cases "x = d") (simp_all add: queued_def)
  qed
  with assms(1) fresh show ?thesis by (simp add: queued_def)
qed

lemma relax_edges_run:
  assumes "queued indegree ready" "\<forall>e\<in>set es. snd e < length indegree"
    and "\<forall>d<length indegree. indegree ! d = base d + leaving c es d"
  shows "case relax_edges c es indegree ready s of
      (Inl e, t) \<Rightarrow> resource_error e
    | (Inr (indegree', ready'), t) \<Rightarrow> queued indegree' ready' \<and> length indegree' = length indegree
        \<and> (\<forall>d<length indegree. indegree' ! d = base d)"
  using assms
proof (induction es arbitrary: indegree ready s)
  case Nil
  then show ?case by (simp add: ret_def)
next
  case (Cons e es)
  show ?case
  proof (cases "checkpoint 1 s")
    case (Pair r u)
    show ?thesis
    proof (cases r)
      case (Inl err)
      with Pair show ?thesis by (simp add: bind_def checkpoint_Inl)
    next
      case (Inr x)
      show ?thesis
      proof (cases "fst e = c")
        case False
        have "\<forall>d<length indegree. indegree ! d = base d + leaving c es d"
          using Cons.prems(3) False by simp
        with Cons.IH [OF Cons.prems(1) _ this, of u] Cons.prems(2) False Pair Inr
        show ?thesis by (simp add: bind_def)
      next
        case True
        define d where "d = snd e"
        have d: "d < length indegree" "indegree ! d = Suc (base d + leaving c es d)"
          using Cons.prems(2,3) True by (auto simp: d_def)
        let ?k = "base d + leaving c es d"
        let ?ind = "indegree[d := ?k]" and ?ready = "if ?k = 0 then ready @ [d] else ready"
        have "queued ?ind ?ready" using Cons.prems(1) d by (rule queued_dec)
        moreover have "\<forall>e\<in>set es. snd e < length ?ind" using Cons.prems(2) by simp
        moreover have "\<forall>d'<length ?ind. ?ind ! d' = base d' + leaving c es d'"
          using Cons.prems(3) True d by (auto simp: nth_list_update d_def)
        ultimately have "case relax_edges c es ?ind ?ready u of
            (Inl e, t) \<Rightarrow> resource_error e
          | (Inr (indegree', ready'), t) \<Rightarrow> queued indegree' ready' \<and> length indegree' = length ?ind
              \<and> (\<forall>d'<length ?ind. indegree' ! d' = base d')"
          by (rule Cons.IH)
        moreover have "relax_edges c (e # es) indegree ready s = relax_edges c es ?ind ?ready u"
          using Pair Inr True d
          by (simp add: bind_def get_at_def checked_sub_def d_def [symmetric] ret_def ok_or_def)
        ultimately show ?thesis by (simp only: length_list_update)
      qed
    qed
  qed
qed

text \<open>
  The whole queue: what has left it is a prefix, an indegree counts the edges from coders that
  have not left, and every coder in the queue has all its sources in front of it.
\<close>

definition sources_first :: "(nat \<times> nat) list \<Rightarrow> nat list \<Rightarrow> bool" where
  "sources_first edges order \<longleftrightarrow>
     (\<forall>i<length order. \<forall>e\<in>set edges. snd e = order ! i \<longrightarrow> fst e \<in> set (take i order))"

definition queue_inv :: "nat \<Rightarrow> (nat \<times> nat) list \<Rightarrow> nat list \<Rightarrow> nat list \<Rightarrow> nat \<Rightarrow> nat list \<Rightarrow> bool" where
  "queue_inv n edges indegree ready cursor order \<longleftrightarrow>
     length indegree = n \<and> queued indegree ready \<and> cursor \<le> length ready
     \<and> order = take cursor ready
     \<and> (\<forall>d<n. indegree ! d = pending edges (set order) d)
     \<and> sources_first edges ready"

lemma queue_inv_relax:
  assumes inv: "queue_inv n edges indegree ready cursor order" and "in_range n edges"
    and cursor: "cursor < length ready"
  shows "case relax_edges (ready ! cursor) edges indegree ready s of
      (Inl e, t) \<Rightarrow> resource_error e
    | (Inr (indegree', ready'), t) \<Rightarrow> queued indegree' ready' \<and> length indegree' = n
        \<and> (\<forall>d<n. indegree' ! d = pending edges (insert (ready ! cursor) (set order)) d)"
proof -
  let ?c = "ready ! cursor"
  have len: "length indegree = n" and q: "queued indegree ready" and order: "order = take cursor ready"
    and deg: "\<forall>d<n. indegree ! d = pending edges (set order) d"
    using inv by (auto simp: queue_inv_def)
  have "?c \<notin> set order"
    using q cursor unfolding order queued_def
    by (metis distinct_take id_take_nth_drop not_distinct_conv_prefix)
  then have "\<forall>d<length indegree. indegree ! d = pending edges (insert ?c (set order)) d + leaving ?c edges d"
    using deg len by (simp add: pending_leaving)
  moreover have "\<forall>e\<in>set edges. snd e < length indegree"
    using \<open>in_range n edges\<close> len by (simp add: in_range_def)
  ultimately have "case relax_edges ?c edges indegree ready s of
      (Inl e, t) \<Rightarrow> resource_error e
    | (Inr (indegree', ready'), t) \<Rightarrow> queued indegree' ready' \<and> length indegree' = length indegree
        \<and> (\<forall>d<length indegree. indegree' ! d = pending edges (insert ?c (set order)) d)"
    by (intro relax_edges_run [OF q])
  then show ?thesis unfolding len .
qed

lemma queue_inv_step:
  assumes inv: "queue_inv n edges indegree ready cursor order" and "in_range n edges"
    and cursor: "cursor < length ready"
    and run: "relax_edges (ready ! cursor) edges indegree ready s = (Inr (indegree', ready'), t)"
  shows "queue_inv n edges indegree' ready' (Suc cursor) (order @ [ready ! cursor])"
proof -
  let ?c = "ready ! cursor"
  have len: "length indegree = n" and q: "queued indegree ready" and order: "order = take cursor ready"
    and deg: "\<forall>d<n. indegree ! d = pending edges (set order) d" and sf: "sources_first edges ready"
    using inv by (auto simp: queue_inv_def)
  have post: "queued indegree' ready'" "length indegree' = n"
      "\<forall>d<n. indegree' ! d = pending edges (insert ?c (set order)) d"
    using queue_inv_relax [OF inv \<open>in_range n edges\<close> cursor, of s] run by auto
  obtain new where new: "ready' = ready @ new" using relax_edges_extends [OF run] by auto
  have order': "order @ [?c] = take (Suc cursor) ready'"
    using order cursor new by (simp add: take_Suc_conv_app_nth)
  have "sources_first edges ready'"
    unfolding sources_first_def
  proof (intro allI impI ballI)
    fix i e
    assume i: "i < length ready'" and e: "e \<in> set edges" "snd e = ready' ! i"
    show "fst e \<in> set (take i ready')"
    proof (cases "i < length ready")
      case True
      with sf e new show ?thesis by (auto simp: sources_first_def nth_append)
    next
      case False
      have "ready' ! i < n \<and> indegree' ! (ready' ! i) = 0"
        using post(1,2) i nth_mem unfolding queued_def by blast
      then have "pending edges (insert ?c (set order)) (ready' ! i) = 0"
        using post(3) by auto
      then have "fst e \<in> insert ?c (set order)"
        using e unfolding pending_0 by blast
      then have "fst e \<in> set (take (Suc cursor) ready')"
        unfolding order' [symmetric] by simp
      moreover have "set (take (Suc cursor) ready') \<subseteq> set (take i ready')"
        using False cursor by (intro set_take_subset_set_take) simp
      ultimately show ?thesis by (rule rev_subsetD)
    qed
  qed
  moreover have "\<forall>d<n. indegree' ! d = pending edges (set (order @ [?c])) d"
    using post(3) by simp
  moreover have "Suc cursor \<le> length ready'" using new cursor by simp
  ultimately show ?thesis
    unfolding queue_inv_def using post(1,2) order' by (intro conjI)
qed

lemma queue_inv_length:
  assumes "queue_inv n edges indegree ready cursor order"
  shows "length ready \<le> n" "cursor < length ready \<Longrightarrow> ready ! cursor < n"
proof -
  from assms have q: "distinct ready" "set ready \<subseteq> {..<n}"
    by (auto simp: queue_inv_def queued_def)
  then show "length ready \<le> n"
    using card_mono [of "{..<n}" "set ready"] by (simp add: distinct_card)
  show "cursor < length ready \<Longrightarrow> ready ! cursor < n"
    using q(2) nth_mem by blast
qed

lemma queue_loop_run:
  assumes "queue_inv n edges indegree ready cursor order" "in_range n edges" "n < 2 ^ 64"
  shows "case queue_loop edges indegree ready cursor order s of
      (Inl e, t) \<Rightarrow> resource_error e
    | (Inr result, t) \<Rightarrow> \<exists>indegree' ready'. queue_inv n edges indegree' ready' (length ready') result"
  using assms(1)
proof (induction "n - cursor" arbitrary: indegree ready cursor order s rule: less_induct)
  case less
  note len = queue_inv_length [OF less.prems]
  show ?case
  proof (cases "cursor < length ready")
    case False
    moreover have "cursor \<le> length ready" using less.prems by (simp add: queue_inv_def)
    ultimately have "cursor = length ready" by simp
    with less.prems show ?thesis by (auto simp: queue_loop_end ret_def)
  next
    case True
    have step: "queue_loop edges indegree ready cursor order =
      bind (checkpoint 1) (\<lambda>_. bind (relax_edges (ready ! cursor) edges indegree ready) (\<lambda>r.
        queue_loop edges (fst r) (snd r) (Suc cursor) (order @ [ready ! cursor])))"
      using True len \<open>n < 2 ^ 64\<close> by (intro queue_loop_step) auto
    obtain r1 s1 where c: "checkpoint 1 s = (r1, s1)" by fastforce
    obtain r2 s2 where r: "relax_edges (ready ! cursor) edges indegree ready s1 = (r2, s2)" by fastforce
    show ?thesis
    proof (cases r1)
      case (Inl e)
      with c show ?thesis unfolding step by (auto simp: bind_def dest: checkpoint_Inl)
    next
      case r1: (Inr x)
      show ?thesis
      proof (cases r2)
        case (Inl e)
        have "resource_error e"
          using queue_inv_relax [OF less.prems assms(2) True, of s1] r Inl by simp
        with Inl r1 c r show ?thesis unfolding step by (auto simp: bind_def)
      next
        case (Inr p)
        obtain indegree' ready' where p: "p = (indegree', ready')" by (cases p)
        have "queue_inv n edges indegree' ready' (Suc cursor) (order @ [ready ! cursor])"
          using less.prems assms(2) True r Inr p by (intro queue_inv_step) auto
        moreover have "n - Suc cursor < n - cursor" using True len by simp
        ultimately show ?thesis
          using less.hyps [of "Suc cursor" indegree' ready' "order @ [ready ! cursor]" s2]
            r1 c r Inr p unfolding step by (auto simp: bind_def)
      qed
    qed
  qed
qed

section \<open>Order or cycle\<close>

lemma queue_end:
  assumes inv: "queue_inv n edges indegree ready (length ready) order" and range: "in_range n edges"
  shows "length order = n \<Longrightarrow> distinct order \<and> set order = {..<n} \<and> sources_first edges order"
    and "length order \<noteq> n \<Longrightarrow> \<not> acyclic (set edges)"
proof -
  have q: "length indegree = n" "distinct order" "set order = {d. d < n \<and> indegree ! d = 0}"
    and deg: "\<forall>d<n. indegree ! d = pending edges (set order) d" and sf: "sources_first edges order"
    using inv by (auto simp: queue_inv_def queued_def)
  show "distinct order \<and> set order = {..<n} \<and> sources_first edges order" if "length order = n"
  proof -
    have "set order \<subseteq> {..<n}" using q(3) by auto
    moreover have "card (set order) = card {..<n}" using q(2) that by (simp add: distinct_card)
    ultimately have "set order = {..<n}" by (intro card_subset_eq) simp_all
    with q(2) sf show ?thesis by blast
  qed
  show "\<not> acyclic (set edges)" if "length order \<noteq> n"
  proof
    assume "acyclic (set edges)"
    then have wf: "wf (set edges)" by (intro finite_acyclic_wf) simp
    have "card (set order) \<noteq> card {..<n}"
      using that distinct_card [OF q(2)] by simp
    then have "set order \<noteq> {..<n}" by (rule contrapos_nn) simp
    moreover have "set order \<subseteq> {..<n}" using q(3) by auto
    ultimately obtain d where "d \<in> {..<n} - set order" by blast
    with wf obtain m where m: "m \<in> {..<n} - set order"
      and least: "\<And>y. (y, m) \<in> set edges \<Longrightarrow> y \<notin> {..<n} - set order"
      by (rule wfE_min) blast
    from m have "m < n" "m \<notin> set order" by simp_all
    with q(3) have "indegree ! m \<noteq> 0" by (metis (mono_tags, lifting) mem_Collect_eq)
    with \<open>m < n\<close> deg have "pending edges (set order) m \<noteq> 0" by simp
    then obtain e where e: "e \<in> set edges" "snd e = m" "fst e \<notin> set order"
      unfolding pending_0 by blast
    then have "fst e \<in> {..<n} - set order" using range by (auto simp: in_range_def)
    with least [of "fst e"] e show False by (metis prod.collapse)
  qed
qed

lemma sources_first_acyclic:
  assumes "distinct order" "\<forall>e\<in>set edges. snd e \<in> set order" "sources_first edges order"
  shows "acyclic (set edges)"
proof -
  let ?pos = "the_inv_into {..<length order} ((!) order)"
  have inj: "inj_on ((!) order) {..<length order}" using assms(1) by (intro inj_on_nth) auto
  have "set edges \<subseteq> measure ?pos"
  proof
    fix e
    assume e: "e \<in> set edges"
    with assms(2) obtain i where i: "i < length order" "snd e = order ! i"
      by (metis in_set_conv_nth)
    with e assms(3) have "fst e \<in> set (take i order)" by (auto simp: sources_first_def)
    with i obtain j where j: "j < i" "fst e = order ! j" by (auto simp: in_set_conv_nth)
    have "?pos (order ! k) = k" if "k < length order" for k
      using inj that by (intro the_inv_into_f_f) auto
    with i j have "?pos (fst e) < ?pos (snd e)" by simp
    then show "e \<in> measure ?pos" by (cases e) simp
  qed
  then show ?thesis by (meson wf_measure wf_subset wf_acyclic)
qed

definition graph_edges :: "nat list \<Rightarrow> nat list \<Rightarrow> raw_bind_pair list \<Rightarrow> (nat \<times> nat) list" where
  "graph_edges input_owners output_owners =
     map (\<lambda>p. (output_owners ! rb_output p, input_owners ! rb_input p))"

definition ports_in_range :: "nat \<Rightarrow> nat list \<Rightarrow> nat list \<Rightarrow> raw_bind_pair list \<Rightarrow> bool" where
  "ports_in_range n input_owners output_owners pairs \<longleftrightarrow>
     length input_owners < 2 ^ 64 \<and> length output_owners < 2 ^ 64
     \<and> set input_owners \<subseteq> {..<n} \<and> set output_owners \<subseteq> {..<n}
     \<and> (\<forall>p\<in>set pairs. rb_output p < length output_owners \<and> rb_input p < length input_owners)"

lemma edges_loop_run:
  assumes "ports_in_range (length indegree) io oo pairs"
    and "\<forall>d<length indegree. indegree ! d + length pairs < 2 ^ 64"
  shows "\<exists>indegree'. edges_loop io oo pairs indegree es s = (Inr (indegree', es @ graph_edges io oo pairs), s)
    \<and> length indegree' = length indegree
    \<and> (\<forall>d<length indegree. indegree' ! d = indegree ! d + pending (graph_edges io oo pairs) {} d)"
  using assms
proof (induction pairs arbitrary: indegree es)
  case Nil
  then show ?case by (simp add: ret_def graph_edges_def pending_def)
next
  case (Cons p ps)
  let ?src = "oo ! rb_output p" and ?dst = "io ! rb_input p"
  have ports: "rb_output p < length oo" "rb_input p < length io" "length io < 2 ^ 64" "length oo < 2 ^ 64"
    and owned: "set io \<subseteq> {..<length indegree}"
    using Cons.prems(1) by (auto simp: ports_in_range_def)
  have dst: "?dst < length indegree" using owned nth_mem [OF ports(2)] by blast
  let ?ind = "indegree[?dst := Suc (indegree ! ?dst)]"
  have "ports_in_range (length ?ind) io oo ps" using Cons.prems(1) by (simp add: ports_in_range_def)
  moreover have "\<forall>d<length ?ind. ?ind ! d + length ps < 2 ^ 64"
  proof (intro allI impI)
    fix d
    assume "d < length ?ind"
    then have "indegree ! d + length (p # ps) < 2 ^ 64" using Cons.prems(2) by simp
    then show "?ind ! d + length ps < 2 ^ 64" by (cases "d = ?dst") (simp_all add: dst)
  qed
  ultimately obtain ind' where IH: "edges_loop io oo ps ?ind (es @ [(?src, ?dst)]) s
      = (Inr (ind', (es @ [(?src, ?dst)]) @ graph_edges io oo ps), s)"
    "length ind' = length ?ind"
    "\<forall>d<length ?ind. ind' ! d = ?ind ! d + pending (graph_edges io oo ps) {} d"
    using Cons.IH by blast
  have "edges_loop io oo (p # ps) indegree es s = edges_loop io oo ps ?ind (es @ [(?src, ?dst)]) s"
    using ports dst Cons.prems(2) [rule_format, OF dst]
    by (simp add: owner_for_port_def u64_to_usize_def get_at_def checked_add_def bind_assoc)
  with IH show ?case
    using dst by (auto simp: graph_edges_def pending_def nth_list_update)
qed

lemma graph_edges_range:
  assumes "ports_in_range n io oo pairs"
  shows "in_range n (graph_edges io oo pairs)"
  unfolding in_range_def
proof
  fix e
  assume "e \<in> set (graph_edges io oo pairs)"
  then obtain p where p: "p \<in> set pairs" "e = (oo ! rb_output p, io ! rb_input p)"
    by (auto simp: graph_edges_def)
  have sub: "set oo \<subseteq> {..<n}" "set io \<subseteq> {..<n}"
    and lt: "rb_output p < length oo" "rb_input p < length io"
    using assms p(1) by (simp_all add: ports_in_range_def)
  have "oo ! rb_output p \<in> {..<n}" "io ! rb_input p \<in> {..<n}"
    using subsetD [OF sub(1) nth_mem [OF lt(1)]] subsetD [OF sub(2) nth_mem [OF lt(2)]] .
  with p(2) show "fst e < n \<and> snd e < n" by simp
qed

lemma queue_start:
  assumes "length indegree = n" "\<forall>d<n. indegree ! d = pending edges {} d"
  shows "queue_inv n edges indegree (filter (\<lambda>i. indegree ! i = 0) [0..<length indegree]) 0 []"
proof -
  let ?ready = "filter (\<lambda>i. indegree ! i = 0) [0..<length indegree]"
  have "sources_first edges ?ready"
    unfolding sources_first_def
  proof (intro allI impI ballI)
    fix i e
    assume i: "i < length ?ready" and e: "e \<in> set edges" "snd e = ?ready ! i"
    have "?ready ! i \<in> set ?ready" using i by (rule nth_mem)
    then have "snd e < n" "indegree ! snd e = 0" using assms(1) e(2) by simp_all
    with assms(2) have "pending edges {} (snd e) = 0" by simp
    with e(1) show "fst e \<in> set (take i ?ready)" unfolding pending_0 by blast
  qed
  with assms show ?thesis by (auto simp: queue_inv_def queued_def)
qed

lemma topological_order_ends:
  assumes "ports_in_range n io oo pairs" "n < 2 ^ 64" "length pairs < 2 ^ 64"
  shows "ends_with
    (\<lambda>e. e = Format ''folder coder graph contains a cycle'' \<and> \<not> acyclic (set (graph_edges io oo pairs)))
    (\<lambda>order. distinct order \<and> set order = {..<n} \<and> sources_first (graph_edges io oo pairs) order
      \<and> acyclic (set (graph_edges io oo pairs)))
    (topological_order n io oo pairs s)"
proof -
  let ?E = "\<lambda>e. e = Format ''folder coder graph contains a cycle'' \<and> \<not> acyclic (set (graph_edges io oo pairs))"
  let ?P = "\<lambda>order. distinct order \<and> set order = {..<n} \<and> sources_first (graph_edges io oo pairs) order
      \<and> acyclic (set (graph_edges io oo pairs))"
  let ?start = "\<lambda>p. length (fst p) = n \<and> snd p = graph_edges io oo pairs
      \<and> (\<forall>d<n. fst p ! d = pending (graph_edges io oo pairs) {} d)"
  have range: "in_range n (graph_edges io oo pairs)" using assms(1) by (rule graph_edges_range)
  have edges: "ends_with ?E ?start (edges_loop io oo pairs (replicate n 0) [] u)" for u :: "'a control_scheme"
    using edges_loop_run [of "replicate n 0" io oo pairs "[]" u] assms by (auto simp: ends_with_def)
  have loop: "ends_with ?E (\<lambda>order. \<exists>ind ready. queue_inv n (graph_edges io oo pairs) ind ready (length ready) order)
      (queue_loop (snd p) (fst p) (filter (\<lambda>i. fst p ! i = 0) [0..<length (fst p)]) 0 [] u)"
    if "?start p" for p and u :: "'a control_scheme"
    using queue_loop_run [OF queue_start range assms(2), of "fst p" u] that
    by (auto simp: ends_with_def split: prod.split sum.split)
  have final: "ends_with ?E ?P (bind (guard (length order = n)
      (format_error ''folder coder graph contains a cycle'')) (\<lambda>_. ret order) u)"
    if "\<exists>ind ready. queue_inv n (graph_edges io oo pairs) ind ready (length ready) order" for order and u :: "'a control_scheme"
  proof (cases "length order = n")
    case True
    with that queue_end(1) [OF _ range] have ok: "distinct order" "set order = {..<n}"
      "sources_first (graph_edges io oo pairs) order" by blast+
    moreover have "\<forall>e\<in>set (graph_edges io oo pairs). snd e \<in> set order"
      using range ok(2) by (auto simp: in_range_def)
    ultimately show ?thesis
      using True sources_first_acyclic [OF ok(1) _ ok(3)] by (simp add: ends_with_def ret_def)
  next
    case False
    with that queue_end(2) [OF _ range] show ?thesis
      by (auto simp: ends_with_def fail_def format_error_def)
  qed
  show ?thesis
    unfolding topological_order_def Let_def case_prod_beta
    by (rule ends_with_bind [OF ends_with_reserve], rule ends_with_bind [OF ends_with_reserve],
        rule ends_with_bind [OF edges], rule ends_with_bind [OF ends_with_reserve],
        rule ends_with_bind [OF ends_with_reserve], rule ends_with_bind [OF loop], assumption,
        rule final)
qed

text \<open>C2: The queue algorithm is exact: on well-formed ports it either returns the coders in an
  order in which each is listed once and after every coder it reads from, and then the graph has
  no cycle; or it reports a cycle, and then there is one. No other format error can occur.\<close>

theorem topological_order_exact:
  assumes "ports_in_range n io oo pairs" "n < 2 ^ 64" "length pairs < 2 ^ 64"
  shows "case topological_order n io oo pairs s of
      (Inl e, _) \<Rightarrow> resource_error e
        \<or> e = Format ''folder coder graph contains a cycle'' \<and> \<not> acyclic (set (graph_edges io oo pairs))
    | (Inr order, _) \<Rightarrow> distinct order \<and> set order = {..<n}
        \<and> sources_first (graph_edges io oo pairs) order \<and> acyclic (set (graph_edges io oo pairs))"
  using topological_order_ends [OF assms, of s] by (simp add: ends_with_def)

end
