(* ===== verification/FolderGraph.thy ===== *)
theory FolderGraph
  imports GraphFacts
begin

text \<open>
  The folder graph as a whole: the validation accepts a folder exactly when its graph is a valid
  one, and then describes it.
\<close>

section \<open>Used-port vectors\<close>

definition used_at :: "nat \<Rightarrow> nat set \<Rightarrow> bool list" where
  "used_at n A = map (\<lambda>i. i \<in> A) [0..<n]"

lemma used_at_simps [simp]:
  "length (used_at n A) = n" "i < n \<Longrightarrow> used_at n A ! i \<longleftrightarrow> i \<in> A"
  by (simp_all add: used_at_def)

lemma used_at_replicate: "replicate n False = used_at n {}"
  by (simp add: used_at_def map_replicate_const)

lemma used_at_update [simp]: "(used_at n A)[k := True] = used_at n (insert k A)"
  by (cases "k < n"; rule nth_equalityI) (auto simp: nth_list_update)

lemma get_at_used: "get_at (used_at n A) k = (if k < n then Some (k \<in> A) else None)"
  by (simp add: get_at_def)

text \<open>Marking ports: fresh, distinct and in range, or an error.\<close>

definition markable :: "nat \<Rightarrow> nat set \<Rightarrow> nat list \<Rightarrow> bool" where
  "markable n A ps \<longleftrightarrow> distinct ps \<and> set ps \<subseteq> {..<n} - A"

lemma markable_Cons: "markable n A (p # ps) \<longleftrightarrow> p < n \<and> p \<notin> A \<and> markable n (insert p A) ps"
  by (auto simp: markable_def)

lemma markable_Nil [simp]: "markable n A []"
  by (simp add: markable_def)

definition bind_pair_of :: "raw_bind_pair \<Rightarrow> bind_pair" where
  "bind_pair_of p = \<lparr>bp_input_index = rb_input p, bp_output_index = rb_output p\<rparr>"

lemma validate_bind_pair_exact:
  fixes p n m A B
  defines "fresh \<equiv> rb_input p < n \<and> rb_input p \<notin> A \<and> rb_output p < m \<and> rb_output p \<notin> B"
  assumes "n < 2 ^ 64" "m < 2 ^ 64"
  shows "ends_with (\<lambda>_. \<not> fresh)
    (\<lambda>r. fresh \<and> r = (bind_pair_of p, used_at n (insert (rb_input p) A), used_at m (insert (rb_output p) B)))
    (validate_bind_pair p (used_at n A) (used_at m B) s)"
  using assms
  by (cases "rb_input p \<in> A"; cases "rb_output p \<in> B")
    (auto simp: validate_bind_pair_def u64_to_usize_def get_at_used bind_pair_of_def ends_with_run)

lemma bind_pairs_loop_exact:
  fixes ps n m
  defines "ok \<equiv> \<lambda>A B. markable n A (map rb_input ps) \<and> markable m B (map rb_output ps)"
  assumes "n < 2 ^ 64" "m < 2 ^ 64"
  shows "ends_with (\<lambda>_. \<not> ok A B)
    (\<lambda>r. ok A B \<and> r = (map bind_pair_of ps, used_at n (A \<union> rb_input ` set ps), used_at m (B \<union> rb_output ` set ps)))
    (bind_pairs_loop ps (used_at n A) (used_at m B) s)"
  unfolding ok_def
proof (induction ps arbitrary: A B s)
  case Nil
  then show ?case by (simp add: ends_with_run)
next
  case (Cons p ps)
  show ?case
    unfolding bind_pairs_loop.simps
  proof (rule ends_with_bind_mono, rule validate_bind_pair_exact [OF assms(2,3)], goal_cases)
    case 1
    then show ?case by (auto simp: markable_Cons)
  next
    case (2 r t)
    then show ?case
      by clarsimp (rule ends_with_bind_mono, rule Cons.IH,
        auto simp: markable_Cons ends_with_run insert_commute)
  qed
qed

section \<open>Root output, packed inputs and port owners\<close>

primrec unset :: "bool list \<Rightarrow> nat \<Rightarrow> nat list" where
  "unset [] k = []"
| "unset (b # bs) k = (if b then unset bs (Suc k) else k # unset bs (Suc k))"

lemma unset_map: "unset (map (\<lambda>i. i \<in> A) [k..<k + m]) k = filter (\<lambda>i. i \<notin> A) [k..<k + m]"
proof (induction m arbitrary: k)
  case (Suc m)
  have "[k..<k + Suc m] = k # [Suc k..<Suc k + m]" by (simp add: upt_conv_Cons)
  with Suc.IH [of "Suc k"] show ?case by simp
qed simp

lemma unset_used_at [simp]: "unset (used_at n A) 0 = filter (\<lambda>i. i \<notin> A) [0..<n]"
  using unset_map [of A 0 n] by (simp add: used_at_def)

lemma position_unset_eq: "position_unset bs k = (case unset bs k of [] \<Rightarrow> None | x # _ \<Rightarrow> Some x)"
  by (induction bs arbitrary: k) auto

lemma root_loop_exact:
  fixes bs k r
  defines "ok \<equiv> length (unset bs k) + (if r = None then 0 else 1) \<le> 1"
  assumes "k + length bs < 2 ^ 64"
  shows "ends_with (\<lambda>_. \<not> ok) (\<lambda>r'. ok \<and> r' = (case unset bs k of [] \<Rightarrow> r | x # _ \<Rightarrow> Some x))
    (root_loop bs k r s)"
  using assms(2) unfolding ok_def
proof (induction bs arbitrary: k r s)
  case Nil
  then show ?case by (simp add: ends_with_run)
next
  case (Cons b bs)
  show ?case
  proof (cases b)
    case True
    with Cons show ?thesis by simp
  next
    case False
    show ?thesis
    proof (cases r)
      case None
      have "ends_with (\<lambda>_. \<not> length (unset bs (Suc k)) + 1 \<le> 1)
        (\<lambda>r'. length (unset bs (Suc k)) + 1 \<le> 1 \<and> r' = (case unset bs (Suc k) of [] \<Rightarrow> Some k | x # _ \<Rightarrow> Some x))
        (root_loop bs (Suc k) (Some k) s)"
        using Cons.IH [of "Suc k" "Some k" s] Cons.prems by simp
      moreover have "root_loop (b # bs) k r s = root_loop bs (Suc k) (Some k) s"
        using False None Cons.prems by (simp add: usize_to_u64_def)
      ultimately show ?thesis
        using False None by (auto elim!: ends_with_mono)
    next
      case (Some x)
      with False show ?thesis by (simp add: ends_with_run)
    qed
  qed
qed

lemma packed_loop_exact:
  assumes "n < 2 ^ 64"
  shows "ends_with (\<lambda>_. \<not> markable n (A \<union> P) is)
    (\<lambda>pu. markable n (A \<union> P) is \<and> pu = used_at n (P \<union> set is))
    (packed_loop is (used_at n A) (used_at n P) s)"
proof (induction "is" arbitrary: P s)
  case Nil
  then show ?case by (simp add: ends_with_run)
next
  case (Cons i "is")
  show ?case
  proof (cases "i < n \<and> i \<notin> A \<and> i \<notin> P")
    case True
    then have "packed_loop (i # is) (used_at n A) (used_at n P) s
        = packed_loop is (used_at n A) (used_at n (insert i P)) s"
      using assms by (simp add: u64_to_usize_def get_at_used)
    with Cons.IH [of "insert i P" s] True show ?thesis
      by (simp add: markable_Cons)
  next
    case False
    then show ?thesis
      by (cases "i \<in> P"; cases "i \<in> A")
        (auto simp: u64_to_usize_def get_at_used ends_with_run markable_Cons)
  qed
qed

lemma partition_check:
  "(\<forall>(b, p)\<in>set (zip (used_at n A) (used_at n P)). b \<noteq> p) \<longleftrightarrow> (\<forall>i<n. (i \<in> A) \<noteq> (i \<in> P))"
proof -
  have "zip (used_at n A) (used_at n P) = map (\<lambda>i. (i \<in> A, i \<in> P)) [0..<n]"
    by (simp add: used_at_def zip_map_map zip_same_conv_map)
  then show ?thesis by auto
qed

primrec port_owners :: "(raw_coder \<Rightarrow> nat) \<Rightarrow> raw_coder list \<Rightarrow> nat \<Rightarrow> nat list" where
  "port_owners ports [] k = []"
| "port_owners ports (c # cs) k = replicate (ports c) k @ port_owners ports cs (Suc k)"

lemma length_port_owners [simp]: "length (port_owners f cs k) = (\<Sum>c\<leftarrow>cs. f c)"
  by (induction cs arbitrary: k) simp_all

lemma set_port_owners: "set (port_owners f cs k) \<subseteq> {k..<k + length cs}"
proof (induction cs arbitrary: k)
  case (Cons c cs)
  from Cons.IH [of "Suc k"] show ?case by auto
qed simp

lemma owners_loop_exact:
  fixes cs
  defines "fits \<equiv> \<forall>c\<in>set cs. rc_inputs c + rc_outputs c < 2 ^ 64"
  shows "ends_with (\<lambda>_. \<not> fits)
    (\<lambda>r. r = (io @ port_owners rc_inputs cs k, oo @ port_owners rc_outputs cs k))
    (owners_loop cs k io oo s)"
  unfolding fits_def
proof (induction cs arbitrary: k io oo s)
  case Nil
  then show ?case by (simp add: ends_with_run)
next
  case (Cons c cs)
  show ?case
  proof (cases "rc_inputs c + rc_outputs c < 2 ^ 64")
    case True
    then have sum: "checked_add (rc_inputs c) (rc_outputs c) = Some (rc_inputs c + rc_outputs c)" by simp
    show ?thesis
      unfolding owners_loop.simps sum ok_or_simps bind_ret
      by (rule ends_with_bind_mono, rule ends_with_checkpoint [where E = "\<lambda>_. False"], simp,
          rule ends_with_mono, rule Cons.IH) auto
  next
    case False
    then show ?thesis by (simp add: ends_with_run checked_add_def)
  qed
qed

section \<open>Valid folder graphs\<close>

definition bound_inputs :: "raw_folder \<Rightarrow> nat list" where
  "bound_inputs raw = map rb_input (rf_bind_pairs raw)"

definition bound_outputs :: "raw_folder \<Rightarrow> nat list" where
  "bound_outputs raw = map rb_output (rf_bind_pairs raw)"

definition packed_inputs :: "raw_folder \<Rightarrow> nat list" where
  "packed_inputs raw = (case rf_packed_indices raw of
     Some indices \<Rightarrow> indices
   | None \<Rightarrow> filter (\<lambda>i. i \<notin> set (bound_inputs raw)) [0..<rf_inputs raw])"

definition folder_edges :: "raw_folder \<Rightarrow> (nat \<times> nat) list" where
  "folder_edges raw = graph_edges (port_owners rc_inputs (rf_coders raw) 0)
     (port_owners rc_outputs (rf_coders raw) 0) (rf_bind_pairs raw)"

text \<open>
  Every input is bound once or packed once, every output but the root is bound once, the port
  counts add up, and no coder reads from itself, directly or through others.
\<close>

definition valid_graph :: "raw_folder \<Rightarrow> bool" where
  "valid_graph raw \<longleftrightarrow>
     (\<Sum>c\<leftarrow>rf_coders raw. rc_inputs c) = rf_inputs raw
     \<and> (\<Sum>c\<leftarrow>rf_coders raw. rc_outputs c) = rf_outputs raw
     \<and> rf_inputs raw + rf_outputs raw < 2 ^ 64
     \<and> markable (rf_inputs raw) {} (bound_inputs raw)
     \<and> markable (rf_outputs raw) {} (bound_outputs raw)
     \<and> (\<exists>root. {..<rf_outputs raw} - set (bound_outputs raw) = {root})
     \<and> markable (rf_inputs raw) (set (bound_inputs raw)) (packed_inputs raw)
     \<and> set (bound_inputs raw) \<union> set (packed_inputs raw) = {..<rf_inputs raw}
     \<and> length (packed_inputs raw) = rf_packed_streams raw
     \<and> (rf_packed_indices raw = None \<longrightarrow> rf_packed_streams raw = 1)
     \<and> acyclic (set (folder_edges raw))"

definition describes :: "validated_graph \<Rightarrow> raw_folder \<Rightarrow> bool" where
  "describes g raw \<longleftrightarrow>
     vg_bind_pairs g = map bind_pair_of (rf_bind_pairs raw)
     \<and> vg_packed_input_indices g = packed_inputs raw
     \<and> {..<rf_outputs raw} - set (bound_outputs raw) = {vg_root_output_index g}
     \<and> distinct (vg_topological_coder_order g)
     \<and> set (vg_topological_coder_order g) = {..<length (rf_coders raw)}
     \<and> sources_first (folder_edges raw) (vg_topological_coder_order g)"

lemma first_and_only:
  assumes "distinct f"
  shows "length f \<le> 1 \<and> (case f of [] \<Rightarrow> None | x # _ \<Rightarrow> Some x) = Some r \<longleftrightarrow> set f = {r}"
proof (cases f)
  case (Cons x xs)
  with assms show ?thesis by (cases xs) auto
qed simp

lemma root_exact:
  "length (filter (\<lambda>i. i \<notin> B) [0..<m]) \<le> 1 \<and>
     (case filter (\<lambda>i. i \<notin> B) [0..<m] of [] \<Rightarrow> None | x # _ \<Rightarrow> Some x) = Some r
     \<longleftrightarrow> {..<m} - B = {r}"
proof -
  have "set (filter (\<lambda>i. i \<notin> B) [0..<m]) = {..<m} - B" by auto
  then show ?thesis using first_and_only [of "filter (\<lambda>i. i \<notin> B) [0..<m]" r] by simp
qed

lemma filter_upt_hd:
  assumes "filter P [0..<n] = x # xs"
  shows "x < n"
proof -
  have "x \<in> set (filter P [0..<n])" unfolding assms by simp
  then show ?thesis by simp
qed

lemma markable_lt: "markable n A ps \<Longrightarrow> length ps \<le> n"
  unfolding markable_def
  by (metis Diff_subset card_lessThan card_mono distinct_card finite_lessThan order_trans)

lemma ends_with_false_vector:
  assumes "n < 2 ^ 64"
  shows "ends_with E (\<lambda>v. v = used_at n {}) (false_vector n d s)"
  unfolding false_vector_def
  by (simp add: u64_to_usize_def assms [simplified] used_at_replicate)
    (rule ends_with_bind [OF ends_with_reserve], simp add: ends_with_run)

lemma member_sum_le: "c \<in> set cs \<Longrightarrow> f c \<le> (\<Sum>c\<leftarrow>cs. f c)" for f :: "'a \<Rightarrow> nat"
  by (induction cs) auto

text \<open>A check of the source: passed, it yields the fact it checks; failed, the graph is invalid.\<close>

lemma valid_graphD:
  assumes "valid_graph raw"
  shows "(\<Sum>c\<leftarrow>rf_coders raw. rc_inputs c) = rf_inputs raw"
    and "(\<Sum>c\<leftarrow>rf_coders raw. rc_outputs c) = rf_outputs raw"
    and "markable (rf_inputs raw) {} (map rb_input (rf_bind_pairs raw))"
    and "markable (rf_outputs raw) {} (map rb_output (rf_bind_pairs raw))"
    and "\<exists>root. {..<rf_outputs raw} - rb_output ` set (rf_bind_pairs raw) = {root}"
    and "markable (rf_inputs raw) (rb_input ` set (rf_bind_pairs raw)) (packed_inputs raw)"
    and "set (bound_inputs raw) \<union> set (packed_inputs raw) = {..<rf_inputs raw}"
    and "length (packed_inputs raw) = rf_packed_streams raw"
    and "rf_packed_indices raw = None \<Longrightarrow> rf_packed_streams raw = 1"
    and "acyclic (set (folder_edges raw))"
  using assms by (simp_all add: valid_graph_def bound_inputs_def bound_outputs_def)

lemma valid_graph_ports:
  assumes "valid_graph raw" "length (rf_coders raw) < 2 ^ 64"
  shows "ports_in_range (length (rf_coders raw)) (port_owners rc_inputs (rf_coders raw) 0)
    (port_owners rc_outputs (rf_coders raw) 0) (rf_bind_pairs raw)"
  using assms set_port_owners [of _ "rf_coders raw" 0]
  by (auto simp: ports_in_range_def valid_graph_def markable_def bound_inputs_def bound_outputs_def
      lessThan_atLeast0)

lemma root_output_exact:
  assumes "m < 2 ^ 64"
  shows "ends_with (\<lambda>_. \<not> (\<exists>r. {..<m} - B = {r})) (\<lambda>r. {..<m} - B = {r})
    (root_output_of (used_at m B) s)"
  unfolding root_output_of_def
proof (rule ends_with_bind_mono, rule root_loop_exact, goal_cases)
  case 1
  with assms show ?case by simp
next
  case (2 e)
  then have "\<not> length (filter (\<lambda>i. i \<notin> B) [0..<m]) \<le> 1" by simp
  then show ?case using root_exact by blast
next
  case (3 r t)
  then have r: "length (filter (\<lambda>i. i \<notin> B) [0..<m]) \<le> 1"
      "r = (case filter (\<lambda>i. i \<notin> B) [0..<m] of [] \<Rightarrow> None | x # _ \<Rightarrow> Some x)"
    by simp_all
  show ?case
  proof (cases r)
    case None
    have "\<not> (\<exists>x. {..<m} - B = {x})"
    proof
      assume "\<exists>x. {..<m} - B = {x}"
      then obtain x where "{..<m} - B = {x}" by (rule exE)
      then have "r = Some x" unfolding r(2) by (rule root_exact [THEN iffD2, THEN conjunct2])
      with None show False by simp
    qed
    with None show ?thesis by (simp add: ends_with_run)
  next
    case (Some x)
    have "{..<m} - B = {x}" using r Some by (intro root_exact [THEN iffD1]) simp
    with Some show ?thesis by (simp add: ends_with_run)
  qed
qed

definition packed_ok :: "raw_folder \<Rightarrow> bool" where
  "packed_ok raw \<longleftrightarrow>
     markable (rf_inputs raw) (set (bound_inputs raw)) (packed_inputs raw)
     \<and> {..<rf_inputs raw} \<subseteq> set (bound_inputs raw) \<union> set (packed_inputs raw)
     \<and> length (packed_inputs raw) = rf_packed_streams raw
     \<and> (rf_packed_indices raw = None \<longrightarrow> rf_packed_streams raw = 1)"

lemma packed_none:
  "rf_packed_indices raw = None \<Longrightarrow> distinct (packed_inputs raw)
     \<and> set (packed_inputs raw) = {..<rf_inputs raw} - set (bound_inputs raw)"
  by (auto simp: packed_inputs_def)

definition packed_core :: "raw_folder \<Rightarrow> nat list \<Rightarrow> bool" where
  "packed_core raw ps \<longleftrightarrow> length ps = rf_packed_streams raw
     \<and> markable (rf_inputs raw) (set (bound_inputs raw)) ps
     \<and> (\<forall>i<rf_inputs raw. (i \<in> set (bound_inputs raw)) \<noteq> (i \<in> set ps))"

definition packed_source :: "raw_folder \<Rightarrow> nat list \<Rightarrow> bool" where
  "packed_source raw ps \<longleftrightarrow> (case rf_packed_indices raw of
     Some indices \<Rightarrow> ps = packed_inputs raw
   | None \<Rightarrow> packed_inputs raw \<noteq> [] \<and> ps = [hd (packed_inputs raw)])"

lemma packed_ok_core:
  "packed_ok raw \<longleftrightarrow> packed_core raw (packed_inputs raw)
     \<and> (rf_packed_indices raw = None \<longrightarrow> rf_packed_streams raw = 1)"
  by (auto simp: packed_ok_def packed_core_def markable_def)

lemma packed_source_same:
  assumes "packed_source raw ps" "packed_core raw ps \<or> packed_ok raw"
  shows "ps = packed_inputs raw"
proof (cases "rf_packed_indices raw")
  case None
  then have p: "packed_inputs raw \<noteq> []" "ps = [hd (packed_inputs raw)]"
    using assms(1) by (simp_all add: packed_source_def)
  then obtain x xs where x: "packed_inputs raw = x # xs" by (cases "packed_inputs raw") auto
  have d: "distinct (x # xs)" and set: "set (x # xs) = {..<rf_inputs raw} - set (bound_inputs raw)"
    using packed_none [OF None] unfolding x by simp_all
  have "xs = []"
    using assms(2)
  proof
    assume "packed_core raw ps"
    then have part: "\<forall>i<rf_inputs raw. (i \<in> set (bound_inputs raw)) \<noteq> (i \<in> set [x])"
      unfolding packed_core_def p(2) x by simp
    have "set xs \<subseteq> {x}"
    proof
      fix y
      assume "y \<in> set xs"
      then have "y \<in> {..<rf_inputs raw} - set (bound_inputs raw)" unfolding set [symmetric] by simp
      with part show "y \<in> {x}" by auto
    qed
    with d show "xs = []" by (cases xs) auto
  next
    assume "packed_ok raw"
    with None have "length (packed_inputs raw) = 1" by (simp add: packed_ok_def)
    with x show "xs = []" by simp
  qed
  with p x show ?thesis by simp
next
  case (Some indices)
  with assms(1) show ?thesis by (simp add: packed_source_def)
qed

lemma packed_core_iff:
  assumes "packed_source raw ps"
  shows "packed_core raw ps \<longleftrightarrow> packed_ok raw"
proof
  assume core: "packed_core raw ps"
  have same: "ps = packed_inputs raw" using assms core by (intro packed_source_same) simp_all
  have "rf_packed_streams raw = 1" if "rf_packed_indices raw = None"
  proof -
    have "length ps = 1" using assms that by (simp add: packed_source_def)
    with core show ?thesis by (simp add: packed_core_def)
  qed
  with core show "packed_ok raw" unfolding packed_ok_core same by simp
next
  assume ok: "packed_ok raw"
  have "ps = packed_inputs raw" using assms ok by (intro packed_source_same) simp_all
  with ok show "packed_core raw ps" unfolding packed_ok_core by simp
qed

lemma packed_indices_of_exact:
  assumes "rf_inputs raw < 2 ^ 64"
  shows "ends_with (\<lambda>_. rf_packed_indices raw = None \<and> packed_inputs raw = [])
    (packed_source raw)
    (packed_indices_of raw (used_at (rf_inputs raw) (set (bound_inputs raw))) s)"
proof (cases "rf_packed_indices raw")
  case (Some indices)
  then show ?thesis by (simp add: packed_indices_of_def packed_inputs_def packed_source_def ends_with_run)
next
  case None
  let ?f = "filter (\<lambda>i. i \<notin> set (bound_inputs raw)) [0..<rf_inputs raw]"
  have "x < 2 ^ 64" if "?f = x # xs" for x xs
    using filter_upt_hd [OF that] assms by simp
  with None show ?thesis
    by (auto simp: packed_indices_of_def packed_inputs_def packed_source_def ends_with_run position_unset_eq
        usize_to_u64_def split: list.splits)
qed

lemma packed_inputs_exact:
  assumes "rf_inputs raw < 2 ^ 64" "rf_packed_streams raw < 2 ^ 64"
  shows "ends_with (\<lambda>_. \<not> packed_ok raw) (\<lambda>is. packed_ok raw \<and> is = packed_inputs raw)
    (packed_inputs_of raw (used_at (rf_inputs raw) (set (bound_inputs raw))) s)"
proof -
  let ?n = "rf_inputs raw" and ?A = "set (bound_inputs raw)"
  have checks: "ends_with (\<lambda>_. \<not> packed_ok raw) (\<lambda>is. packed_ok raw \<and> is = packed_inputs raw)
      (bind (guard (length ps = rf_packed_streams raw) e1) (\<lambda>_.
       bind (false_vector ?n d) (\<lambda>packed_used.
       bind (packed_loop ps (used_at ?n ?A) packed_used) (\<lambda>packed_used.
       bind (guard (\<forall>(b, p)\<in>set (zip (used_at ?n ?A) packed_used). b \<noteq> p) e2) (\<lambda>_. ret ps)))) t)"
    if src: "packed_source raw ps" for ps e1 e2 d t
  proof (rule ends_with_check, goal_cases)
    case 1
    with packed_core_iff [OF src] show ?case by (simp add: packed_core_def)
  next
    case 2
    show ?case
    proof (rule ends_with_bind, rule ends_with_false_vector [OF assms(1)], rule ends_with_bind_mono,
        simp only:, rule packed_loop_exact [OF assms(1)], goal_cases)
      case 1
      with packed_core_iff [OF src] show ?case by (simp add: packed_core_def)
    next
      case (2 _ _ pu u)
      then have m: "markable ?n ?A ps" and pu: "pu = used_at ?n (set ps)" by simp_all
      show ?case
        unfolding pu partition_check
      proof (rule ends_with_check, goal_cases)
        case 1
        with packed_core_iff [OF src] show ?case by (auto simp: packed_core_def)
      next
        case 2
        with \<open>length ps = rf_packed_streams raw\<close> m have "packed_core raw ps"
          by (simp add: packed_core_def)
        then show ?case
          using packed_core_iff [OF src] packed_source_same [OF src] by (simp add: ends_with_run)
      qed
    qed
  qed
  show ?thesis
    unfolding packed_inputs_of_def u64_to_usize_def
    by (simp only: assms if_True bind_ret)
      (rule ends_with_skip [OF ends_with_reserve], rule ends_with_bind_mono,
        rule packed_indices_of_exact [OF assms(1)], force simp: packed_ok_def, rule checks)
qed

lemma valid_graph_parts:
  "valid_graph raw \<longleftrightarrow>
     (\<Sum>c\<leftarrow>rf_coders raw. rc_inputs c) = rf_inputs raw
     \<and> (\<Sum>c\<leftarrow>rf_coders raw. rc_outputs c) = rf_outputs raw
     \<and> rf_inputs raw + rf_outputs raw < 2 ^ 64
     \<and> (markable (rf_inputs raw) {} (map rb_input (rf_bind_pairs raw))
        \<and> markable (rf_outputs raw) {} (map rb_output (rf_bind_pairs raw)))
     \<and> (\<exists>root. {..<rf_outputs raw} - rb_output ` set (rf_bind_pairs raw) = {root})
     \<and> packed_ok raw \<and> acyclic (set (folder_edges raw))"
  by (auto simp: valid_graph_def packed_ok_def markable_def bound_inputs_def bound_outputs_def)

lemma order_exact:
  assumes "length (rf_coders raw) < 2 ^ 64" "(\<Sum>c\<leftarrow>rf_coders raw. rc_inputs c) < 2 ^ 64"
    "(\<Sum>c\<leftarrow>rf_coders raw. rc_outputs c) < 2 ^ 64"
    "markable (\<Sum>c\<leftarrow>rf_coders raw. rc_inputs c) {} (map rb_input (rf_bind_pairs raw))"
    "markable (\<Sum>c\<leftarrow>rf_coders raw. rc_outputs c) {} (map rb_output (rf_bind_pairs raw))"
  shows "ends_with (\<lambda>_. \<not> acyclic (set (folder_edges raw)))
    (\<lambda>order. acyclic (set (folder_edges raw)) \<and> distinct order
       \<and> set order = {..<length (rf_coders raw)} \<and> sources_first (folder_edges raw) order)
    (topological_order (length (rf_coders raw)) (port_owners rc_inputs (rf_coders raw) 0)
       (port_owners rc_outputs (rf_coders raw) 0) (rf_bind_pairs raw) s)"
proof -
  let ?io = "port_owners rc_inputs (rf_coders raw) 0" and ?oo = "port_owners rc_outputs (rf_coders raw) 0"
  have "set ?io \<subseteq> {..<length (rf_coders raw)}" "set ?oo \<subseteq> {..<length (rf_coders raw)}"
    using set_port_owners [of _ "rf_coders raw" 0] by (auto simp: lessThan_atLeast0)
  with assms have "ports_in_range (length (rf_coders raw)) ?io ?oo (rf_bind_pairs raw)"
    by (auto simp: ports_in_range_def markable_def)
  moreover have "length (rf_bind_pairs raw) < 2 ^ 64"
    using markable_lt [OF assms(4)] assms(2) by simp
  ultimately have "ends_with (\<lambda>e. e = Format ''folder coder graph contains a cycle''
        \<and> \<not> acyclic (set (folder_edges raw)))
      (\<lambda>order. distinct order \<and> set order = {..<length (rf_coders raw)}
        \<and> sources_first (folder_edges raw) order \<and> acyclic (set (folder_edges raw)))
      (topological_order (length (rf_coders raw)) ?io ?oo (rf_bind_pairs raw) s)"
    using topological_order_ends assms(1) unfolding folder_edges_def by blast
  then show ?thesis by (rule ends_with_mono) simp_all
qed

lemma coder_ports_fit:
  assumes "(\<Sum>c\<leftarrow>cs. f c) + (\<Sum>c\<leftarrow>cs. g c) < (m :: nat)" "c \<in> set cs"
  shows "f c + g c < m"
  using assms(1) member_sum_le [OF assms(2), of f] member_sum_le [OF assms(2), of g] by linarith

lemma validate_folder_graph_ends:
  assumes "length (rf_coders raw) < 2 ^ 64" "rf_packed_streams raw < 2 ^ 64"
  shows "ends_with (\<lambda>_. \<not> valid_graph raw) (\<lambda>g. valid_graph raw \<and> describes g raw)
    (validate_folder_graph raw s)"
proof -
  let ?n = "rf_inputs raw" and ?m = "rf_outputs raw" and ?cs = "rf_coders raw"
  show ?thesis
  proof (cases "?n + ?m < 2 ^ 64")
    case False
    then show ?thesis
      by (simp add: validate_folder_graph_def ends_with_run valid_graph_def checked_add_def)
  next
    case True
    then have lt: "?n < 2 ^ 64" "?m < 2 ^ 64" by auto
    have owners: "valid_graph raw \<Longrightarrow> \<forall>c\<in>set ?cs. rc_inputs c + rc_outputs c < 2 ^ 64"
      using True by (intro ballI coder_ports_fit [of rc_inputs ?cs rc_outputs])
        (simp_all only: valid_graph_parts)
    have bound: "rb_input ` set (rf_bind_pairs raw) = set (bound_inputs raw)"
      by (simp add: bound_inputs_def)
    show ?thesis
      unfolding validate_folder_graph_def u64_to_usize_def case_prod_beta
      apply (simp only: checked_add_def True lt if_True ok_or_simps bind_ret)
      apply (rule ends_with_skip [OF ends_with_checkpoint])
      apply (rule ends_with_skip [OF ends_with_reserve])
      apply (rule ends_with_skip [OF ends_with_reserve])
      apply (rule ends_with_bind_mono, rule owners_loop_exact)
       apply (use owners in blast)
      apply (rule ends_with_check)
       apply (use valid_graph_parts in force)
      apply (rule ends_with_bind, rule ends_with_false_vector [OF lt(1)])
      apply (rule ends_with_bind, rule ends_with_false_vector [OF lt(2)])
      apply (rule ends_with_skip [OF ends_with_reserve])
      apply (rule ends_with_bind_mono, simp only:, rule bind_pairs_loop_exact [OF lt])
       apply (use valid_graph_parts in blast)
      apply (rule ends_with_bind_mono, simp only: fst_conv snd_conv Un_empty_left,
             rule root_output_exact [OF lt(2)])
       apply (use valid_graph_parts in blast)
      apply (rule ends_with_bind_mono, simp only: fst_conv snd_conv Un_empty_left bound,
             rule packed_inputs_exact [OF lt(1) assms(2)])
       apply (use valid_graph_parts in blast)
      apply (rule ends_with_bind_mono, simp only: fst_conv snd_conv append_Nil,
             rule order_exact [OF assms(1)])
      using lt apply simp
      using lt apply simp
      apply simp
      apply simp
      apply (use valid_graph_parts in blast)
      using True apply (simp add: ends_with_run valid_graph_parts describes_def bound_outputs_def)
      done
  qed
qed

text \<open>C1: The validation of a coder graph is exact: a folder is accepted only with a valid graph,
  and then the result lists its bind pairs, its packed inputs, its one unbound output and its
  coders in an order that puts every coder after all it reads from; a folder that is refused has
  an invalid graph, unless the run was cancelled or ran out of budget or memory.\<close>

theorem validate_folder_graph_exact:
  assumes "length (rf_coders raw) < 2 ^ 64" "rf_packed_streams raw < 2 ^ 64"
  shows "case validate_folder_graph raw s of
      (Inl e, _) \<Rightarrow> resource_error e \<or> \<not> valid_graph raw
    | (Inr g, _) \<Rightarrow> valid_graph raw \<and> describes g raw"
  using validate_folder_graph_ends [OF assms, of s] by (simp add: ends_with_def)

text \<open>A folder with two coders in a chain: the first feeds the second.\<close>

definition example_folder :: raw_folder where
  "example_folder = \<lparr>rf_coders = [
       \<lparr>rc_method_id = [0x21], rc_inputs = 1, rc_outputs = 1, rc_properties = []\<rparr>,
       \<lparr>rc_method_id = [0x03], rc_inputs = 1, rc_outputs = 1, rc_properties = []\<rparr>],
     rf_inputs = 2, rf_outputs = 2, rf_bind_pairs = [\<lparr>rb_input = 1, rb_output = 0\<rparr>],
     rf_packed_streams = 1, rf_packed_indices = None, rf_unpack_sizes = [8, 8]\<rparr>"

lemma example_folder_accepted:
  "fst (validate_folder_graph example_folder unlimited) =
     Inr \<lparr>vg_bind_pairs = [\<lparr>bp_input_index = 1, bp_output_index = 0\<rparr>],
       vg_packed_input_indices = [0], vg_root_output_index = 1, vg_topological_coder_order = [0, 1]\<rparr>"
  by (simp add: validate_folder_graph_def example_folder_def unlimited_def u64_to_usize_def
      usize_to_u64_def checkpoint_def check_def charge_def try_reserve_def reserve_with_def
      checked_add_def checked_sub_def false_vector_def validate_bind_pair_def get_at_def
      root_output_of_def packed_inputs_of_def packed_indices_of_def topological_order_def
      owner_for_port_def queue_loop_step queue_loop_end run ok_or_def guard_def Let_def two_list)

theorem validate_folder_graph_exact_witness:
  "valid_graph example_folder \<and> (\<exists>g. describes g example_folder \<and> vg_topological_coder_order g = [0, 1])"
  using validate_folder_graph_exact [of example_folder unlimited] example_folder_accepted
  by (cases "validate_folder_graph example_folder unlimited") (auto simp: example_folder_def)

theorem topological_order_exact_witness:
  "\<not> acyclic (set (graph_edges [0, 1] [0, 1] [\<lparr>rb_input = 1, rb_output = 0\<rparr>, \<lparr>rb_input = 0, rb_output = 1\<rparr>]))"
proof -
  let ?pairs = "[\<lparr>rb_input = 1, rb_output = 0\<rparr>, \<lparr>rb_input = 0, rb_output = 1\<rparr>]"
  have "fst (topological_order 2 [0, 1] [0, 1] ?pairs unlimited) =
      Inl (Format ''folder coder graph contains a cycle'')"
    by (simp add: unlimited_def u64_to_usize_def checkpoint_def check_def charge_def try_reserve_def
        reserve_with_def checked_add_def topological_order_def get_at_def owner_for_port_def
        queue_loop_step queue_loop_end run ok_or_def guard_def Let_def two_list format_error_def)
  moreover have "ports_in_range 2 [0, 1] [0, 1] ?pairs"
    by (auto simp: ports_in_range_def)
  ultimately show ?thesis
    using topological_order_exact [of 2 "[0, 1]" "[0, 1]" ?pairs unlimited]
    by (cases "topological_order 2 [0, 1] [0, 1] ?pairs unlimited") (auto simp: resource_error_def)
qed

end
