(* ===== verification/StreamFacts.thy ===== *)
theory StreamFacts
  imports ValidateFacts FolderGraph
begin

text \<open>
  What an accepted stream section promises to the code that decodes it: coders in a runnable
  order, dictionaries accounted for, packed streams handed out to the folders one after the
  other, and substreams whose sizes add up to what their folder unpacks to.
\<close>

section \<open>Substreams\<close>

definition folder_size :: "folder \<Rightarrow> nat option" where
  "folder_size f = (if fo_root_output_index f < length (fo_unpack_sizes f)
     then fo_unpack_sizes f ! fo_root_output_index f else None)"

definition known_total :: "nat option list \<Rightarrow> nat option" where
  "known_total sizes = (if None \<in> set sizes then None else Some (\<Sum>x\<leftarrow>sizes. the x))"

lemma known_total_simps [simp]:
  "known_total [] = Some 0"
  "known_total (None # xs) = None"
  "known_total (Some n # xs) = map_option (\<lambda>m. n + m) (known_total xs)"
  by (simp_all add: known_total_def)

lemma known_total_one [simp]: "known_total [x] = x"
  by (cases x) simp_all

lemma known_total_append:
  "known_total (xs @ ys) = (case (known_total xs, known_total ys) of
     (Some a, Some b) \<Rightarrow> Some (a + b) | _ \<Rightarrow> None)"
  by (simp add: known_total_def)

text \<open>If the sizes of a folder's substreams are all known, they add up to its own size.\<close>

definition substreams_fit :: "nat option \<Rightarrow> substream list \<Rightarrow> bool" where
  "substreams_fit n streams \<longleftrightarrow>
     (\<forall>m. streams \<noteq> [] \<and> known_total (map ss_size streams) = Some m \<longrightarrow> n = Some m)"

lemma sizes_loop_post:
  "sizes_loop n es c r k s = (Inr (sizes, c', r', k'), t) \<Longrightarrow> length sizes = n
     \<and> (es = None \<and> n \<noteq> 0 \<longrightarrow> known_total sizes = None)
     \<and> (es \<noteq> None \<longrightarrow> (if k' then k \<and> known_total sizes = Some (r' - r) \<and> r \<le> r'
          else \<not> k \<or> known_total sizes = None))"
proof (induction n arbitrary: c r k s sizes)
  case 0
  then show ?case by (auto simp: success)
next
  case (Suc n)
  from Suc.prems obtain size c1 r1 k1 rest and u v :: "'a control_scheme" where
    here: "(case es of
             Some values \<Rightarrow>
               bind (ok_or (get_at values c)
                       (format_error ''explicit substream-size vector is too short'')) (\<lambda>v.
               bind (ok_or (checked_add c 1)
                       (format_error ''substream-size index overflows'')) (\<lambda>size_cursor.
               case optional_size v of
                 Some known_size \<Rightarrow>
                   bind (ok_or (checked_add r known_size)
                           (format_error ''substream-size sum overflows'')) (\<lambda>running.
                   ret (Some known_size, size_cursor, running, k))
               | None \<Rightarrow> ret (None, size_cursor, r, False)))
           | None \<Rightarrow> ret (None, c, r, k)) u = (Inr (size, c1, r1, k1), v)"
    and rest: "sizes_loop n es c1 r1 k1 v = (Inr (rest, c', r', k'), t)"
    and sizes: "sizes = size # rest"
    by (auto simp: bind_Inr ret_Inr case_prod_beta)
  have "(size = None \<and> r1 = r \<and> (es = None \<longrightarrow> k1 = k) \<and> (es \<noteq> None \<longrightarrow> \<not> k1))
      \<or> (\<exists>m. es \<noteq> None \<and> size = Some m \<and> r1 = r + m \<and> k1 = k)"
    using here by (auto simp: success split: option.splits)
  with Suc.IH [OF rest] sizes show ?case by (auto split: if_splits)
qed

lemma substream_sizes_post:
  "substream_sizes draft n es c s = (Inr (sizes, c'), t) \<Longrightarrow> length sizes = n
     \<and> (\<forall>m. sizes \<noteq> [] \<and> known_total sizes = Some m \<longrightarrow> fd_root_size draft = Some m)"
  by (auto simp: substream_sizes_def success known_total_append
      dest!: sizes_loop_post split: if_splits option.splits bool.splits prod.splits)

lemma crcs_loop_post:
  "crcs_loop sizes i fc es c s = (Inr (streams, c'), t) \<Longrightarrow> map ss_size streams = sizes"
  by (induction sizes arbitrary: c s streams) (auto simp: success)

lemma build_substreams_post:
  assumes "build_substreams draft n es sc ec cc s = (Inr (streams, rest), t)"
  shows "length streams = n \<and> substreams_fit (fd_root_size draft) streams"
proof -
  from assms obtain sizes sc' cc' i fc and u v u' v' :: "'a control_scheme" where
    sizes: "substream_sizes draft n es sc u = (Inr (sizes, sc'), v)"
    and crcs: "crcs_loop sizes i fc ec cc u' = (Inr (streams, cc'), v')"
    by (auto simp: build_substreams_def success Let_def)
  from crcs_loop_post [OF crcs] have m: "map ss_size streams = sizes" .
  then have "length streams = length sizes" by auto
  with substream_sizes_post [OF sizes] m show ?thesis by (auto simp: substreams_fit_def)
qed

section \<open>Folders\<close>

definition coder_bytes :: "coder \<Rightarrow> nat" where
  "coder_bytes c = (case co_dictionary_bytes c of None \<Rightarrow> 0 | Some n \<Rightarrow> n)"

lemma validate_coders_post:
  "validate_coders raws lim i j n s = (Inr (coders, i', j', n'), t) \<Longrightarrow>
     length coders = length raws \<and> n' = n + (\<Sum>c\<leftarrow>coders. coder_bytes c)
     \<and> (n \<le> max_dictionary_bytes lim \<longrightarrow> n' \<le> max_dictionary_bytes lim)"
proof (induction raws arbitrary: i j n s coders)
  case Nil
  then show ?case by (auto simp: success)
next
  case (Cons raw raws)
  from Cons.prems show ?case by (auto simp: success coder_bytes_def dest!: Cons.IH)
qed

text \<open>A folder that can be run: the coder order visits each coder once, the root output exists, each
  packed input is named once, and the dictionary bytes are accounted for and within the limit.\<close>

definition folder_sound :: "limits \<Rightarrow> folder \<Rightarrow> bool" where
  "folder_sound lim f \<longleftrightarrow>
     distinct (fo_topological_coder_order f)
     \<and> set (fo_topological_coder_order f) = {..<length (fo_coders f)}
     \<and> fo_root_output_index f < length (fo_unpack_sizes f)
     \<and> distinct (fo_packed_input_indices f)
     \<and> fo_dictionary_bytes f = (\<Sum>c\<leftarrow>fo_coders f. coder_bytes c)
     \<and> fo_dictionary_bytes f \<le> max_dictionary_bytes lim
     \<and> substreams_fit (folder_size f) (fo_substreams f)"

lemma validate_folder_post:
  assumes run: "validate_folder raw crc k lim s = (Inr d, t)" and packed: "rf_packed_streams raw < 2 ^ 64"
    and fit: "substreams_fit (fd_root_size d) streams"
  shows "folder_sound lim (folder_of_draft d streams) \<and> fd_first_pack_stream d = k
    \<and> length (fd_packed_input_indices d) = rf_packed_streams raw"
proof -
  from run obtain coders i j n g and u v u' v' :: control where
    small: "length (rf_coders raw) < 2 ^ 64"
    and coders: "validate_coders (rf_coders raw) lim 0 0 0 u = (Inr (coders, i, j, n), v)"
    and graph: "validate_folder_graph raw u' = (Inr g, v')"
    and root: "vg_root_output_index g < length (rf_unpack_sizes raw)"
    and d: "fd_coders d = coders" "fd_dictionary_bytes d = n" "fd_first_pack_stream d = k"
      "fd_packed_input_indices d = vg_packed_input_indices g"
      "fd_topological_coder_order d = vg_topological_coder_order g"
      "fd_unpack_sizes d = map optional_size (rf_unpack_sizes raw)"
      "fd_root_output_index d = vg_root_output_index g"
      "fd_root_size d = map optional_size (rf_unpack_sizes raw) ! vg_root_output_index g"
    by (auto simp: validate_folder_def success Let_def)
  have "valid_graph raw" "describes g raw"
    using validate_folder_graph_ends [OF small packed, of u'] graph by (simp_all add: ends_with_def)
  then have "distinct (vg_packed_input_indices g)"
    "length (vg_packed_input_indices g) = rf_packed_streams raw"
    "distinct (vg_topological_coder_order g)"
    "set (vg_topological_coder_order g) = {..<length (rf_coders raw)}"
    by (simp_all add: valid_graph_def describes_def markable_def)
  with validate_coders_post [OF coders] root d fit show ?thesis
    by (simp add: folder_sound_def folder_of_draft_def folder_size_def)
qed

text \<open>The packed streams of the folders follow one another, from number \<open>k\<close> on.\<close>

primrec consecutive :: "nat \<Rightarrow> (nat \<times> nat) list \<Rightarrow> nat \<Rightarrow> bool" where
  "consecutive k [] e \<longleftrightarrow> e = k"
| "consecutive k (x # xs) e \<longleftrightarrow> fst x = k \<and> consecutive (k + snd x) xs e"

definition draft_sound :: "limits \<Rightarrow> folder_draft \<Rightarrow> bool" where
  "draft_sound lim d \<longleftrightarrow>
     (\<forall>streams. substreams_fit (fd_root_size d) streams \<longrightarrow> folder_sound lim (folder_of_draft d streams))"

lemma draft_soundD:
  "draft_sound lim d \<Longrightarrow> substreams_fit (fd_root_size d) streams \<Longrightarrow>
     folder_sound lim (folder_of_draft d streams)"
  by (simp add: draft_sound_def)

lemma folder_of_draft_simps [simp]:
  "fo_first_pack_stream (folder_of_draft d streams) = fd_first_pack_stream d"
  "fo_packed_input_indices (folder_of_draft d streams) = fd_packed_input_indices d"
  "fo_substreams (folder_of_draft d streams) = streams"
  by (simp_all add: folder_of_draft_def)

lemma drafts_loop_post:
  "drafts_loop raws i crcs lim k s = (Inr (drafts, e), t) \<Longrightarrow>
     consecutive k (map (\<lambda>d. (fd_first_pack_stream d, length (fd_packed_input_indices d))) drafts) e
     \<and> list_all (draft_sound lim) drafts"
proof (induction raws arbitrary: i k s drafts)
  case Nil
  then show ?case by (auto simp: success)
next
  case (Cons raw raws)
  then obtain crc d ds and u v w :: control where
    d: "validate_folder raw crc k lim u = (Inr d, v)" and small: "rf_packed_streams raw < 2 ^ 64"
    and rest: "drafts_loop raws (Suc i) crcs lim (k + rf_packed_streams raw) v = (Inr (ds, e), t)"
    and drafts: "drafts = d # ds"
    by (auto simp: success)
  note post = validate_folder_post [OF d small]
  have "substreams_fit (fd_root_size d) []" by (simp add: substreams_fit_def)
  from post [OF this] have "fd_first_pack_stream d = k"
    "length (fd_packed_input_indices d) = rf_packed_streams raw" by simp_all
  moreover have "draft_sound lim d" using post by (simp add: draft_sound_def)
  ultimately show ?case using Cons.IH [OF rest] drafts by simp
qed

definition substream_total :: "folder list \<Rightarrow> nat" where
  "substream_total fs = (\<Sum>f\<leftarrow>fs. length (fo_substreams f))"

lemma substream_total_Cons: "substream_total (f # fs) = length (fo_substreams f) + substream_total fs"
  by (simp add: substream_total_def)

lemma folders_loop_post:
  "folders_loop drafts i counts es ec lim n sc cc s = (Inr (folders, n', rest), t) \<Longrightarrow>
     list_all (draft_sound lim) drafts \<Longrightarrow>
     n' = n + substream_total folders \<and> (n \<le> max_substreams lim \<longrightarrow> n' \<le> max_substreams lim)
     \<and> list_all (folder_sound lim) folders
     \<and> map (\<lambda>f. (fo_first_pack_stream f, length (fo_packed_input_indices f))) folders
       = map (\<lambda>d. (fd_first_pack_stream d, length (fd_packed_input_indices d))) drafts"
proof (induction drafts arbitrary: i n sc cc s folders rest)
  case Nil
  then show ?case by (auto simp: success substream_total_def)
next
  case (Cons d ds)
  then have d: "draft_sound lim d" and "list_all (draft_sound lim) ds" by simp_all
  note IH = Cons.IH [OF _ this(2)]
  from Cons.prems(1) show ?case
    by (auto simp: success substream_total_Cons draft_soundD [OF d] dest!: IH build_substreams_post)
qed

section \<open>Stream sections\<close>

lemma pack_count: "pack_loop sizes i crcs env bytes off s = (Inr (ps, e), t) \<Longrightarrow> length ps = length sizes"
  by (induction sizes arbitrary: i off s ps) (auto simp: success)

text \<open>C8: In an accepted stream section every folder can be run (its coder order is a permutation of
  its coders, its root output exists, its dictionaries add up to what it declares and stay within the
  limit); the folders use up the packed streams one after the other, each exactly once; the counts of
  substreams add up to the recorded number, which is within its limit; and the substreams of a folder,
  when all their sizes are known, add up to the folder's own size.\<close>

theorem validate_streams_sound:
  assumes "validate_streams raw env bytes lim ranges s = (Inr (info, ranges'), t)"
  shows "list_all (folder_sound lim) (si_folders info)
    \<and> consecutive 0 (map (\<lambda>f. (fo_first_pack_stream f, length (fo_packed_input_indices f)))
        (si_folders info)) (length (si_pack_streams info))
    \<and> si_substream_count info = substream_total (si_folders info)
    \<and> si_substream_count info \<le> max_substreams lim"
proof (cases "ri_pack raw")
  case None
  with assms show ?thesis
    by (auto simp: validate_streams_def success substream_total_def)
next
  case (Some pack)
  with assms obtain raws crcs drafts counts es ec folders n sc cc ps and u v u' v' :: control where
    drafts: "drafts_loop raws 0 crcs lim 0 u = (Inr (drafts, length ps), v)"
    and folders: "folders_loop drafts 0 counts es ec lim 0 0 0 u' = (Inr (folders, n, sc, cc), v')"
    and info: "si_folders info = folders" "si_pack_streams info = ps" "si_substream_count info = n"
    by (auto simp: validate_streams_def success Let_def)
  from drafts_loop_post [OF drafts] folders_loop_post [OF folders] info show ?thesis by simp
qed

lemma copy_section_accepted:
  "\<exists>info ranges. fst (validate_streams (copy_section 0 5) example_envelope (replicate 41 0) DEFAULT []
         unlimited) = Inr (info, ranges)
     \<and> map (\<lambda>f. map ss_size (fo_substreams f)) (si_folders info) = [[Some 5]]"
  by (simp add: DEFAULT_def run_sections)

theorem validate_streams_sound_witness:
  "\<exists>info ranges. fst (validate_streams (copy_section 0 5) example_envelope (replicate 41 0) DEFAULT []
         unlimited) = Inr (info, ranges)
     \<and> map (\<lambda>f. map ss_size (fo_substreams f)) (si_folders info) = [[Some 5]]
     \<and> list_all (folder_sound DEFAULT) (si_folders info)"
proof -
  from copy_section_accepted obtain info ranges t where
    run: "validate_streams (copy_section 0 5) example_envelope (replicate 41 0) DEFAULT [] unlimited
      = (Inr (info, ranges), t)"
    and sizes: "map (\<lambda>f. map ss_size (fo_substreams f)) (si_folders info) = [[Some 5]]"
    by (auto dest: fst_run)
  from validate_streams_sound [OF run] have "list_all (folder_sound DEFAULT) (si_folders info)"
    by (rule conjunct1)
  with run sizes show ?thesis by auto
qed

end
