(* ===== verification/FileFacts.thy ===== *)
theory FileFacts
  imports ValidateFacts
begin

text \<open>
  The file list of an accepted header: one entry per file, the empty-stream flags only on files
  without data, and every substream of the main section given to exactly one file, in order.
\<close>

section \<open>Mappings\<close>

definition folder_table :: "nat \<Rightarrow> folder \<Rightarrow> file_stream list" where
  "folder_table i folder = map (\<lambda>(j, stream). \<lparr>fs_folder_index = i, fs_substream_index = j,
     fs_size = ss_size stream, fs_crc = ss_crc stream\<rparr>) (enumerate 0 (fo_substreams folder))"

definition stream_table :: "streams_info option \<Rightarrow> file_stream list" where
  "stream_table streams = (case streams of None \<Rightarrow> []
     | Some info \<Rightarrow> concat (map (\<lambda>(i, folder). folder_table i folder) (enumerate 0 (si_folders info))))"

lemma substream_mappings_post:
  "substream_mappings i j streams s = (Inr maps, t) \<Longrightarrow>
     maps = map (\<lambda>(j, stream). \<lparr>fs_folder_index = i, fs_substream_index = j,
       fs_size = ss_size stream, fs_crc = ss_crc stream\<rparr>) (enumerate j streams)"
  by (induction streams arbitrary: j s maps) (auto simp: success)

lemma folder_mappings_post:
  "folder_mappings k folders s = (Inr maps, t) \<Longrightarrow>
     maps = concat (map (\<lambda>(i, folder). folder_table i folder) (enumerate k folders))"
  by (induction folders arbitrary: k s maps)
    (auto simp: success folder_table_def dest!: substream_mappings_post)

lemma collect_stream_mappings_post:
  "collect_stream_mappings streams s = (Inr maps, t) \<Longrightarrow> maps = stream_table streams"
  by (auto simp: collect_stream_mappings_def success stream_table_def Let_def dest: folder_mappings_post)

section \<open>Entries\<close>

text \<open>The data a file owns, the files without any left out.\<close>

definition owned_streams :: "file_entry list \<Rightarrow> file_stream list" where
  "owned_streams files = List.map_filter fe_stream files"

definition flags_consistent :: "file_entry \<Rightarrow> bool" where
  "flags_consistent f \<longleftrightarrow> (fe_has_stream f \<longleftrightarrow> fe_stream f \<noteq> None)
     \<and> (fe_has_stream f \<longrightarrow> \<not> fe_empty_file f \<and> \<not> fe_anti_item f)"

lemma owned_streams_simps [simp]:
  "owned_streams [] = []"
  "owned_streams (f # fs) = (case fe_stream f of None \<Rightarrow> owned_streams fs | Some x \<Rightarrow> x # owned_streams fs)"
  by (simp_all add: owned_streams_def map_filter_simps split: option.split)

lemma empty_flags_post:
  "empty_flags v e c s = (Inr ((a, b), c'), t) \<Longrightarrow> t = s \<and> (\<not> e \<longrightarrow> \<not> a \<and> \<not> b \<and> c' = c)"
  by (auto simp: empty_flags_def success)

lemma next_stream_post:
  "next_stream v e c s = (Inr (stream, c'), t) \<Longrightarrow>
     (e \<and> stream = None \<and> c' = c) \<or>
     (\<not> e \<and> c < length (fv_mappings v) \<and> stream = Some (fv_mappings v ! c) \<and> c' = Suc c)"
  by (auto simp: next_stream_def success)

lemma files_loop_post:
  "files_loop n v i e c s = (Inr (files, e', c'), t) \<Longrightarrow>
     length files = n \<and> list_all flags_consistent files \<and> c \<le> c'
     \<and> owned_streams files = take (c' - c) (drop c (fv_mappings v))"
proof (induction n arbitrary: i e c s files)
  case 0
  then show ?case by (auto simp: success)
next
  case (Suc n)
  then obtain empty a b e1 stream c1 f rest and u v1 v2 v3 :: "'a control_scheme" where
    flags: "empty_flags v empty e u = (Inr ((a, b), e1), v1)"
    and stream: "next_stream v empty c v1 = (Inr (stream, c1), v2)"
    and rest: "files_loop n v (Suc i) e1 c1 v3 = (Inr (rest, e', c'), t)"
    and files: "files = f # rest" "fe_stream f = stream" "fe_has_stream f = (\<not> empty)"
      "fe_empty_file f = a" "fe_anti_item f = b"
    by (auto simp: success)
  note post = Suc.IH [OF rest] empty_flags_post [OF flags] next_stream_post [OF stream]
  from post(3) show ?case
  proof
    assume "empty \<and> stream = None \<and> c1 = c"
    with post files show ?thesis by (auto simp: flags_consistent_def)
  next
    assume c: "\<not> empty \<and> c < length (fv_mappings v) \<and> stream = Some (fv_mappings v ! c) \<and> c1 = Suc c"
    with post have "Suc c \<le> c'" by simp
    then have "take (c' - c) (drop c (fv_mappings v)) =
        fv_mappings v ! c # take (c' - Suc c) (drop (Suc c) (fv_mappings v))"
      using c by (metis Cons_nth_drop_Suc Suc_diff_le diff_Suc_Suc take_Suc_Cons)
    with post files c show ?thesis by (auto simp: flags_consistent_def)
  qed
qed

lemma file_vectors_mappings:
  "file_vectors_of raw slots main add lim s = (Inr (v, ext), t) \<Longrightarrow> fv_mappings v = stream_table main"
  by (auto simp: file_vectors_of_def success dest!: collect_stream_mappings_post)

text \<open>C9: An accepted file section has as many entries as it declares; the data streams its entries
  own, read in file order, are exactly the substreams of the main section in folder order, so every
  substream belongs to one file and no file to two; and a file has its has-stream flag set just
  when it owns one, in which case it is neither marked as an empty file nor as an anti-item.\<close>

theorem validate_files_assigns_streams:
  assumes "validate_files raw main add lim s = (Inr files, t)"
  shows "length (fi_entries files) = rfi_count raw
    \<and> owned_streams (fi_entries files) = stream_table main
    \<and> list_all flags_consistent (fi_entries files)"
proof -
  from assms obtain slots v ext entries ec sc and u u1 w w1 :: control where
    v: "file_vectors_of raw slots main add lim u = (Inr (v, ext), u1)"
    and loop: "files_loop (rfi_count raw) v 0 0 0 w = (Inr (entries, ec, sc), w1)"
    and sc: "sc = length (fv_mappings v)" and files: "fi_entries files = entries"
    by (auto simp: validate_files_def success)
  from files_loop_post [OF loop] sc files file_vectors_mappings [OF v] show ?thesis by simp
qed

text \<open>Two files, the second without data, over one folder with one substream.\<close>

definition example_files :: raw_files_info where
  "example_files = \<lparr>rfi_count = 2,
     rfi_properties = [\<lparr>prop_id = ID_EMPTY_STREAM, prop_data = [0x40]\<rparr>]\<rparr>"

definition example_streams :: streams_info where
  "example_streams = \<lparr>si_pack_position = 0, si_pack_streams = [], si_folders = [
     \<lparr>fo_coders = [], fo_bind_pairs = [], fo_packed_input_indices = [], fo_unpack_sizes = [],
      fo_root_output_index = 0, fo_topological_coder_order = [], fo_crc = None,
      fo_substreams = [\<lparr>ss_size = Some 5, ss_crc = Some 7\<rparr>], fo_dictionary_bytes = 0,
      fo_first_pack_stream = 0\<rparr>], si_substream_count = 1\<rparr>"

lemma example_files_unfold: "example_files = \<lparr>rfi_count = Suc (Suc 0),
     rfi_properties = [\<lparr>prop_id = ID_EMPTY_STREAM, prop_data = [0x40]\<rparr>]\<rparr>"
  by (simp add: example_files_def numeral_2_eq_2)

lemma example_files_accepted:
  "\<exists>files. fst (validate_files example_files (Some example_streams) None DEFAULT unlimited) = Inr files
     \<and> map fe_has_stream (fi_entries files) = [True, False]"
  by (simp add: example_files_unfold example_streams_def validate_files_def place_property_def raw_ids
      known_property_slot_def no_slots_def file_vectors_of_def bits_or_false_def parse_plain_bits_def
      v_parse_bits_def push_repeated_def v_read_u8_def read_u8_def read_bytes_def with_reader_def finish_def
      optional_values_def collect_stream_mappings_def empty_flags_def next_stream_def file_name_def
      value_at_def flatten_def run_control control.defs reader.defs)

theorem validate_files_assigns_streams_witness:
  "\<exists>files. fst (validate_files example_files (Some example_streams) None DEFAULT unlimited) = Inr files
     \<and> map fe_has_stream (fi_entries files) = [True, False]
     \<and> owned_streams (fi_entries files) = stream_table (Some example_streams)"
  using example_files_accepted validate_files_assigns_streams
  by (metis prod.collapse)

end
