(* ===== verification/Crc.thy ===== *)
theory Crc
  imports Control
begin

unbundle bit_operations_syntax

text \<open>
  CRC-32 (\<open>checksum.rs\<close>): the table built at compile time, the incremental state, and the
  chunked checksum of \<open>parser.rs\<close> that charges the budget per chunk. The reference the table
  is checked against is the bit-at-a-time division by the reflected polynomial.
\<close>

definition CRC32_POLYNOMIAL :: u32 where
  "CRC32_POLYNOMIAL = 0xedb88320"

definition crc_bit :: "u32 \<Rightarrow> u32" where
  "crc_bit v = (if v AND 1 = 0 then drop_bit 1 v else drop_bit 1 v XOR CRC32_POLYNOMIAL)"

definition make_crc32_table :: "u32 list" where
  "make_crc32_table = map (\<lambda>index. (crc_bit ^^ 8) (of_nat index)) [0..<256]"

definition CRC32_TABLE :: "u32 list" where
  "CRC32_TABLE = make_crc32_table"

record crc32 =
  crc_state :: u32

definition crc_new :: crc32 where
  "crc_new = \<lparr>crc_state = - 1\<rparr>"

definition crc_update :: "u8 list \<Rightarrow> crc32 \<Rightarrow> (error + unit) \<times> crc32" where
  "crc_update bytes = fold_for (\<lambda>byte _ c.
     (let low = (ucast (crc_state c) :: u8);
          table_index = unat (low XOR byte)
      in case get_at CRC32_TABLE table_index of
           None \<Rightarrow> (Inl (Format ''internal CRC-32 table index is invalid''), c)
         | Some table_value \<Rightarrow>
             (Inr (), c\<lparr>crc_state := table_value XOR drop_bit 8 (crc_state c)\<rparr>))) bytes ()"

definition crc_finalize :: "crc32 \<Rightarrow> u32" where
  "crc_finalize c = NOT (crc_state c)"

section \<open>The table agrees with bitwise division\<close>

definition crc_byte_ref :: "u8 \<Rightarrow> u32 \<Rightarrow> u32" where
  "crc_byte_ref b v = (crc_bit ^^ 8) (v XOR ucast b)"

definition crc_ref :: "u8 list \<Rightarrow> u32" where
  "crc_ref bytes = NOT (fold crc_byte_ref bytes (- 1))"

text \<open>One step of the division is linear over exclusive or.\<close>

lemma crc_bit_alt: "crc_bit v = (if even v then drop_bit 1 v else drop_bit 1 v XOR CRC32_POLYNOMIAL)"
  by (simp add: crc_bit_def and_one_eq even_iff_mod_2_eq_zero)

lemma crc_bit_xor: "crc_bit (a XOR b) = crc_bit a XOR crc_bit b"
  by (simp add: crc_bit_alt even_xor_iff drop_bit_xor xor.assoc xor.left_commute xor.commute)

lemma crc_bits_xor: "(crc_bit ^^ n) (a XOR b) = (crc_bit ^^ n) a XOR (crc_bit ^^ n) b"
  by (induction n) (simp_all add: crc_bit_xor)

lemma crc_bits_high: "take_bit n v = 0 \<Longrightarrow> (crc_bit ^^ n) v = drop_bit n v"
proof (induction n arbitrary: v)
  case (Suc n)
  have "even v" using Suc.prems by (metis even_take_bit_eq even_zero zero_less_Suc nat.distinct(1))
  moreover have "take_bit n (drop_bit 1 v) = drop_bit 1 (take_bit (Suc n) v)"
    by (simp add: take_bit_drop_bit)
  ultimately show ?case
    using Suc by (simp add: funpow_Suc_right crc_bit_alt del: funpow.simps)
qed simp

lemma crc_bits_split:
  "(crc_bit ^^ 8) v = (crc_bit ^^ 8) (take_bit 8 v) XOR drop_bit 8 v"
proof -
  let ?high = "push_bit 8 (drop_bit 8 v)"
  have "v = take_bit 8 v XOR ?high"
    by (rule bit_word_eqI) (auto simp: bit_simps)
  then have "(crc_bit ^^ 8) v = (crc_bit ^^ 8) (take_bit 8 v) XOR (crc_bit ^^ 8) ?high"
    by (metis crc_bits_xor)
  also have "(crc_bit ^^ 8) ?high = drop_bit 8 ?high"
    by (rule crc_bits_high) (simp add: take_bit_push_bit)
  also have "drop_bit 8 ?high = drop_bit 8 v"
    by (rule bit_word_eqI) (auto simp: bit_simps dest: bit_imp_le_length)
  finally show ?thesis .
qed

lemma table_entry: "i < 256 \<Longrightarrow> get_at CRC32_TABLE i = Some ((crc_bit ^^ 8) (of_nat i))"
  by (simp add: CRC32_TABLE_def make_crc32_table_def)

lemma low_index:
  "of_nat (unat ((ucast v :: u8) XOR b)) = (take_bit 8 (v XOR ucast b) :: u32)"
proof -
  have "of_nat (unat ((ucast v :: u8) XOR b)) = (ucast ((ucast v :: u8) XOR b) :: u32)"
    by simp
  also have "\<dots> = take_bit 8 (v XOR ucast b)"
    by (rule bit_word_eqI) (auto simp: bit_simps dest: bit_imp_le_length)
  finally show ?thesis .
qed

lemma table_step:
  "get_at CRC32_TABLE (unat ((ucast v :: u8) XOR b)) = Some ((crc_bit ^^ 8) (take_bit 8 (v XOR ucast b)))"
proof -
  have "unat ((ucast v :: u8) XOR b) < 256"
    using unsigned_less [of "(ucast v :: u8) XOR b"] by simp
  then show ?thesis by (simp only: table_entry low_index)
qed

lemma high_part: "drop_bit 8 (v XOR ucast (b :: u8)) = drop_bit 8 (v :: u32)"
  by (rule bit_word_eqI) (auto simp: bit_simps dest: bit_imp_le_length)

lemma crc_update_fold:
  "crc_update bytes c = (Inr (), c\<lparr>crc_state := fold crc_byte_ref bytes (crc_state c)\<rparr>)"
proof (induction bytes arbitrary: c)
  case Nil
  then show ?case by (simp add: crc_update_def run)
next
  case (Cons b bytes)
  have "(crc_bit ^^ 8) (take_bit 8 (crc_state c XOR ucast b)) XOR drop_bit 8 (crc_state c)
      = crc_byte_ref b (crc_state c)"
    using crc_bits_split [of "crc_state c XOR ucast b"]
    by (simp only: crc_byte_ref_def high_part)
  with Cons show ?case
    by (simp add: crc_update_def bind_run table_step Let_def)
qed

text \<open>C21: Feeding any bytes to a fresh checksum never fails and finalizes to the remainder of the
  bit-at-a-time division; feeding them in two pieces gives the same state.\<close>

theorem crc_update_reference:
  "fst (crc_update bytes crc_new) = Inr ()
   \<and> crc_finalize (snd (crc_update bytes crc_new)) = crc_ref bytes
   \<and> crc_update (xs @ ys) c = crc_update ys (snd (crc_update xs c))"
  by (simp_all add: crc_update_fold crc_new_def crc_finalize_def crc_ref_def)

section \<open>Error detection\<close>

lemma xor_cancel: "(a XOR c :: 'w::len word) = b XOR c \<Longrightarrow> a = b"
  by (metis xor.assoc xor.right_neutral xor_self_eq)

lemma crc_bit_inject: "crc_bit a = crc_bit b \<Longrightarrow> a = b"
proof -
  have top: "bit (crc_bit v) 31 \<longleftrightarrow> odd v" for v
    by (auto simp: crc_bit_alt bit_simps CRC32_POLYNOMIAL_def dest: bit_imp_le_length)
  assume eq: "crc_bit a = crc_bit b"
  then have par: "odd a = odd b" by (metis top)
  then have dr: "drop_bit 1 a = drop_bit 1 b"
    using eq xor_cancel [of "drop_bit 1 a" CRC32_POLYNOMIAL "drop_bit 1 b"]
    by (cases "even a") (simp_all only: crc_bit_alt if_True if_False simp_thms)
  show "a = b"
  proof (rule bit_word_eqI)
    fix n
    show "bit a n = bit b n"
    proof (cases n)
      case 0
      with par show ?thesis by (simp add: bit_0)
    next
      case (Suc m)
      with dr show ?thesis by (metis bit_drop_bit_eq o_apply plus_1_eq_Suc)
    qed
  qed
qed

lemma crc_bits_inject: "(crc_bit ^^ n) a = (crc_bit ^^ n) b \<Longrightarrow> a = b"
  by (induction n) (auto dest: crc_bit_inject)

lemma crc_byte_ref_inject_state: "crc_byte_ref b v = crc_byte_ref b w \<Longrightarrow> v = w"
  by (auto simp: crc_byte_ref_def dest!: crc_bits_inject xor_cancel)

lemma crc_byte_ref_inject_byte: "crc_byte_ref a v = crc_byte_ref b v \<Longrightarrow> a = b"
proof -
  assume "crc_byte_ref a v = crc_byte_ref b v"
  then have "v XOR ucast a = v XOR (ucast b :: u32)"
    by (auto simp: crc_byte_ref_def dest: crc_bits_inject)
  then have "(ucast a :: u32) = ucast b" by (metis xor.commute xor_cancel)
  moreover have "ucast (ucast c :: u32) = c" for c :: u8
    by (rule bit_word_eqI) (simp add: bit_simps)
  ultimately show "a = b" by metis
qed

lemma fold_crc_inject: "fold crc_byte_ref bytes v = fold crc_byte_ref bytes w \<Longrightarrow> v = w"
  by (induction bytes arbitrary: v w) (auto dest: crc_byte_ref_inject_state)

text \<open>C22: Replacing one byte of the checked range by a different one always changes the
  checksum.\<close>

theorem crc_detects_byte_change:
  assumes "a \<noteq> b"
  shows "crc_finalize (snd (crc_update (xs @ a # ys) crc_new))
       \<noteq> crc_finalize (snd (crc_update (xs @ b # ys) crc_new))"
proof
  assume "crc_finalize (snd (crc_update (xs @ a # ys) crc_new))
        = crc_finalize (snd (crc_update (xs @ b # ys) crc_new))"
  then have "fold crc_byte_ref ys (crc_byte_ref a (fold crc_byte_ref xs (- 1)))
           = fold crc_byte_ref ys (crc_byte_ref b (fold crc_byte_ref xs (- 1)))"
    by (simp add: crc_update_fold crc_new_def crc_finalize_def)
  then have "a = b" by (blast dest: fold_crc_inject crc_byte_ref_inject_byte)
  with assms show False by simp
qed

theorem crc_detects_byte_change_witness:
  "(0x41 :: u8) \<noteq> 0x42 \<and>
   crc_finalize (snd (crc_update [0x37, 0x41, 0x00] crc_new))
     \<noteq> crc_finalize (snd (crc_update [0x37, 0x42, 0x00] crc_new))"
  using crc_detects_byte_change [of "0x41" "0x42" "[0x37]" "[0x00]"] by simp

end
