(* ===== verification/Parser.thy ===== *)
theory Parser
  imports Crc ValidateFiles
begin

text \<open>
  The envelope parser of \<open>parser.rs\<close>: the fixed signature header, its two checksums, the scan for
  a signature behind a self-extracting stub, and the entry points that go on to parse and validate
  the next header. Its private copies of the header size and the two identifiers have the values
  of \<open>FIXED_HEADER_SIZE\<close>, \<open>ID_HEADER\<close> and \<open>ID_ENCODED_HEADER\<close> and are not declared again.
\<close>

definition SIGNATURE :: "u8 list" where
  "SIGNATURE = [0x37, 0x7a, 0xbc, 0xaf, 0x27, 0x1c]"

definition START_HEADER_OFFSET :: nat where "START_HEADER_OFFSET = 12"
definition START_HEADER_SIZE :: nat where "START_HEADER_SIZE = 20"

record raw_signature_header =
  rg_major :: u8
  rg_minor :: u8
  rg_start_crc :: u32
  rg_next_offset :: nat
  rg_next_size :: nat
  rg_next_crc :: u32

definition parse_raw_signature_header ::
  "u8 list \<Rightarrow> (control, error, raw_signature_header) comp" where
  "parse_raw_signature_header bytes =
     with_reader bytes
      (parse_exact FIXED_HEADER_SIZE ''fixed 7z header was not consumed exactly''
        (bind (read_bytes 6) (\<lambda>signature.
         bind (guard (signature = SIGNATURE) (format_error ''invalid 7z signature'')) (\<lambda>_.
         bind read_u8 (\<lambda>major.
         bind read_u8 (\<lambda>minor.
         bind read_u32_le (\<lambda>start_crc.
         bind read_u64_le (\<lambda>next_offset.
         bind read_u64_le (\<lambda>next_size.
         bind read_u32_le (\<lambda>next_crc.
         ret \<lparr>rg_major = major, rg_minor = minor, rg_start_crc = start_crc,
              rg_next_offset = next_offset, rg_next_size = next_size,
              rg_next_crc = next_crc\<rparr>))))))))))"

text \<open>The checksum is a local of the source, so its own result is turned into the caller's.\<close>

definition crc_chunk :: "u8 list \<Rightarrow> crc32 \<Rightarrow> ('z control_scheme, error, crc32) comp" where
  "crc_chunk chunk checksum =
     bind (usize_to_u64 (length chunk) ''CRC chunk length is not representable as u64'') (\<lambda>n.
     bind (checkpoint n) (\<lambda>_.
     case crc_update chunk checksum of
       (Inl e, _) \<Rightarrow> fail e
     | (Inr _, checksum) \<Rightarrow> ret checksum))"

definition crc32_with_control :: "u8 list \<Rightarrow> ('z control_scheme, error, u32) comp" where
  "crc32_with_control bytes =
     bind (fold_for crc_chunk (chunks CONTROL_CHUNK_SIZE bytes) crc_new)
       (\<lambda>checksum. ret (crc_finalize checksum))"

definition start_fields_of :: "u8 list \<Rightarrow> ('s, error, u8 list) comp" where
  "start_fields_of candidate_bytes =
     checked_range candidate_bytes START_HEADER_OFFSET START_HEADER_SIZE
       ''start-header range overflows'' ''truncated start-header fields''"

definition candidate_range :: "u8 list \<Rightarrow> nat \<Rightarrow> ('s, error, u8 list) comp" where
  "candidate_range bytes signature_offset =
     checked_range bytes signature_offset FIXED_HEADER_SIZE
       ''fixed-header range overflows'' ''truncated fixed 7z header''"

definition next_header_kind_of :: "u8 list \<Rightarrow> ('s, error, next_header_kind) comp" where
  "next_header_kind_of next_header =
     (case get_at next_header 0 of
        Some b \<Rightarrow>
          if b = ID_HEADER then ret KindHeader
          else if b = ID_ENCODED_HEADER then ret KindEncodedHeader
          else fail (format_error ''unexpected next-header identifier'')
      | None \<Rightarrow> fail (format_error ''next header is empty''))"

definition parse_candidate ::
  "u8 list \<Rightarrow> nat \<Rightarrow> limits \<Rightarrow> (control, error, header_envelope) comp" where
  "parse_candidate bytes signature_offset limits =
     bind (checkpoint FIXED_HEADER_SIZE) (\<lambda>_.
     bind (candidate_range bytes signature_offset) (\<lambda>candidate_bytes.
     bind (parse_raw_signature_header candidate_bytes) (\<lambda>raw.
     bind (start_fields_of candidate_bytes) (\<lambda>start_fields.
     bind (crc32_with_control start_fields) (\<lambda>start_crc.
     bind (guard (start_crc = rg_start_crc raw) (Checksum StartHeader None)) (\<lambda>_.
     bind (guard (rg_major raw = 0) (UnsupportedFeature ''7z-major-version'')) (\<lambda>_.
     bind (check_limit (rg_next_size raw) (max_header_bytes limits) HeaderBytes) (\<lambda>_.
     bind (ok_or (checked_add signature_offset FIXED_HEADER_SIZE)
             (format_error ''fixed-header end overflows'')) (\<lambda>after_fixed.
     bind (ok_or (checked_add after_fixed (rg_next_offset raw))
             (format_error ''next-header offset overflows'')) (\<lambda>next_header_offset.
     bind (checked_range bytes next_header_offset (rg_next_size raw)
             ''next-header end overflows'' ''truncated next-header range'') (\<lambda>next_header.
     bind (crc32_with_control next_header) (\<lambda>next_crc.
     bind (guard (next_crc = rg_next_crc raw) (Checksum NextHeader None)) (\<lambda>_.
     bind (next_header_kind_of next_header) (\<lambda>next_header_kind.
     ret \<lparr>he_signature_offset = signature_offset,
          he_version = \<lparr>av_major = rg_major raw, av_minor = rg_minor raw\<rparr>,
          he_next_header_offset = next_header_offset, he_next_header_size = rg_next_size raw,
          he_next_header_crc = rg_next_crc raw,
          he_next_header_kind = next_header_kind\<rparr>))))))))))))))"

fun candidate_error_is_fatal :: "error \<Rightarrow> bool" where
  "candidate_error_is_fatal Cancelled = True"
| "candidate_error_is_fatal (Io _ _) = True"
| "candidate_error_is_fatal (LimitExceeded WorkUnits _ _) = True"
| "candidate_error_is_fatal (LimitExceeded TotalInputBytes _ _) = True"
| "candidate_error_is_fatal _ = False"

section \<open>The scan for a signature\<close>

text \<open>\<open>slice::windows(6)\<close> with \<open>enumerate\<close>.\<close>

definition windows :: "nat \<Rightarrow> u8 list \<Rightarrow> (nat \<times> u8 list) list" where
  "windows n bytes = map (\<lambda>i. (i, take n (drop i bytes))) [0..<Suc (length bytes) - n]"

text \<open>
  The window loop of both entry points, over the routine that tries a candidate: the first success
  wins, a fatal error ends the scan, the first other error is kept for the end. An error leaves
  the budget as the failed attempt left it.
\<close>

fun scan_windows ::
  "(nat \<Rightarrow> (control, error, 'a) comp) \<Rightarrow> (nat \<times> u8 list) list \<Rightarrow> error option \<Rightarrow> (control, error, 'a) comp" where
  "scan_windows candidate [] first_candidate_error =
     (case first_candidate_error of
        Some e \<Rightarrow> fail e
      | None \<Rightarrow> fail (format_error ''7z signature was not found''))"
| "scan_windows candidate ((offset, window) # rest) first_candidate_error =
     bind (checkpoint 1) (\<lambda>_.
     if window \<noteq> SIGNATURE then scan_windows candidate rest first_candidate_error
     else
       bind (usize_to_u64 offset ''SFX signature offset is not representable as u64'') (\<lambda>offset c.
       case candidate offset c of
         (Inr found, d) \<Rightarrow> (Inr found, d)
       | (Inl e, d) \<Rightarrow>
           if candidate_error_is_fatal e then (Inl e, d)
           else scan_windows candidate rest
                  (if first_candidate_error = None then Some e else first_candidate_error) d))"

definition scan_range :: "u8 list \<Rightarrow> nat \<Rightarrow> limits \<Rightarrow> ('s, error, u8 list) comp" where
  "scan_range bytes last_possible_offset limits =
     (let last_scanned_offset = min last_possible_offset (sfx_scan_limit limits) in
      bind (ok_or (checked_add last_scanned_offset (length SIGNATURE))
              (format_error ''SFX scan range overflows'')) (\<lambda>scan_length.
      checked_range bytes 0 scan_length ''SFX scan range overflows'' ''truncated SFX scan range''))"

definition find_candidate ::
  "u8 list \<Rightarrow> limits \<Rightarrow> (nat \<Rightarrow> (control, error, 'a) comp) \<Rightarrow> (control, error, 'a) comp" where
  "find_candidate bytes limits candidate =
     bind (usize_to_u64 (length bytes) ''archive input length is not representable as u64'') (\<lambda>input_length.
     bind (check_limit input_length (max_total_input_bytes limits) TotalInputBytes) (\<lambda>_.
     if take 6 bytes = SIGNATURE then candidate 0
     else
       bind (usize_to_u64 (length SIGNATURE) ''7z signature length is not representable as u64'') (\<lambda>n.
       case checked_sub input_length n of
         None \<Rightarrow> fail (format_error ''7z signature was not found'')
       | Some last_possible_offset \<Rightarrow>
           bind (scan_range bytes last_possible_offset limits) (\<lambda>scan_bytes.
           scan_windows candidate (windows 6 scan_bytes) None))))"

definition parse_archive_header :: "u8 list \<Rightarrow> limits \<Rightarrow> (control, error, header_envelope) comp" where
  "parse_archive_header bytes limits =
     find_candidate bytes limits (\<lambda>offset. parse_candidate bytes offset limits)"

definition validated_candidate ::
  "u8 list \<Rightarrow> nat \<Rightarrow> limits \<Rightarrow> (control, error, parsed_archive) comp" where
  "validated_candidate bytes signature_offset limits =
     bind (parse_candidate bytes signature_offset limits) (\<lambda>envelope.
     bind (checked_range bytes (he_next_header_offset envelope) (he_next_header_size envelope)
             ''next-header end overflows during body parsing''
             ''next-header range was truncated during body parsing'') (\<lambda>next_header.
     bind (with_parse_state (parse_next_header next_header limits)) (\<lambda>raw.
     bind (validate_next_header raw envelope bytes limits) (\<lambda>validated.
     ret \<lparr>pa_envelope = envelope, pa_next_header = validated\<rparr>))))"

definition parse_archive :: "u8 list \<Rightarrow> limits \<Rightarrow> (control, error, parsed_archive) comp" where
  "parse_archive bytes limits =
     find_candidate bytes limits (\<lambda>offset. validated_candidate bytes offset limits)"

section \<open>Does the archive need more volumes?\<close>

definition candidate_declares_more_bytes ::
  "u8 list \<Rightarrow> nat \<Rightarrow> limits \<Rightarrow> (control, error, bool option) comp" where
  "candidate_declares_more_bytes bytes signature_offset limits =
     bind (usize_to_u64 (length bytes) ''archive input length is not representable as u64'') (\<lambda>input_length.
     bind (ok_or (checked_add signature_offset FIXED_HEADER_SIZE)
             (format_error ''fixed-header end overflows'')) (\<lambda>fixed_end.
     if fixed_end > input_length then ret (Some True)
     else
     bind (candidate_range bytes signature_offset) (\<lambda>candidate_bytes.
     bind (parse_raw_signature_header candidate_bytes) (\<lambda>raw.
     bind (start_fields_of candidate_bytes) (\<lambda>start_fields.
     bind (crc32_with_control start_fields) (\<lambda>start_crc.
     if start_crc \<noteq> rg_start_crc raw then ret None
     else
     bind (check_limit (rg_next_size raw) (max_header_bytes limits) HeaderBytes) (\<lambda>_.
     bind (ok_or (case checked_add fixed_end (rg_next_offset raw) of
                    None \<Rightarrow> None | Some offset \<Rightarrow> checked_add offset (rg_next_size raw))
             (format_error ''declared archive end overflows'')) (\<lambda>required.
     ret (Some (required > input_length))))))))))"

fun scan_declared ::
  "(nat \<Rightarrow> (control, error, bool option) comp) \<Rightarrow> (nat \<times> u8 list) list \<Rightarrow> (control, error, bool) comp" where
  "scan_declared candidate [] = ret False"
| "scan_declared candidate ((offset, window) # rest) =
     bind (checkpoint 1) (\<lambda>_.
     if window \<noteq> SIGNATURE then scan_declared candidate rest
     else
       bind (usize_to_u64 offset ''SFX signature offset is not representable as u64'') (\<lambda>offset.
       bind (candidate offset) (\<lambda>v.
       case v of Some requires_more \<Rightarrow> ret requires_more | None \<Rightarrow> scan_declared candidate rest)))"

definition archive_declares_more_bytes :: "u8 list \<Rightarrow> limits \<Rightarrow> (control, error, bool) comp" where
  "archive_declares_more_bytes bytes limits =
     bind (usize_to_u64 (length bytes) ''archive input length is not representable as u64'') (\<lambda>input_length.
     bind (check_limit input_length (max_total_input_bytes limits) TotalInputBytes) (\<lambda>_.
     if take 6 bytes = SIGNATURE
     then bind (candidate_declares_more_bytes bytes 0 limits) (\<lambda>v.
          ret (case v of Some requires_more \<Rightarrow> requires_more | None \<Rightarrow> False))
     else
       bind (usize_to_u64 (length SIGNATURE) ''7z signature length is not representable as u64'') (\<lambda>n.
       case checked_sub input_length n of
         None \<Rightarrow> ret False
       | Some last_possible_offset \<Rightarrow>
           bind (scan_range bytes last_possible_offset limits) (\<lambda>scan_bytes.
           scan_declared (\<lambda>offset. candidate_declares_more_bytes bytes offset limits)
             (windows 6 scan_bytes)))))"

section \<open>Headers found elsewhere\<close>

definition parse_decoded_next_header ::
  "u8 list \<Rightarrow> header_envelope \<Rightarrow> u8 list \<Rightarrow> limits \<Rightarrow> (control, error, parsed_next_header) comp" where
  "parse_decoded_next_header decoded envelope archive_bytes limits =
     bind (usize_to_u64 (length decoded) ''decoded header size is not representable as u64'') (\<lambda>decoded_size.
     bind (check_limit decoded_size (max_header_bytes limits) HeaderBytes) (\<lambda>_.
     bind (with_parse_state (parse_next_header decoded limits)) (\<lambda>raw.
     validate_next_header raw envelope archive_bytes limits)))"

definition parse_next_header_from_external_folders ::
  "u8 list \<Rightarrow> nat \<Rightarrow> u8 list \<Rightarrow> header_envelope \<Rightarrow> u8 list \<Rightarrow> limits \<Rightarrow>
   (control, error, parsed_next_header) comp" where
  "parse_next_header_from_external_folders header_bytes data_index folder_bytes envelope archive_bytes
     limits =
     bind (usize_to_u64 (length header_bytes)
             ''external-folder header size is not representable as u64'') (\<lambda>header_size.
     bind (check_limit header_size (max_header_bytes limits) HeaderBytes) (\<lambda>_.
     bind (with_parse_state
             (parse_next_header_with_external_folders header_bytes data_index folder_bytes limits)) (\<lambda>raw.
     validate_next_header raw envelope archive_bytes limits)))"

end
