(* ===== verification/ParserFacts.thy ===== *)
theory ParserFacts
  imports Parser Outcome
begin

text \<open>
  The envelope parser against a declarative description of a 7z envelope: which bytes at which
  offsets make one, and which of the envelopes in the file the scan must find.
\<close>

section \<open>What an envelope is\<close>

definition slice :: "u8 list \<Rightarrow> nat \<Rightarrow> nat \<Rightarrow> u8 list" where
  "slice bytes at n = take n (drop at bytes)"

definition u32_at :: "u8 list \<Rightarrow> nat \<Rightarrow> u32" where
  "u32_at bytes at = of_nat (le_bytes (slice bytes at 4))"

definition u64_at :: "u8 list \<Rightarrow> nat \<Rightarrow> nat" where
  "u64_at bytes at = le_bytes (slice bytes at 8)"

definition envelope_at :: "u8 list \<Rightarrow> nat \<Rightarrow> header_envelope" where
  "envelope_at bytes at = (let next_offset = at + 32 + u64_at bytes (at + 12) in
     \<lparr>he_signature_offset = at,
      he_version = \<lparr>av_major = bytes ! (at + 6), av_minor = bytes ! (at + 7)\<rparr>,
      he_next_header_offset = next_offset,
      he_next_header_size = u64_at bytes (at + 20),
      he_next_header_crc = u32_at bytes (at + 28),
      he_next_header_kind = (if bytes ! next_offset = ID_HEADER then KindHeader else KindEncodedHeader)\<rparr>)"

definition start_ok :: "u8 list \<Rightarrow> nat \<Rightarrow> bool" where
  "start_ok bytes at \<longleftrightarrow> at + 32 \<le> length bytes \<and> slice bytes at 6 = SIGNATURE
     \<and> crc_ref (slice bytes (at + 12) 20) = u32_at bytes (at + 8)"

definition envelope_ok :: "u8 list \<Rightarrow> limits \<Rightarrow> nat \<Rightarrow> bool" where
  "envelope_ok bytes lim at \<longleftrightarrow> start_ok bytes at \<and> bytes ! (at + 6) = 0
     \<and> (let e = envelope_at bytes at; off = he_next_header_offset e; n = he_next_header_size e in
        n \<le> max_header_bytes lim \<and> off + n \<le> length bytes
        \<and> crc_ref (slice bytes off n) = he_next_header_crc e
        \<and> n \<noteq> 0 \<and> bytes ! off \<in> {ID_HEADER, ID_ENCODED_HEADER})"

section \<open>The steps\<close>

lemma ends_with_pure: "m s = (r, s) \<Longrightarrow> ends_with E P (m s) \<longleftrightarrow>
    (case r of Inl e \<Rightarrow> resource_error e \<or> E e | Inr x \<Rightarrow> P x)"
  by (simp add: ends_with_def)

lemma crc_chunks:
  fixes s :: "'z control_scheme"
  assumes "\<forall>c\<in>set cs. length c < 2 ^ 64"
  shows "ends_with E (\<lambda>c'. crc_state c' = fold crc_byte_ref (concat cs) (crc_state c))
    (fold_for crc_chunk cs c s)"
  using assms
proof (induction cs arbitrary: c s)
  case Nil
  then show ?case by (simp add: ends_with_run)
next
  case (Cons x xs)
  then have "ends_with E (\<lambda>c'. c' = c\<lparr>crc_state := fold crc_byte_ref x (crc_state c)\<rparr>)
      (crc_chunk x c s)"
    by (auto simp: crc_chunk_def usize_to_u64_def crc_update_fold ends_with_run
        intro!: ends_with_skip [OF ends_with_checkpoint])
  then show ?case
    unfolding fold_for.simps
  proof (rule ends_with_bind)
    fix c' and t :: "'z control_scheme"
    assume "c' = c\<lparr>crc_state := fold crc_byte_ref x (crc_state c)\<rparr>"
    with Cons.IH [of c' t] Cons.prems
    show "ends_with E (\<lambda>c'. crc_state c' = fold crc_byte_ref (concat (x # xs)) (crc_state c))
        (fold_for crc_chunk xs c' t)" by simp
  qed
qed

lemma crc32_with_control_ends:
  "ends_with E (\<lambda>v. v = crc_ref bytes) (crc32_with_control bytes s)"
proof -
  have "\<forall>c\<in>set (chunks CONTROL_CHUNK_SIZE bytes). length c < 2 ^ 64"
    using length_chunks_le [of _ CONTROL_CHUNK_SIZE bytes] by (fastforce simp: CONTROL_CHUNK_SIZE_def)
  from crc_chunks [OF this, of E crc_new] show ?thesis
    unfolding crc32_with_control_def
    by (rule ends_with_bind) (simp add: ends_with_run crc_finalize_def crc_ref_def crc_new_def
        CONTROL_CHUNK_SIZE_def)
qed

definition header_at_start :: "u8 list \<Rightarrow> raw_signature_header" where
  "header_at_start h = \<lparr>rg_major = h ! 6, rg_minor = h ! 7, rg_start_crc = u32_at h 8,
     rg_next_offset = u64_at h 12, rg_next_size = u64_at h 20, rg_next_crc = u32_at h 28\<rparr>"

lemma parse_raw_signature_header_eq:
  assumes "length h = 32"
  shows "parse_raw_signature_header h s =
    (if take 6 h = SIGNATURE then Inr (header_at_start h) else Inl (Format ''invalid 7z signature''), s)"
  using assms
  by (simp add: parse_raw_signature_header_def with_reader_def parse_exact_def FIXED_HEADER_SIZE_def
      with_child_def read_bytes_def read_u8_def read_u32_le_def read_u64_le_def finish_def
      u64_to_usize_def checked_add_def get_range_def get_at_def run guard_def ok_or_def format_error_def
      header_at_start_def u32_at_def u64_at_def slice_def control.defs reader.defs)


lemma length_slice [simp]: "at + n \<le> length bytes \<Longrightarrow> length (slice bytes at n) = n"
  by (simp add: slice_def)

lemma slice_slice: "i + n \<le> m \<Longrightarrow> slice (slice bytes at m) i n = slice bytes (at + i) n"
  by (simp add: slice_def drop_take min_def add.commute)

lemma nth_slice: "i < n \<Longrightarrow> at + n \<le> length bytes \<Longrightarrow> slice bytes at n ! i = bytes ! (at + i)"
  by (simp add: slice_def)

lemma header_at_slice:
  assumes "at + 32 \<le> length bytes"
  shows "header_at_start (slice bytes at 32) = \<lparr>rg_major = bytes ! (at + 6), rg_minor = bytes ! (at + 7),
     rg_start_crc = u32_at bytes (at + 8), rg_next_offset = u64_at bytes (at + 12),
     rg_next_size = u64_at bytes (at + 20), rg_next_crc = u32_at bytes (at + 28)\<rparr>"
  using assms by (simp add: header_at_start_def u32_at_def u64_at_def slice_slice nth_slice)

lemma not_fatal [simp]:
  "\<not> candidate_error_is_fatal (Format d)" "\<not> candidate_error_is_fatal (format_error d)"
  "\<not> candidate_error_is_fatal (LimitExceeded HeaderBytes a b)"
  "\<not> candidate_error_is_fatal (Checksum sc m)" "\<not> candidate_error_is_fatal (UnsupportedFeature d)"
  by (simp_all add: format_error_def)

lemma resource_fatal: "resource_error e \<Longrightarrow> candidate_error_is_fatal e"
  by (auto simp: resource_error_def)

lemma parse_candidate_ends:
  assumes small: "length bytes < 2 ^ 64"
  shows "ends_with (\<lambda>e. \<not> candidate_error_is_fatal e \<and> \<not> envelope_ok bytes lim at)
    (\<lambda>env. envelope_ok bytes lim at \<and> env = envelope_at bytes at) (parse_candidate bytes at lim s)"
  (is "ends_with ?E ?P _")
proof -
  let ?fixed = "take 32 (drop at bytes)"
  have sixth: "take 6 ?fixed = slice bytes at 6" by (simp add: slice_def)
  have header: "parse_raw_signature_header ?fixed u = (if slice bytes at 6 = SIGNATURE
      then Inr (header_at_start (slice bytes at 32)) else Inl (Format ''invalid 7z signature''), u)"
    if "at + 32 \<le> length bytes" for u
    using that by (simp add: parse_raw_signature_header_eq sixth) (simp add: slice_def)
  have start: "start_fields_of ?fixed u = (Inr (slice bytes (at + 12) 20), u)"
    if "at + 32 \<le> length bytes" for u
    using that by (auto simp: start_fields_of_def START_HEADER_OFFSET_def START_HEADER_SIZE_def
        checked_range_def checked_add_def u64_to_usize_def get_range_def run slice_def drop_take
        min_def add.commute)
  show ?thesis
    unfolding parse_candidate_def candidate_range_def FIXED_HEADER_SIZE_def
    apply (rule ends_with_skip [OF ends_with_checkpoint])
    apply (rule ends_with_range [OF small])
      apply (use small in \<open>simp add: envelope_ok_def start_ok_def\<close>)
     apply (simp add: envelope_ok_def start_ok_def)
    apply (cases "slice bytes at 6 = SIGNATURE")
     prefer 2
     apply (simp add: bind_run header ends_with_def envelope_ok_def start_ok_def)
    apply (rule ends_with_step, simp add: header)
    apply (rule ends_with_step, erule start)
    apply (rule ends_with_bind, rule crc32_with_control_ends)
    apply (simp only: header_at_slice raw_signature_header.simps)
    apply (rule ends_with_check)
     apply (simp add: envelope_ok_def start_ok_def)
    apply (rule ends_with_check)
     apply (simp add: envelope_ok_def)
    apply (rule ends_with_limit)
     apply (simp add: envelope_ok_def envelope_at_def Let_def)
    apply (rule ends_with_add)
     apply (use small in \<open>simp\<close>)
    apply (rule ends_with_add)
     apply (use small in \<open>simp add: envelope_ok_def envelope_at_def Let_def\<close>)
    apply (rule ends_with_range [OF small])
      apply (use small in \<open>simp add: envelope_ok_def envelope_at_def Let_def\<close>)
     apply (simp add: envelope_ok_def envelope_at_def Let_def)
    apply (rule ends_with_bind, rule crc32_with_control_ends)
    apply (rule ends_with_check)
     apply (simp add: envelope_ok_def envelope_at_def Let_def slice_def)
    apply (cases "u64_at bytes (at + 20) = 0")
     apply (simp add: next_header_kind_of_def get_at_def ends_with_run envelope_ok_def envelope_at_def Let_def)
    apply (auto simp: next_header_kind_of_def get_at_def ends_with_run raw_ids envelope_ok_def
        start_ok_def envelope_at_def Let_def slice_def)
    done
qed

section \<open>The scan\<close>

text \<open>The offsets that are tried, in order.\<close>

definition candidate_offsets :: "u8 list \<Rightarrow> limits \<Rightarrow> nat list" where
  "candidate_offsets bytes lim =
     (if slice bytes 0 6 = SIGNATURE then [0]
      else if length bytes < 6 then []
      else filter (\<lambda>i. slice bytes i 6 = SIGNATURE)
             [0..<Suc (min (length bytes - 6) (sfx_scan_limit lim))])"

text \<open>\<open>v\<close> comes from the first offset that \<open>E\<close> does not rule out.\<close>

definition from_first :: "(nat \<Rightarrow> bool) \<Rightarrow> (nat \<Rightarrow> 'a \<Rightarrow> bool) \<Rightarrow> nat list \<Rightarrow> 'a \<Rightarrow> bool" where
  "from_first E P offsets v \<longleftrightarrow>
     (\<exists>before at after. offsets = before @ at # after \<and> (\<forall>i\<in>set before. E i) \<and> P at v)"

lemma from_first_hit: "P at v \<Longrightarrow> from_first E P (at # rest) v"
  by (force simp: from_first_def intro: exI [of _ "[]"])

lemma from_first_skip: "E at \<Longrightarrow> from_first E P rest v \<Longrightarrow> from_first E P (at # rest) v"
  unfolding from_first_def by (metis append_Cons set_ConsD)

lemma scan_windows_ends:
  assumes cand: "\<And>at s. ends_with (\<lambda>e. \<not> candidate_error_is_fatal e \<and> E at) (P at) (cand at s)"
    and small: "\<forall>w\<in>set ws. fst w < 2 ^ 64"
  shows "ends_with (\<lambda>_. \<forall>at\<in>fst ` set (filter (\<lambda>w. snd w = SIGNATURE) ws). E at)
    (from_first E P (map fst (filter (\<lambda>w. snd w = SIGNATURE) ws))) (scan_windows cand ws first s)"
  using small
proof (induction ws arbitrary: first s)
  case Nil
  then show ?case by (simp add: ends_with_run split: option.split)
next
  case (Cons w ws)
  obtain at window where w: "w = (at, window)" by (cases w)
  show ?case
  proof (cases "window = SIGNATURE")
    case False
    with Cons w show ?thesis by (auto intro!: ends_with_skip [OF ends_with_checkpoint])
  next
    case True
    have "ends_with (\<lambda>_. \<forall>i\<in>fst ` set (filter (\<lambda>w. snd w = SIGNATURE) (w # ws)). E i)
        (from_first E P (map fst (filter (\<lambda>w. snd w = SIGNATURE) (w # ws))))
        (case cand at u of
          (Inr found, d) \<Rightarrow> (Inr found, d)
        | (Inl e, d) \<Rightarrow>
            if candidate_error_is_fatal e then (Inl e, d)
            else scan_windows cand ws (if first = None then Some e else first) d)" for u
    proof (cases "cand at u")
      case (Pair r d)
      show ?thesis
      proof (cases r)
        case (Inr v)
        with cand [of at u] Pair True w show ?thesis
          by (simp add: ends_with_def from_first_hit)
      next
        case (Inl e)
        show ?thesis
        proof (cases "candidate_error_is_fatal e")
          case True
          with cand [of at u] Pair Inl show ?thesis by (simp add: ends_with_def)
        next
          case False
          with cand [of at u] Pair Inl have E: "E at"
            using resource_fatal by (auto simp: ends_with_def)
          have "ends_with (\<lambda>_. \<forall>i\<in>fst ` set (filter (\<lambda>w. snd w = SIGNATURE) ws). E i)
              (from_first E P (map fst (filter (\<lambda>w. snd w = SIGNATURE) ws)))
              (scan_windows cand ws (if first = None then Some e else first) d)"
            using Cons by simp
          then show ?thesis
            using Pair Inl False E w True by (auto intro: ends_with_mono from_first_skip)
        qed
      qed
    qed
    with True w Cons.prems show ?thesis
      by (auto simp: usize_to_u64_def intro!: ends_with_skip [OF ends_with_checkpoint])
  qed
qed

lemma windows_of_prefix:
  assumes "m + 6 \<le> length bytes"
  shows "windows 6 (take (m + 6) bytes) = map (\<lambda>i. (i, slice bytes i 6)) [0..<Suc m]"
  using assms by (auto simp: windows_def slice_def drop_take min_def simp del: upt_Suc)

lemma windows_offsets:
  "map fst (filter (\<lambda>w. snd w = SIGNATURE) (map (\<lambda>i. (i, slice bytes i 6)) is))
     = filter (\<lambda>i. slice bytes i 6 = SIGNATURE) is"
  by (induction "is") auto

lemma find_candidate_ends:
  assumes small: "length bytes < 2 ^ 64"
    and cand: "\<And>at s. ends_with (\<lambda>e. \<not> candidate_error_is_fatal e \<and> E at) (P at) (cand at s)"
  shows "ends_with (\<lambda>_. max_total_input_bytes lim < length bytes
        \<or> (\<forall>at\<in>set (candidate_offsets bytes lim). E at))
    (\<lambda>v. length bytes \<le> max_total_input_bytes lim
        \<and> from_first E P (candidate_offsets bytes lim) v) (find_candidate bytes lim cand s)"
proof -
  have signature: "length SIGNATURE = 6" by (simp add: SIGNATURE_def)
  have start: "take 6 bytes = slice bytes 0 6" by (simp add: slice_def)
  have first: "ends_with (\<lambda>e. E 0) (P 0) (cand 0 s)"
    using cand [of 0 s] by (rule ends_with_mono) simp_all
  show ?thesis
  proof (cases "length bytes \<le> max_total_input_bytes lim")
    case False
    with small show ?thesis
      by (simp add: find_candidate_def usize_to_u64_def check_limit_def ends_with_run)
  next
    case le: True
    show ?thesis
    proof (cases "slice bytes 0 6 = SIGNATURE")
      case True
      with small le first show ?thesis
        by (auto simp: find_candidate_def usize_to_u64_def check_limit_def start candidate_offsets_def
            intro: from_first_hit elim: ends_with_mono)
    next
      case False
      show ?thesis
      proof (cases "length bytes < 6")
        case True
        with small le False show ?thesis
          by (simp add: find_candidate_def usize_to_u64_def check_limit_def start candidate_offsets_def
              checked_sub_def signature ends_with_run)
      next
        case long: False
        let ?m = "min (length bytes - 6) (sfx_scan_limit lim)"
        let ?ws = "map (\<lambda>i. (i, slice bytes i 6)) [0..<Suc ?m]"
        have m: "?m + 6 \<le> length bytes" using long by simp
        then have range: "scan_range bytes (length bytes - 6) lim s = (Inr (take (?m + 6) bytes), s)"
          using small by (simp add: scan_range_def signature Let_def checked_add_def checked_range_def
              u64_to_usize_def get_range_def run)
        have offsets: "map fst (filter (\<lambda>w. snd w = SIGNATURE) ?ws) = candidate_offsets bytes lim"
          using False long by (simp only: windows_offsets candidate_offsets_def if_False)
        then have set: "fst ` set (filter (\<lambda>w. snd w = SIGNATURE) ?ws) = set (candidate_offsets bytes lim)"
          by (metis set_map)
        have "\<forall>w\<in>set ?ws. fst w < 2 ^ 64" using small m by auto
        from scan_windows_ends [where cand = cand and E = E and P = P, OF cand this, unfolded set offsets, of None s]
        have "ends_with (\<lambda>_. \<forall>at\<in>set (candidate_offsets bytes lim). E at)
            (from_first E P (candidate_offsets bytes lim))
            (scan_windows cand (windows 6 (take (?m + 6) bytes)) None s)"
          by (simp only: windows_of_prefix [OF m])
        then have "ends_with (\<lambda>_. \<forall>at\<in>set (candidate_offsets bytes lim). E at)
            (from_first E P (candidate_offsets bytes lim)) (find_candidate bytes lim cand s)"
          using small le False long
          by (simp add: find_candidate_def usize_to_u64_def check_limit_def start signature checked_sub_def
              bind_run range)
        then show ?thesis by (rule ends_with_mono) (simp_all add: le)
      qed
    qed
  qed
qed

text \<open>C4: The envelope parser finds exactly the first envelope: on success it returns what the header
  fields say at the first offset tried (the start of the bytes when the signature is there, otherwise
  every signature up to the scan limit, in order) where version, sizes, ranges and both checksums hold;
  and it fails only if no such offset holds one or the input is longer than its limit, unless the run
  was cancelled or ran out of budget.\<close>

theorem parse_archive_header_exact:
  assumes "length bytes < 2 ^ 64"
  shows "case parse_archive_header bytes lim s of
      (Inr env, _) \<Rightarrow> length bytes \<le> max_total_input_bytes lim
        \<and> from_first (\<lambda>i. \<not> envelope_ok bytes lim i)
            (\<lambda>i env. envelope_ok bytes lim i \<and> env = envelope_at bytes i) (candidate_offsets bytes lim) env
    | (Inl e, _) \<Rightarrow> resource_error e \<or> max_total_input_bytes lim < length bytes
        \<or> (\<forall>i\<in>set (candidate_offsets bytes lim). \<not> envelope_ok bytes lim i)"
  using find_candidate_ends [where cand = "\<lambda>i. parse_candidate bytes i lim", OF assms parse_candidate_ends [OF assms]]
  by (simp add: ends_with_def parse_archive_header_def)

end
