(* ===== verification/Uint7z.thy ===== *)
theory Uint7z
  imports Bounded
begin

text \<open>
  What \<open>BoundedReader::read_7z_uint\<close> computes, on every input: the value of the variable-length
  integer as a formula over its bytes, the encodings it accepts, the error on every truncation,
  and the round trip with the encoder the format describes.
\<close>

lemma or_push_bit_nat:
  assumes "a < 2 ^ n"
  shows "(of_nat a :: 'w::len word) OR push_bit n (of_nat b) = of_nat (a + 2 ^ n * b)"
proof -
  have "a OR push_bit n b = a + push_bit n b"
  proof (rule disjunctive_add_eq_or [symmetric])
    have "take_bit n a = a" using assms by (simp add: take_bit_nat_eq_self)
    then have "bit a j \<Longrightarrow> j < n" for j by (metis bit_take_bit_iff)
    then show "a AND push_bit n b = 0"
      by (intro bit_eqI) (use not_less in \<open>auto simp: bit_simps\<close>)
  qed
  then have "of_nat (a OR push_bit n b) = (of_nat (a + 2 ^ n * b) :: 'w word)"
    by (simp add: push_bit_eq_mult mult.commute)
  then show ?thesis by (simp add: of_nat_or_eq push_bit_of_nat)
qed

lemma le_bytes_simps [simp]: "le_bytes [] = 0" "le_bytes (b # bs) = unat b + 256 * le_bytes bs"
  by (simp_all add: le_bytes_def)

lemma le_bytes_append: "le_bytes (xs @ ys) = le_bytes xs + 256 ^ length xs * le_bytes ys"
  by (induction xs) (simp_all add: algebra_simps)

lemma le_bytes_bound: "le_bytes bs < 256 ^ length bs"
proof (induction bs)
  case (Cons b bs)
  have "unat b < 256" using unsigned_less [of b] by simp
  with Cons show ?case by simp
qed simp

lemma ucast_u8_u64: "(ucast (b :: u8) :: u64) = of_nat (unat b)"
  by (simp add: unsigned_ucast_eq word_unat_eq_iff take_bit_nat_eq_self_iff unsigned_of_nat)

lemma mask_bit:
  assumes "j < 8"
  shows "drop_bit j (0x80 :: u8) = 2 ^ (7 - j)"
proof -
  from assms have "j \<in> {0, 1, 2, 3, 4, 5, 6, 7}" by auto
  then show ?thesis by auto
qed

lemma low_part:
  assumes "j < 8"
  shows "unat (first AND ((2 :: u8) ^ (7 - j) - 1)) = unat first mod 2 ^ (7 - j)"
proof -
  have "first AND (2 ^ (7 - j) - 1) = take_bit (7 - j) first"
    by (simp add: take_bit_eq_mask mask_eq_exp_minus_1)
  then have "unat (first AND (2 ^ (7 - j) - 1)) = take_bit (7 - j) (unat first)"
    by (simp only: unsigned_take_bit_eq)
  then show ?thesis by (simp only: take_bit_eq_mod)
qed

lemma unat_of_nat_u64: "n < 2 ^ 64 \<Longrightarrow> unat (of_nat n :: u64) = n"
  by (simp add: unsigned_of_nat take_bit_nat_eq_self)

lemma unat_of_nat_u8: "n < 256 \<Longrightarrow> unat (of_nat n :: u8) = n"
  by (simp add: unsigned_of_nat take_bit_nat_eq_self)



lemma and_exp_u8: "(first :: u8) AND 2 ^ n = 0 \<longleftrightarrow> \<not> bit first n"
  by (simp add: and_exp_eq_0_iff_not_bit)

lemma read_u8_run:
  assumes "drop (rpos s) (rbytes s) = b # bs" "length (rbytes s) < 2 ^ 64"
  shows "read_u8 s = (Inr b, s\<lparr>rpos := Suc (rpos s)\<rparr>)"
proof -
  from assms(1) have "rpos s < length (rbytes s)"
    by (metis drop_eq_Nil linorder_not_le list.distinct(1))
  with assms have "read_u8 s = (Inr (rbytes s ! rpos s), s\<lparr>rpos := Suc (rpos s)\<rparr>)"
    by (simp add: read_u8_Inr)
  moreover from assms(1) have "rbytes s ! rpos s = b"
    by (metis Cons_nth_drop_Suc \<open>rpos s < length (rbytes s)\<close> list.inject)
  ultimately show ?thesis by simp
qed

lemma uint_top_bound:
  assumes "acc < 256 ^ k" "hi < 2 ^ (7 - k)" "k < 8"
  shows "acc + 256 ^ k * hi < (2::nat) ^ 64"
proof -
  have "acc + 256 ^ k * hi < 256 ^ k * Suc hi" using assms(1) by simp
  also have "\<dots> \<le> 256 ^ k * 2 ^ (7 - k)" using assms(2) by (intro mult_le_mono2) simp
  also have "\<dots> = 2 ^ (7 * k + 7)"
  proof -
    have "(256::nat) ^ k = 2 ^ (8 * k)" by (simp add: power_mult)
    moreover have "8 * k + (7 - k) = 7 * k + 7" using assms(3) by simp
    ultimately show ?thesis by (metis power_add)
  qed
  also have "\<dots> < 2 ^ 64" using assms(3) by (intro power_strict_increasing) auto
  finally show ?thesis .
qed

lemma pow_8: "(2::nat) ^ (8 * i) = 256 ^ i"
  by (simp add: power_mult)

lemma uint_loop_value:
  assumes "i \<le> k" "k \<le> 8"
    and ones: "\<forall>j<k. bit first (7 - j)" and zero: "k < 8 \<longrightarrow> \<not> bit first (7 - k)"
    and "acc < 256 ^ i" "length bs = k - i"
    and "drop (rpos s) (rbytes s) = bs @ post"
    and "length (rbytes s) < 2 ^ 64"
  shows "uint_loop (map (\<lambda>j. 8 * j) [i..<8]) first (drop_bit i 0x80) (of_nat acc) s =
    (Inr (acc + 256 ^ i * (le_bytes bs +
            (if k = 8 then 0 else 256 ^ (k - i) * (unat first mod 2 ^ (7 - k))))),
     s\<lparr>rpos := rpos s + (k - i)\<rparr>)"
  using assms(1,2,5-)
proof (induction "k - i" arbitrary: i acc bs s)
  case 0
  then have k: "i = k" "bs = []" by simp_all
  show ?case
  proof (cases "k = 8")
    case True
    with 0 k have "acc < 2 ^ 64" by simp
    with k True show ?thesis by (simp add: run unsigned_of_nat take_bit_nat_eq_self)
  next
    case False
    with 0 have k8: "k < 8" by simp
    let ?hi = "unat first mod 2 ^ (7 - k)"
    from k8 zero have nz: "first AND drop_bit k 0x80 = 0"
      by (simp only: mask_bit and_exp_u8) simp
    have lt: "acc + 256 ^ k * ?hi < 2 ^ 64"
      using "0.prems" k k8 by (intro uint_top_bound) simp_all
    have eq: "of_nat acc OR push_bit (8 * k) (ucast (first AND (2 ^ (7 - k) - 1)) :: u64)
        = of_nat (acc + 256 ^ k * ?hi)"
      using "0.prems" k k8
      by (simp only: ucast_u8_u64 low_part) (simp add: or_push_bit_nat power_mult)
    have "unat (of_nat acc OR push_bit (8 * k) (ucast (first AND (2 ^ (7 - k) - 1)) :: u64))
        = acc + 256 ^ k * ?hi"
      using lt by (simp only: eq unsigned_of_nat) (simp add: take_bit_nat_eq_self)
    then show ?thesis
      using k k8 nz False by (simp add: upt_conv_Cons mask_bit run)
  qed
next
  case (Suc d)
  then have ik: "i < k" "i < 8" by simp_all
  with Suc.prems obtain b bs' where bs: "bs = b # bs'" by (cases bs) simp_all
  let ?s = "s\<lparr>rpos := Suc (rpos s)\<rparr>"
  from Suc.prems bs have rd: "read_u8 s = (Inr b, ?s)" by (auto intro: read_u8_run)
  from ik ones have nz: "first AND drop_bit i 0x80 \<noteq> 0"
    by (simp only: mask_bit and_exp_u8) simp
  have b: "unat b < 256" using unsigned_less [of b] by simp
  let ?acc = "acc + 256 ^ i * unat b"
  have acc': "of_nat acc OR push_bit (8 * i) (ucast b) = (of_nat ?acc :: u64)"
    using or_push_bit_nat [of acc "8 * i" "unat b", where 'w = 64] Suc.prems
    by (simp only: ucast_u8_u64 pow_8)
  have "?acc < 256 ^ i * Suc (unat b)" using Suc.prems by simp
  also have "\<dots> \<le> 256 ^ i * 256" using b by (intro mult_le_mono2) simp
  finally have accb: "?acc < 256 ^ Suc i" by (simp add: mult.commute)
  have dr: "drop (rpos ?s) (rbytes ?s) = bs' @ post"
    using Suc.prems bs by (simp add: drop_Suc flip: tl_drop)
  let ?hi = "if k = 8 then 0 else 256 ^ (k - Suc i) * (unat first mod 2 ^ (7 - k))"
  have "uint_loop (map (\<lambda>j. 8 * j) [i..<8]) first (drop_bit i 0x80) (of_nat acc) s
      = uint_loop (map (\<lambda>j. 8 * j) [Suc i..<8]) first (drop_bit 1 (drop_bit i 0x80))
          (of_nat acc OR push_bit (8 * i) (ucast b)) ?s"
    using ik(2) by (simp only: upt_conv_Cons list.map uint_loop.simps nz if_False bind_run rd
        prod.case sum.case)
  also have "drop_bit 1 (drop_bit i (0x80 :: u8)) = drop_bit (Suc i) 0x80"
    by (simp only: drop_bit_drop_bit) simp
  also have "uint_loop (map (\<lambda>j. 8 * j) [Suc i..<8]) first (drop_bit (Suc i) 0x80)
          (of_nat acc OR push_bit (8 * i) (ucast b)) ?s
      = (Inr (?acc + 256 ^ Suc i * (le_bytes bs' + ?hi)), ?s\<lparr>rpos := rpos ?s + (k - Suc i)\<rparr>)"
    unfolding acc' using Suc.hyps(2) ik Suc.prems bs accb dr by (intro Suc.hyps(1)) simp_all
  also have "?acc + 256 ^ Suc i * (le_bytes bs' + ?hi) = acc + 256 ^ i * (le_bytes bs + 256 * ?hi)"
    by (simp add: bs algebra_simps)
  also have "256 * ?hi = (if k = 8 then 0 else 256 ^ (k - i) * (unat first mod 2 ^ (7 - k)))"
    using ik by (simp add: Suc_diff_Suc [symmetric])
  also have "?s\<lparr>rpos := rpos ?s + (k - Suc i)\<rparr> = s\<lparr>rpos := rpos s + (k - i)\<rparr>"
    using ik by simp
  finally show ?case .
qed


lemma uint_loop_short:
  assumes "\<forall>j<k. bit first (7 - j)" "k \<le> 8" "i \<le> k" "rpos s \<le> length (rbytes s)"
    "length (rbytes s) - rpos s < k - i" "length (rbytes s) < 2 ^ 63"
  shows "\<exists>t. uint_loop (map (\<lambda>j. 8 * j) [i..<8]) first (drop_bit i 0x80) v s =
    (Inl (Format ''truncated bounded byte range''), t)"
  using assms(3-)
proof (induction "k - i" arbitrary: i v s)
  case (Suc d)
  then have ik: "i < k" "i < 8" using assms(2) by simp_all
  with assms(1) have nz: "first AND drop_bit i 0x80 \<noteq> 0"
    by (simp only: mask_bit and_exp_u8) simp
  have step: "uint_loop (map (\<lambda>j. 8 * j) [i..<8]) first (drop_bit i 0x80) v s
      = bind read_u8 (\<lambda>b. uint_loop (map (\<lambda>j. 8 * j) [Suc i..<8]) first (drop_bit 1 (drop_bit i 0x80))
          (v OR push_bit (8 * i) (ucast b))) s"
    using ik(2) by (simp only: upt_conv_Cons list.map uint_loop.simps nz if_False)
  show ?case
  proof (cases "drop (rpos s) (rbytes s)")
    case Nil
    with Suc.prems have "read_u8 s = (Inl (Format ''truncated bounded byte range''), s)"
      by (simp add: read_u8_def bind_Inl read_bytes_Inl)
    then show ?thesis by (simp add: step bind_run)
  next
    case (Cons b bs)
    let ?s = "s\<lparr>rpos := Suc (rpos s)\<rparr>"
    from Cons Suc.prems have rd: "read_u8 s = (Inr b, ?s)" by (auto intro: read_u8_run)
    have "drop_bit 1 (drop_bit i (0x80 :: u8)) = drop_bit (Suc i) 0x80"
      by (simp only: drop_bit_drop_bit) simp
    moreover have "rpos s < length (rbytes s)" using Cons Suc.prems by (metis drop_all list.distinct(1) not_less)
    ultimately show ?thesis
      using Suc.hyps(1) [of "Suc i" ?s] Suc.hyps(2) Suc.prems ik
      by (simp only: step bind_run rd prod.case sum.case) simp
  qed
qed simp

section \<open>The 7z integer\<close>

definition leading_ones :: "u8 \<Rightarrow> nat" where
  "leading_ones first = length (takeWhile (\<lambda>j. bit first (7 - j)) [0..<8])"

definition uint_value :: "u8 \<Rightarrow> u8 list \<Rightarrow> nat" where
  "uint_value first bs = (let k = leading_ones first in
     le_bytes bs + (if k = 8 then 0 else 256 ^ k * (unat first mod 2 ^ (7 - k))))"

lemma leading_ones_le: "leading_ones first \<le> 8"
  using length_takeWhile_le [of _ "[0..<8]"] by (simp add: leading_ones_def)

lemma leading_ones_bits:
  "\<forall>j<leading_ones first. bit first (7 - j)"
  "leading_ones first < 8 \<longrightarrow> \<not> bit first (7 - leading_ones first)"
proof -
  show "\<forall>j<leading_ones first. bit first (7 - j)"
  proof (intro allI impI)
    fix j assume j: "j < leading_ones first"
    let ?P = "\<lambda>j. bit first (7 - j)"
    have "takeWhile ?P [0..<8] ! j = [0..<8] ! j"
      using j by (intro takeWhile_nth) (simp add: leading_ones_def)
    moreover have "takeWhile ?P [0..<8] ! j \<in> set (takeWhile ?P [0..<8])"
      using j by (simp add: leading_ones_def)
    moreover have "j < 8" using j leading_ones_le [of first] by simp
    ultimately show "bit first (7 - j)" by (auto dest!: set_takeWhileD)
  qed
  show "leading_ones first < 8 \<longrightarrow> \<not> bit first (7 - leading_ones first)"
    using nth_length_takeWhile [of "\<lambda>j. bit first (7 - j)" "[0..<8]"]
    by (simp add: leading_ones_def)
qed

lemma shifts_upt: "[0, 8, 16, 24, 32, 40, 48, 56] = map (\<lambda>j. 8 * j) [0..<8]"
  by (simp add: upt_rec)

lemma read_7z_uint_run:
  assumes "drop (rpos s) (rbytes s) = first # bs @ post" "length bs = leading_ones first"
    "length (rbytes s) < 2 ^ 64"
  shows "read_7z_uint s = (Inr (uint_value first bs), s\<lparr>rpos := rpos s + Suc (length bs)\<rparr>)"
proof -
  let ?k = "leading_ones first" and ?s = "s\<lparr>rpos := Suc (rpos s)\<rparr>"
  have "read_u8 s = (Inr first, ?s)" using assms by (auto intro: read_u8_run)
  moreover have "drop (rpos ?s) (rbytes ?s) = bs @ post"
    using assms(1) by (simp add: drop_Suc flip: tl_drop)
  then have "uint_loop (map (\<lambda>j. 8 * j) [0..<8]) first (drop_bit 0 0x80) (of_nat 0) ?s =
    (Inr (0 + 256 ^ 0 * (le_bytes bs +
       (if ?k = 8 then 0 else 256 ^ (?k - 0) * (unat first mod 2 ^ (7 - ?k))))),
     ?s\<lparr>rpos := rpos ?s + (?k - 0)\<rparr>)"
    using assms by (intro uint_loop_value leading_ones_le leading_ones_bits) simp_all
  ultimately show ?thesis
    using assms(2) by (simp add: read_7z_uint_def bind_run shifts_upt uint_value_def Let_def)
qed


lemma read_7z_uint_short:
  assumes "drop (rpos s) (rbytes s) = first # bs" "length bs < leading_ones first"
    "length (rbytes s) < 2 ^ 63"
  shows "\<exists>t. read_7z_uint s = (Inl (Format ''truncated bounded byte range''), t)"
proof -
  let ?k = "leading_ones first" and ?s = "s\<lparr>rpos := Suc (rpos s)\<rparr>"
  have "read_u8 s = (Inr first, ?s)" using assms by (auto intro: read_u8_run)
  moreover have len: "length (rbytes s) = rpos s + Suc (length bs)"
    using arg_cong [OF assms(1), of length]
    by simp
  have "\<exists>t. uint_loop (map (\<lambda>j. 8 * j) [0..<8]) first (drop_bit 0 0x80) 0 ?s =
    (Inl (Format ''truncated bounded byte range''), t)"
    using assms len by (intro uint_loop_short [where k = ?k] leading_ones_le leading_ones_bits) simp_all
  ultimately show ?thesis
    by (auto simp: read_7z_uint_def bind_run shifts_upt)
qed

text \<open>C19: Reading a 7z integer succeeds exactly when the bytes left hold a first byte followed by as
  many bytes as it has leading ones; the value is the one the format documents for them and the
  position moves past exactly those bytes, whatever the encoding's length (also overlong ones).\<close>

theorem read_7z_uint_iff:
  assumes "length (rbytes s) < 2 ^ 63" "rpos s \<le> length (rbytes s)"
  shows "read_7z_uint s = (Inr v, t) \<longleftrightarrow>
    (\<exists>first bs post. drop (rpos s) (rbytes s) = first # bs @ post \<and> length bs = leading_ones first
       \<and> v = uint_value first bs \<and> t = s\<lparr>rpos := rpos s + Suc (length bs)\<rparr>)"
    (is "?run \<longleftrightarrow> ?split")
proof
  assume ?split
  with assms show ?run by (auto simp: read_7z_uint_run)
next
  assume run: ?run
  show ?split
  proof (cases "drop (rpos s) (rbytes s)")
    case Nil
    with run show ?thesis by (auto simp: read_7z_uint_def success)
  next
    case (Cons first rest)
    let ?bs = "take (leading_ones first) rest" and ?post = "drop (leading_ones first) rest"
    have "leading_ones first \<le> length rest"
      using run read_7z_uint_short [OF Cons] assms by (fastforce simp: not_le [symmetric])
    then have sp: "drop (rpos s) (rbytes s) = first # ?bs @ ?post" "length ?bs = leading_ones first"
      using Cons by simp_all
    with read_7z_uint_run [OF sp] run assms
    have "v = uint_value first ?bs \<and> t = s\<lparr>rpos := rpos s + Suc (length ?bs)\<rparr>" by simp
    with sp show ?thesis by blast
  qed
qed

section \<open>Round trip\<close>

text \<open>The shortest encoding of a value below \<open>2 ^ 64\<close>, as the format writes it.\<close>

definition extra_bytes :: "nat \<Rightarrow> nat" where
  "extra_bytes v = length (takeWhile (\<lambda>k. 2 ^ (7 * Suc k) \<le> v) [0..<8])"

primrec le_encode :: "nat \<Rightarrow> nat \<Rightarrow> u8 list" where
  "le_encode 0 v = []"
| "le_encode (Suc n) v = of_nat (v mod 256) # le_encode n (v div 256)"

definition encode_7z_uint :: "nat \<Rightarrow> u8 list" where
  "encode_7z_uint v = (let k = extra_bytes v in
     of_nat (256 - 2 ^ (8 - k) + (if k = 8 then 0 else v div 256 ^ k)) # le_encode k v)"

lemma le_bytes_encode: "le_bytes (le_encode n v) = v mod 256 ^ n"
proof (induction n arbitrary: v)
  case (Suc n)
  have "v mod (256 * 256 ^ n) = 256 * (v div 256 mod 256 ^ n) + v mod 256"
    by (rule mod_mult2_eq)
  with Suc show ?case
    by (simp add: unsigned_of_nat take_bit_eq_mod)
qed simp

lemma length_le_encode [simp]: "length (le_encode n v) = n"
  by (induction n arbitrary: v) simp_all

lemma leading_onesI:
  assumes "\<forall>j<k. bit first (7 - j)" "k < 8 \<longrightarrow> \<not> bit first (7 - k)" "k \<le> 8"
  shows "leading_ones first = k"
proof (rule linorder_cases [of "leading_ones first" k])
  assume "leading_ones first < k"
  with assms leading_ones_bits(2) [of first] show ?thesis by auto
next
  assume "k < leading_ones first"
  with assms leading_ones_bits(1) [of first] leading_ones_le [of first] show ?thesis by auto
qed

lemma first_byte_split:
  assumes "k \<le> (8::nat)"
  shows "256 - 2 ^ (8 - k) = 2 ^ (8 - k) * (2 ^ k - 1 :: nat)"
proof -
  have "2 ^ (8 - k) * 2 ^ k = (256::nat)"
    using assms by (simp flip: power_add)
  then show ?thesis by (simp add: right_diff_distrib')
qed

lemma leading_ones_first:
  assumes "k \<le> 8" "hi < (if k = 8 then 1 else 2 ^ (7 - k))"
  shows "leading_ones (of_nat (256 - 2 ^ (8 - k) + hi)) = k"
    and "unat (of_nat (256 - 2 ^ (8 - k) + hi) :: u8) mod 2 ^ (7 - k) = (if k = 8 then 0 else hi)"
proof -
  let ?n = "2 ^ (8 - k) * (2 ^ k - 1) + hi :: nat"
  have hi: "hi < 2 ^ (8 - k)"
    using assms by (cases "k = 8") (auto elim: less_le_trans)
  then have "?n < 2 ^ (8 - k) * (2 ^ k - 1) + 2 ^ (8 - k)" by simp
  also have "\<dots> = 2 ^ (8 - k) * (2 ^ k - 1 + 1)" by (simp only: distrib_left mult_1_right)
  also have "\<dots> = 256" using assms(1) by (simp flip: power_add)
  finally have u: "unat (of_nat ?n :: u8) = ?n" by (rule unat_of_nat_u8)
  have bits: "bit (of_nat ?n :: u8) j \<longleftrightarrow> odd (?n div 2 ^ j)" for j
    using bit_unsigned_iff [of "of_nat ?n :: u8" j, where 'a = nat] unfolding u
    by (simp add: bit_iff_odd)
  have top: "?n = 2 ^ (7 - k) * (2 * (2 ^ k - 1)) + hi" if "k < 8"
    using that Suc_diff_le [of k 7] by simp
  have "leading_ones (of_nat ?n) = k"
  proof (rule leading_onesI [OF _ _ assms(1)]; intro allI impI)
    fix j assume "j < k"
    then have j: "7 - j = (8 - k) + (k - 1 - j)" using assms(1) by simp
    have "?n div 2 ^ (7 - j) = ?n div 2 ^ (8 - k) div 2 ^ (k - 1 - j)"
      unfolding j power_add by (rule div_mult2_eq)
    also have "?n div 2 ^ (8 - k) = mask k" using hi by (simp add: mask_eq_exp_minus_1)
    also have "odd (mask k div 2 ^ (k - 1 - j) :: nat)"
      using bit_mask_iff [of k "k - 1 - j", where 'a = nat] \<open>j < k\<close> by (simp add: bit_iff_odd)
    finally show "bit (of_nat ?n :: u8) (7 - j)" unfolding bits .
  next
    assume k: "k < 8"
    then have "?n div 2 ^ (7 - k) = 2 * (2 ^ k - 1)"
      using assms(2) unfolding top [OF k] by simp
    then show "\<not> bit (of_nat ?n :: u8) (7 - k)" unfolding bits by simp
  qed
  then show "leading_ones (of_nat (256 - 2 ^ (8 - k) + hi)) = k"
    by (simp only: first_byte_split [OF assms(1)])
  have "?n mod 2 ^ (7 - k) = (if k = 8 then 0 else hi)"
  proof (cases "k = 8")
    case False
    with assms have k: "k < 8" by simp
    show ?thesis using assms(2) False unfolding top [OF k] by simp
  qed simp
  then show "unat (of_nat (256 - 2 ^ (8 - k) + hi) :: u8) mod 2 ^ (7 - k) = (if k = 8 then 0 else hi)"
    by (simp only: first_byte_split [OF assms(1)] u)
qed

lemma extra_bytes_bounds:
  assumes "v < 2 ^ 64"
  shows "extra_bytes v \<le> 8" "extra_bytes v < 8 \<longrightarrow> v < 2 ^ (7 * Suc (extra_bytes v))"
    "v < 256 ^ extra_bytes v * (if extra_bytes v = 8 then 1 else 2 ^ (7 - extra_bytes v))"
proof -
  show le: "extra_bytes v \<le> 8"
    using length_takeWhile_le [of _ "[0..<8]"] by (simp add: extra_bytes_def)
  show small: "extra_bytes v < 8 \<longrightarrow> v < 2 ^ (7 * Suc (extra_bytes v))"
    using nth_length_takeWhile [of "\<lambda>k. 2 ^ (7 * Suc k) \<le> v" "[0..<8]"]
    by (auto simp add: extra_bytes_def not_le)
  show "v < 256 ^ extra_bytes v * (if extra_bytes v = 8 then 1 else 2 ^ (7 - extra_bytes v))"
  proof (cases "extra_bytes v = 8")
    case True
    with assms show ?thesis by simp
  next
    case False
    with le small have lt: "v < 2 ^ (7 * Suc (extra_bytes v))" and k: "extra_bytes v < 8" by auto
    have "7 * Suc (extra_bytes v) = 8 * extra_bytes v + (7 - extra_bytes v)" using k by simp
    then have "(2::nat) ^ (7 * Suc (extra_bytes v)) = 256 ^ extra_bytes v * 2 ^ (7 - extra_bytes v)"
      by (simp only: power_add pow_8)
    with lt False show ?thesis by simp
  qed
qed

lemma uint_value_encode:
  assumes "v < 2 ^ 64"
  shows "\<exists>first bs. encode_7z_uint v = first # bs \<and> length bs = leading_ones first
    \<and> uint_value first bs = v"
proof -
  let ?k = "extra_bytes v"
  let ?hi = "if ?k = 8 then 0 else v div 256 ^ ?k"
  let ?first = "of_nat (256 - 2 ^ (8 - ?k) + ?hi) :: u8"
  note b = extra_bytes_bounds [OF assms]
  have hi: "?hi < (if ?k = 8 then 1 else 2 ^ (7 - ?k))"
    using b(3) by (auto simp: less_mult_imp_div_less mult.commute)
  note f = leading_ones_first [OF b(1) hi]
  have "uint_value ?first (le_encode ?k v) = v mod 256 ^ ?k + (if ?k = 8 then 0 else 256 ^ ?k * ?hi)"
    unfolding uint_value_def Let_def f le_bytes_encode by simp
  also have "\<dots> = v"
    using b(3) by auto
  finally show ?thesis
    using f(1) by (auto simp: encode_7z_uint_def Let_def)
qed

text \<open>C20: Every 64-bit value written in its shortest encoding, anywhere in a slice, is read back
  as that value, and the reader stops right behind the encoding.\<close>

theorem read_7z_uint_encode:
  assumes "v < 2 ^ 64" "rbytes s = pre @ encode_7z_uint v @ post" "rpos s = length pre"
    "length (rbytes s) < 2 ^ 63"
  shows "read_7z_uint s = (Inr v, s\<lparr>rpos := length (pre @ encode_7z_uint v)\<rparr>)"
proof -
  obtain first bs where e: "encode_7z_uint v = first # bs" "length bs = leading_ones first"
    "uint_value first bs = v"
    using uint_value_encode [OF assms(1)] by blast
  with assms have "read_7z_uint s = (Inr (uint_value first bs), s\<lparr>rpos := rpos s + Suc (length bs)\<rparr>)"
    by (intro read_7z_uint_run [where post = post]) simp_all
  with e assms show ?thesis by simp
qed


theorem read_7z_uint_encode_witness:
  "encode_7z_uint 16384 = [0xc0, 0x00, 0x40]
   \<and> fst (read_7z_uint (control.extend unlimited (reader.fields [0xaa, 0xc0, 0x00, 0x40, 0x01] 1)))
      = Inr 16384"
proof -
  have "extra_bytes 16384 = 2"
    by (simp add: extra_bytes_def upt_rec)
  moreover have "le_encode 2 16384 = [0x00, 0x40]"
    by (simp add: numeral_2_eq_2)
  ultimately have e: "encode_7z_uint 16384 = [0xc0, 0x00, 0x40]"
    by (simp add: encode_7z_uint_def Let_def)
  show ?thesis
    using read_7z_uint_encode [of 16384 "control.extend unlimited (reader.fields [0xaa, 0xc0, 0x00, 0x40, 0x01] 1)"
        "[0xaa]" "[0x01]"] e
    by (simp add: control.defs reader.defs)
qed

theorem read_7z_uint_iff_witness:
  "read_7z_uint (control.extend unlimited (reader.fields [0x80, 0x05] 0)) =
     (Inr 5, control.extend unlimited (reader.fields [0x80, 0x05] 2))"
proof -
  let ?s = "control.extend unlimited (reader.fields [0x80, 0x05] 0)"
  let ?t = "control.extend unlimited (reader.fields [0x80, 0x05] 2)"
  have k: "leading_ones 0x80 = 1"
    by (simp add: leading_ones_def upt_rec)
  have "drop (rpos ?s) (rbytes ?s) = 0x80 # [0x05] @ [] \<and> length [0x05 :: u8] = leading_ones 0x80
    \<and> (5::nat) = uint_value 0x80 [0x05] \<and> ?t = ?s\<lparr>rpos := rpos ?s + Suc (length [0x05 :: u8])\<rparr>"
    by (simp add: control.defs reader.defs uint_value_def k)
  then have "\<exists>first bs post. drop (rpos ?s) (rbytes ?s) = first # bs @ post
    \<and> length bs = leading_ones first \<and> 5 = uint_value first bs
    \<and> ?t = ?s\<lparr>rpos := rpos ?s + Suc (length bs)\<rparr>"
    by blast
  then show ?thesis
    by (subst read_7z_uint_iff) (simp_all add: control.defs reader.defs)
qed

end
