(* ===== verification/PackRanges.thy ===== *)
theory PackRanges
  imports ValidateFacts "HOL-Library.Multiset"
begin

text \<open>
  Where the packed streams of an accepted header lie: inside the archive, behind the signature
  header, in front of the stored next header, and no two on top of each other, in one section or
  across both.
\<close>

section \<open>The overlap check\<close>

definition apart :: "nat \<times> nat \<Rightarrow> nat \<times> nat \<Rightarrow> bool" where
  "apart a b \<longleftrightarrow> snd a \<le> fst b \<or> snd b \<le> fst a"

definition nonempty_ranges :: "(nat \<times> nat) list \<Rightarrow> bool" where
  "nonempty_ranges rs \<longleftrightarrow> (\<forall>r\<in>set rs. fst r < snd r)"

lemma nonempty_append: "nonempty_ranges (rs @ qs) \<longleftrightarrow> nonempty_ranges rs \<and> nonempty_ranges qs"
  by (auto simp: nonempty_ranges_def)

lemma sorted_check_run:
  "nonempty_ranges rs \<Longrightarrow> sorted_check rs prev s = (Inr x, t) \<longleftrightarrow>
     t = s \<and> sorted_wrt (\<lambda>a b. snd a \<le> fst b) rs \<and> (\<forall>v. prev = Some v \<longrightarrow> (\<forall>r\<in>set rs. v \<le> fst r))"
proof (induction rs arbitrary: prev)
  case Nil
  then show ?case by (auto simp: success)
next
  case (Cons r rs)
  then have r: "fst r < snd r" and rs: "nonempty_ranges rs" by (simp_all add: nonempty_ranges_def)
  have "sorted_check (r # rs) prev s = (Inr x, t) \<longleftrightarrow>
      (case prev of None \<Rightarrow> True | Some v \<Rightarrow> v \<le> fst r) \<and> t = s
      \<and> sorted_wrt (\<lambda>a b. snd a \<le> fst b) rs \<and> (\<forall>q\<in>set rs. snd r \<le> fst q)"
    using Cons.IH [OF rs, of "Some (snd r)"] by (auto simp: success)
  also have "\<dots> \<longleftrightarrow> t = s \<and> sorted_wrt (\<lambda>a b. snd a \<le> fst b) (r # rs)
      \<and> (\<forall>v. prev = Some v \<longrightarrow> (\<forall>q\<in>set (r # rs). v \<le> fst q))"
    using r by (cases prev) fastforce+
  finally show ?case .
qed

lemma sorted_wrt_permute:
  assumes "mset xs = mset ys" "\<And>a b. R a b \<Longrightarrow> R b a"
  shows "sorted_wrt R xs \<longleftrightarrow> sorted_wrt R ys"
  using assms(1)
proof (induction xs arbitrary: ys)
  case Nil
  then show ?case by simp
next
  case (Cons x xs)
  have "x \<in> set ys" using mset_eq_setD [OF Cons.prems] by auto
  then obtain l r where ys: "ys = l @ x # r" by (meson split_list)
  with Cons.prems have "mset xs = mset (l @ r)" by simp
  then have IH: "sorted_wrt R xs \<longleftrightarrow> sorted_wrt R (l @ r)" by (rule Cons.IH)
  have set: "set xs = set l \<union> set r"
    using mset_eq_setD [OF \<open>mset xs = mset (l @ r)\<close>] by simp
  have sym: "R x y \<longleftrightarrow> R y x" for y using assms(2) by blast
  have "sorted_wrt R (x # xs) \<longleftrightarrow> (\<forall>y\<in>set l. R x y) \<and> (\<forall>y\<in>set r. R x y) \<and> sorted_wrt R (l @ r)"
    using IH set by auto
  also have "\<dots> \<longleftrightarrow> sorted_wrt R ys"
    unfolding ys sorted_wrt_append by (auto simp: sym)
  finally show ?case .
qed

lemma sorted_apart:
  assumes "sorted (map fst rs)" "nonempty_ranges rs"
  shows "sorted_wrt (\<lambda>a b. snd a \<le> fst b) rs \<longleftrightarrow> sorted_wrt apart rs"
  using assms
  by (induction rs) (auto simp: apart_def nonempty_ranges_def, fastforce)

lemma sorted_check_exact:
  assumes "mset rs' = mset rs" "sorted (map fst rs')" "nonempty_ranges rs"
  shows "fst (sorted_check rs' None s) = Inr () \<longleftrightarrow> sorted_wrt apart rs"
proof -
  have "nonempty_ranges rs'"
    using assms(1,3) mset_eq_setD by (fastforce simp: nonempty_ranges_def)
  moreover have "sorted_wrt apart rs' \<longleftrightarrow> sorted_wrt apart rs"
    using assms(1) by (rule sorted_wrt_permute) (auto simp: apart_def)
  ultimately show ?thesis
    using sorted_check_run [of rs' None s] sorted_apart [OF assms(2)]
    by (cases "sorted_check rs' None s") auto
qed

lemma check_ranges_Inr:
  assumes "check_non_overlapping_ranges rs s = (Inr x, t)" "nonempty_ranges rs"
  shows "sorted_wrt apart rs"
  using assms sorted_check_exact [of "sort_key fst rs" rs s]
  by (simp add: check_non_overlapping_ranges_def)

section \<open>One section\<close>

primrec laid_out :: "nat \<Rightarrow> nat list \<Rightarrow> pack_stream list \<Rightarrow> bool" where
  "laid_out off [] ps \<longleftrightarrow> ps = []"
| "laid_out off (n # ns) ps \<longleftrightarrow>
     (\<exists>q qs. ps = q # qs \<and> ps_offset q = off \<and> ps_size q = Some n \<and> laid_out (off + n) ns qs)"

definition stream_range :: "pack_stream \<Rightarrow> nat \<times> nat" where
  "stream_range p = (ps_offset p, ps_offset p + (case ps_size p of None \<Rightarrow> 0 | Some n \<Rightarrow> n))"

text \<open>The byte ranges of consecutive streams, from their sizes alone.\<close>

primrec extents :: "nat \<Rightarrow> nat list \<Rightarrow> (nat \<times> nat) list" where
  "extents off [] = []"
| "extents off (n # ns) = (off, off + n) # extents (off + n) ns"

lemma laid_out_extents: "laid_out off ns ps \<Longrightarrow> map stream_range ps = extents off ns"
  by (induction ns arbitrary: off ps) (auto simp: stream_range_def)

lemma laid_out_within:
  "laid_out off ns ps \<Longrightarrow> p \<in> set ps \<Longrightarrow>
     off \<le> fst (stream_range p) \<and> snd (stream_range p) \<le> off + sum_list ns"
proof (induction ns arbitrary: off ps)
  case (Cons n ns)
  then obtain q qs where "ps = q # qs" "ps_offset q = off" "ps_size q = Some n" "laid_out (off + n) ns qs"
    by auto
  with Cons.IH [of "off + n" qs] Cons.prems show ?case by (auto simp: stream_range_def)
qed simp

lemma laid_out_apart: "laid_out off ns ps \<Longrightarrow> sorted_wrt (\<lambda>p q. apart (stream_range p) (stream_range q)) ps"
proof (induction ns arbitrary: off ps)
  case (Cons n ns)
  then obtain q qs where ps: "ps = q # qs" "ps_offset q = off" "ps_size q = Some n"
    and rest: "laid_out (off + n) ns qs" by auto
  have "apart (stream_range q) (stream_range p)" if "p \<in> set qs" for p
    using laid_out_within [OF rest that] ps by (simp add: apart_def stream_range_def)
  with ps Cons.IH [OF rest] show ?case by simp
qed simp

definition stored_inside :: "header_envelope \<Rightarrow> u8 list \<Rightarrow> pack_stream \<Rightarrow> bool" where
  "stored_inside env bytes p \<longleftrightarrow> (\<exists>n. ps_size p = Some n
     \<and> he_signature_offset env + FIXED_HEADER_SIZE \<le> ps_offset p
     \<and> ps_offset p + n \<le> he_next_header_offset env \<and> ps_offset p + n \<le> length bytes)"

lemma pack_loop_post:
  "pack_loop sizes i crcs env bytes off s = (Inr (ps, end_at), t) \<Longrightarrow>
     laid_out off sizes ps \<and> end_at = off + sum_list sizes
     \<and> (he_signature_offset env + FIXED_HEADER_SIZE \<le> off \<longrightarrow> (\<forall>p\<in>set ps. stored_inside env bytes p))"
proof (induction sizes arbitrary: i off s ps)
  case Nil
  then show ?case by (auto simp: success)
next
  case (Cons n ns)
  then obtain u qs crc where ps: "ps = \<lparr>ps_offset = off, ps_size = Some n, ps_crc = flatten crc\<rparr> # qs"
    and le: "off + n \<le> he_next_header_offset env" "off + n \<le> length bytes"
    and rest: "pack_loop ns (Suc i) crcs env bytes (off + n) u = (Inr (qs, end_at), t)"
    by (auto simp: success)
  with Cons.IH [OF rest] show ?case by (auto simp: stored_inside_def)
qed

text \<open>A section contributes at most one range, which holds all its streams.\<close>

definition section_range :: "header_envelope \<Rightarrow> u8 list \<Rightarrow> pack_stream list \<Rightarrow> (nat \<times> nat) list \<Rightarrow> bool" where
  "section_range env bytes ps rs \<longleftrightarrow>
     (\<forall>p\<in>set ps. stored_inside env bytes p)
     \<and> sorted_wrt (\<lambda>p q. apart (stream_range p) (stream_range q)) ps
     \<and> nonempty_ranges rs
     \<and> (\<forall>p\<in>set ps. fst (stream_range p) = snd (stream_range p)
          \<or> (\<exists>r\<in>set rs. fst r \<le> fst (stream_range p) \<and> snd (stream_range p) \<le> snd r))"

lemma section_range_Nil [simp]: "section_range env bytes [] []"
  by (simp add: section_range_def nonempty_ranges_def)

text \<open>Where the raw records put the streams of a section.\<close>

definition pack_extents :: "header_envelope \<Rightarrow> raw_pack_info option \<Rightarrow> (nat \<times> nat) list" where
  "pack_extents env pack = (case pack of
       None \<Rightarrow> []
     | Some p \<Rightarrow> (case rp_sizes p of
         None \<Rightarrow> []
       | Some sizes \<Rightarrow> extents (he_signature_offset env + FIXED_HEADER_SIZE + rp_position p) sizes))"

lemma pack_extents_None [simp]: "pack_extents env None = []"
  by (simp add: pack_extents_def)

lemma validate_pack_ranges_post:
  fixes s :: "'z control_scheme"
  assumes "validate_pack_ranges pack env bytes ranges s = (Inr ((position, ps), ranges'), t)"
  shows "\<exists>rs. ranges' = ranges @ rs \<and> section_range env bytes ps rs \<and> map stream_range ps = pack_extents env pack"
proof (cases pack)
  case None
  with assms show ?thesis by (auto simp: validate_pack_ranges_def pack_extents_def success)
next
  case (Some p)
  let ?base = "he_signature_offset env + FIXED_HEADER_SIZE + rp_position p"
  from assms Some obtain sizes end_at and u v w :: "'z control_scheme" where
    sizes: "rp_sizes p = Some sizes"
    and run: "pack_loop sizes 0 (rp_crcs p) env bytes ?base u = (Inr (ps, end_at), v)"
    and push: "push_range ranges ?base end_at v = (Inr ranges', w)"
    by (auto simp: validate_pack_ranges_def success)
  have ranges': "ranges' = (if end_at > ?base then ranges @ [(?base, end_at)] else ranges)"
    using push by (auto simp: push_range_def success split: if_splits)
  note post = pack_loop_post [OF run]
  have out: "laid_out ?base sizes ps" and e: "end_at = ?base + sum_list sizes" using post by simp_all
  have inside: "\<forall>p\<in>set ps. stored_inside env bytes p" using post by simp
  have extents: "map stream_range ps = pack_extents env pack"
    using laid_out_extents [OF out] Some sizes by (simp add: pack_extents_def)
  have within: "?base \<le> fst (stream_range p) \<and> snd (stream_range p) \<le> end_at" if "p \<in> set ps" for p
    using laid_out_within [OF out that] e by simp
  show ?thesis
  proof (cases "end_at > ?base")
    case True
    then have "nonempty_ranges [(?base, end_at)]" by (simp add: nonempty_ranges_def)
    with True inside laid_out_apart [OF out] within ranges' extents show ?thesis
      by (auto simp: section_range_def)
  next
    case False
    have "fst (stream_range p) = snd (stream_range p)" if "p \<in> set ps" for p
      using within [OF that] False by (simp add: stream_range_def)
    with False inside laid_out_apart [OF out] ranges' extents show ?thesis
      by (auto simp: section_range_def nonempty_ranges_def)
  qed
qed

lemma validate_streams_post:
  assumes "validate_streams raw env bytes lim ranges s = (Inr (info, ranges'), t)"
  shows "\<exists>rs. ranges' = ranges @ rs \<and> section_range env bytes (si_pack_streams info) rs
    \<and> map stream_range (si_pack_streams info) = pack_extents env (ri_pack raw)"
  using assms
  by (auto simp: validate_streams_def success Let_def dest!: validate_pack_ranges_post)


section \<open>The whole header\<close>

definition streams_of :: "streams_info option \<Rightarrow> pack_stream list" where
  "streams_of info = (case info of None \<Rightarrow> [] | Some i \<Rightarrow> si_pack_streams i)"

text \<open>The packed streams a next header brings into use.\<close>

definition parsed_pack_streams :: "parsed_next_header \<Rightarrow> pack_stream list" where
  "parsed_pack_streams parsed = (case parsed of
       ParsedHeader h \<Rightarrow> streams_of (ah_additional_streams h) @ streams_of (ah_main_streams h)
     | ParsedEncodedHeader info \<Rightarrow> si_pack_streams info
     | ParsedPendingExternalFolders f \<Rightarrow> si_pack_streams (pf_additional_streams f))"

text \<open>The packed streams a raw header declares, in every section, with the main one of external folders.\<close>

definition header_packs :: "raw_next_header \<Rightarrow> raw_pack_info option list" where
  "header_packs raw = (case raw of
       RawHeader h \<Rightarrow> [Option.bind (rh_additional_streams h) ri_pack, Option.bind (rh_main_streams h) ri_pack]
     | RawEncoded e \<Rightarrow> [ri_pack e]
     | RawExternalFolders x \<Rightarrow> [ri_pack (re_additional_streams x), re_main_pack x])"

definition declared_extents :: "header_envelope \<Rightarrow> raw_next_header \<Rightarrow> (nat \<times> nat) list" where
  "declared_extents env raw = concat (map (pack_extents env) (header_packs raw))"

definition stream_bytes :: "pack_stream \<Rightarrow> nat set" where
  "stream_bytes p = {fst (stream_range p)..<snd (stream_range p)}"

definition stored_apart :: "pack_stream \<Rightarrow> pack_stream \<Rightarrow> bool" where
  "stored_apart p q \<longleftrightarrow> stream_bytes p \<inter> stream_bytes q = {}"

lemma apart_stored: "apart (stream_range p) (stream_range q) \<Longrightarrow> stored_apart p q"
  by (auto simp: apart_def stored_apart_def stream_bytes_def)

lemma stream_bytes_in_range:
  assumes "section_range env bytes ps rs" "p \<in> set ps" "x \<in> stream_bytes p"
  obtains r where "r \<in> set rs" "fst r \<le> x" "x < snd r"
  using assms by (fastforce simp: section_range_def stream_bytes_def)

lemma sections_apart:
  assumes "section_range env bytes ps rs" "section_range env bytes qs rs'"
    and "sorted_wrt apart (rs @ rs')"
  shows "sorted_wrt stored_apart (ps @ qs)"
proof -
  have "sorted_wrt stored_apart ps" "sorted_wrt stored_apart qs"
    using assms(1,2) by (auto simp: section_range_def intro: sorted_wrt_mono_rel [OF apart_stored])
  moreover have "stored_apart p q" if p: "p \<in> set ps" and q: "q \<in> set qs" for p q
  proof (rule ccontr)
    assume "\<not> stored_apart p q"
    then obtain x where "x \<in> stream_bytes p" "x \<in> stream_bytes q" by (auto simp: stored_apart_def)
    then obtain r r' where "r \<in> set rs" "fst r \<le> x" "x < snd r" "r' \<in> set rs'" "fst r' \<le> x" "x < snd r'"
      using stream_bytes_in_range [OF assms(1) p] stream_bytes_in_range [OF assms(2) q] by metis
    moreover from this have "apart r r'" using assms(3) by (simp add: sorted_wrt_append)
    ultimately show False by (simp add: apart_def)
  qed
  ultimately show ?thesis by (simp add: sorted_wrt_append)
qed

lemma optional_streams_post:
  assumes "optional_streams raw env bytes lim ranges s = (Inr (info, ranges'), t)"
  shows "\<exists>rs. ranges' = ranges @ rs \<and> section_range env bytes (streams_of info) rs
    \<and> map stream_range (streams_of info) = pack_extents env (Option.bind raw ri_pack)"
  using assms
  by (auto simp: optional_streams_def success streams_of_def dest!: validate_streams_post)

lemma section_range_nonempty: "section_range env bytes ps rs \<Longrightarrow> nonempty_ranges rs"
  by (simp add: section_range_def)

lemma section_range_inside: "section_range env bytes ps rs \<Longrightarrow> \<forall>p\<in>set ps. stored_inside env bytes p"
  by (simp add: section_range_def)

lemma one_section:
  assumes "section_range env bytes ps rs" "sorted_wrt apart rs"
  shows "(\<forall>p\<in>set ps. stored_inside env bytes p) \<and> sorted_wrt stored_apart ps"
  using sections_apart [OF assms(1) section_range_Nil] assms
  by (simp add: section_range_inside)


text \<open>The streams of an accepted header, those that are only checked included.\<close>

lemma next_header_streams:
  assumes "validate_next_header raw env bytes lim s = (Inr parsed, t)"
  shows "\<exists>ps. map stream_range ps = declared_extents env raw \<and> (\<forall>p\<in>set ps. stored_inside env bytes p)
    \<and> sorted_wrt stored_apart ps \<and> (\<exists>qs. ps = parsed_pack_streams parsed @ qs)"
proof (cases raw)
  case (RawHeader header)
  with assms obtain a m ranges ranges' h and u v w v1 v2 :: control where
    a: "optional_streams (rh_additional_streams header) env bytes lim [] u = (Inr (a, ranges), v)"
    and m: "optional_streams (rh_main_streams header) env bytes lim ranges v = (Inr (m, ranges'), w)"
    and c: "check_non_overlapping_ranges ranges' v1 = (Inr (), v2)"
    and h: "parsed = ParsedHeader h" "ah_additional_streams h = a" "ah_main_streams h = m"
    by (auto simp: validate_next_header_def validate_plain_header_def success)
  obtain rs where rs: "ranges = rs" "section_range env bytes (streams_of a) rs"
    and ea: "map stream_range (streams_of a) = pack_extents env (Option.bind (rh_additional_streams header) ri_pack)"
    using optional_streams_post [OF a] by auto
  obtain rs' where rs': "ranges' = rs @ rs'" "section_range env bytes (streams_of m) rs'"
    and em: "map stream_range (streams_of m) = pack_extents env (Option.bind (rh_main_streams header) ri_pack)"
    using optional_streams_post [OF m] rs by auto
  have "nonempty_ranges ranges'"
    using section_range_nonempty [OF rs(2)] section_range_nonempty [OF rs'(2)] rs'(1)
    by (simp add: nonempty_append)
  then have "sorted_wrt apart (rs @ rs')" using check_ranges_Inr [OF c] rs'(1) by simp
  then show ?thesis
    using sections_apart [OF rs(2) rs'(2)] section_range_inside [OF rs(2)] section_range_inside [OF rs'(2)] ea em
    by (intro exI [of _ "streams_of a @ streams_of m"])
      (auto simp: parsed_pack_streams_def h declared_extents_def header_packs_def RawHeader)
next
  case (RawExternalFolders pending)
  with assms obtain info ranges q ranges' f and u v w v1 v2 :: control where
    a: "validate_streams (re_additional_streams pending) env bytes lim [] u = (Inr (info, ranges), v)"
    and m: "validate_pack_ranges (re_main_pack pending) env bytes ranges v = (Inr (q, ranges'), w)"
    and c: "check_non_overlapping_ranges ranges' v1 = (Inr (), v2)"
    and f: "parsed = ParsedPendingExternalFolders f" "pf_additional_streams f = info"
    by (auto simp: validate_next_header_def success)
  obtain rs where rs: "ranges = rs" "section_range env bytes (si_pack_streams info) rs"
    and ea: "map stream_range (si_pack_streams info) = pack_extents env (ri_pack (re_additional_streams pending))"
    using validate_streams_post [OF a] by auto
  obtain rs' where rs': "ranges' = rs @ rs'" "section_range env bytes (snd q) rs'"
    and em: "map stream_range (snd q) = pack_extents env (re_main_pack pending)"
    using validate_pack_ranges_post [of "re_main_pack pending" env bytes ranges v "fst q" "snd q" ranges' w] m rs
    by auto
  have "nonempty_ranges ranges'"
    using section_range_nonempty [OF rs(2)] section_range_nonempty [OF rs'(2)] rs'(1)
    by (simp add: nonempty_append)
  then have "sorted_wrt apart (rs @ rs')" using check_ranges_Inr [OF c] rs'(1) by simp
  then show ?thesis
    using sections_apart [OF rs(2) rs'(2)] section_range_inside [OF rs(2)] section_range_inside [OF rs'(2)] ea em
    by (intro exI [of _ "si_pack_streams info @ snd q"])
      (auto simp: parsed_pack_streams_def f declared_extents_def header_packs_def RawExternalFolders)
next
  case (RawEncoded streams)
  with assms obtain info ranges and u v v1 v2 :: control where
    a: "validate_streams streams env bytes lim [] u = (Inr (info, ranges), v)"
    and c: "check_non_overlapping_ranges ranges v1 = (Inr (), v2)"
    and p: "parsed = ParsedEncodedHeader info"
    by (auto simp: validate_next_header_def success)
  obtain rs where rs: "ranges = rs" "section_range env bytes (si_pack_streams info) rs"
    and ea: "map stream_range (si_pack_streams info) = pack_extents env (ri_pack streams)"
    using validate_streams_post [OF a] by auto
  then have "sorted_wrt apart rs"
    using check_ranges_Inr [OF c] section_range_nonempty [OF rs(2)] by simp
  with one_section [OF rs(2)] ea show ?thesis
    by (intro exI [of _ "si_pack_streams info"])
      (simp add: parsed_pack_streams_def p declared_extents_def header_packs_def RawEncoded)
qed

lemma next_header_streams_apart:
  assumes "validate_next_header raw env bytes lim s = (Inr parsed, t)"
  shows "(\<forall>p\<in>set (parsed_pack_streams parsed). stored_inside env bytes p)
    \<and> sorted_wrt stored_apart (parsed_pack_streams parsed)"
  using next_header_streams [OF assms] by (auto simp: sorted_wrt_append)










end
