(* ===== verification/Envelope.thy ===== *)
theory Envelope
  imports ParserFacts Uint7z PackRanges
begin

text \<open>
  The envelope parser against the archive writer of its tests (\<open>make_archive\<close> in \<open>parser.rs\<close>), what
  an accepted archive promises as a whole, and the agreement of the volume probe with the parser.
\<close>

section \<open>Writing and reading back\<close>

text \<open>
  The checksum of the start fields cannot fail (C21), so the writer has no error path here.
\<close>

definition make_archive ::
  "u8 list \<Rightarrow> u8 \<Rightarrow> u8 \<Rightarrow> nat \<Rightarrow> nat \<Rightarrow> u32 \<Rightarrow> u8 list \<Rightarrow> u8 list" where
  "make_archive prefix major minor next_offset next_size next_crc trailing_bytes =
     (let start_fields = le_encode 8 next_offset @ le_encode 8 next_size @ le_encode 4 (unat next_crc);
          start_crc = crc_finalize (snd (crc_update start_fields crc_new)) in
      prefix @ SIGNATURE @ [major, minor] @ le_encode 4 (unat start_crc) @ start_fields @ trailing_bytes)"

definition make_plain_archive :: "u8 list \<Rightarrow> u8 list \<Rightarrow> u8 list" where
  "make_plain_archive prefix header =
     make_archive prefix 0 4 0 (length header) (crc_finalize (snd (crc_update header crc_new))) header"

lemma crc_checksum: "crc_finalize (snd (crc_update bytes crc_new)) = crc_ref bytes"
  by (simp add: crc_update_fold crc_finalize_def crc_new_def crc_ref_def)

lemma slice_append: "slice (xs @ ys) (length xs + i) n = slice ys i n"
  by (simp add: slice_def)

lemma u32_encoded: "of_nat (le_bytes (le_encode 4 (unat c))) = (c :: u32)"
proof -
  have "unat c < 4294967296" using unsigned_less [of c] by simp
  then show ?thesis by (simp add: le_bytes_encode)
qed

text \<open>The fields of a written archive, read at its signature.\<close>

lemma make_archive_fields:
  fixes prefix trailing_bytes major minor next_offset next_size next_crc
  defines "bytes \<equiv> make_archive prefix major minor next_offset next_size next_crc trailing_bytes"
    and "p \<equiv> length prefix"
  assumes "next_offset < 2 ^ 64" "next_size < 2 ^ 64"
  shows "length bytes = p + 32 + length trailing_bytes" "slice bytes p 6 = SIGNATURE"
    "bytes ! (p + 6) = major" "bytes ! (p + 7) = minor"
    "u32_at bytes (p + 8) = crc_ref (slice bytes (p + 12) 20)"
    "u64_at bytes (p + 12) = next_offset" "u64_at bytes (p + 20) = next_size"
    "u32_at bytes (p + 28) = next_crc" "drop (p + 32) bytes = trailing_bytes"
proof -
  let ?fields = "le_encode 8 next_offset @ le_encode 8 next_size @ le_encode 4 (unat next_crc)"
  let ?tail = "SIGNATURE @ [major, minor] @ le_encode 4 (unat (crc_ref ?fields)) @ ?fields @ trailing_bytes"
  have bytes: "bytes = prefix @ ?tail"
    by (simp add: bytes_def make_archive_def Let_def crc_checksum)
  have sig: "length SIGNATURE = 6" by (simp add: SIGNATURE_def)
  have at: "slice bytes (p + i) n = slice ?tail i n" "bytes ! (p + i) = ?tail ! i" for i n
    unfolding bytes p_def by (simp_all only: slice_append nth_append_length_plus)
  show "length bytes = p + 32 + length trailing_bytes" by (simp add: bytes p_def sig)
  show "slice bytes p 6 = SIGNATURE" using at(1) [of 0 6] by (simp add: slice_def sig)
  show "bytes ! (p + 6) = major" "bytes ! (p + 7) = minor"
    by (simp_all only: at) (simp_all add: nth_append sig)
  have fields: "slice ?tail 12 20 = ?fields" by (simp add: slice_def sig)
  have start: "slice ?tail 8 4 = le_encode 4 (unat (crc_ref ?fields))" by (simp add: slice_def sig)
  show "u32_at bytes (p + 8) = crc_ref (slice bytes (p + 12) 20)"
    by (simp only: u32_at_def at fields start u32_encoded)
  have "slice ?tail 12 8 = le_encode 8 next_offset" "slice ?tail 20 8 = le_encode 8 next_size"
    "slice ?tail 28 4 = le_encode 4 (unat next_crc)"
    by (simp_all add: slice_def sig)
  then show "u64_at bytes (p + 12) = next_offset" "u64_at bytes (p + 20) = next_size"
    "u32_at bytes (p + 28) = next_crc"
    using assms(3,4) by (simp_all only: u64_at_def u32_at_def at u32_encoded) (simp_all add: le_bytes_encode)
  show "drop (p + 32) bytes = trailing_bytes" by (simp add: bytes p_def sig)
qed


lemma upt_split_at: "p < n \<Longrightarrow> [0..<n] = [0..<p] @ p # [Suc p..<n]"
  using upt_add_eq_append [of 0 p "n - p"] upt_conv_Cons [of p n] by simp

text \<open>C5: Reading back what the writer of the tests produces: an archive written with a non-empty plain
  or encoded header behind any stub that holds no signature (within the scan limit) is parsed to the
  envelope it was written with, unless the run is cancelled or out of budget; the stub may be empty.\<close>

theorem make_plain_archive_parses:
  fixes prefix header lim
  defines "bytes \<equiv> make_plain_archive prefix header"
  assumes header: "header \<noteq> []" "hd header \<in> {ID_HEADER, ID_ENCODED_HEADER}"
    and limits: "length header \<le> max_header_bytes lim" "length bytes \<le> max_total_input_bytes lim"
      "length prefix \<le> sfx_scan_limit lim" "length bytes < 2 ^ 64"
    and stub: "\<forall>i<length prefix. slice bytes i 6 \<noteq> SIGNATURE"
  shows "case parse_archive_header bytes lim s of
      (Inr env, _) \<Rightarrow> env = \<lparr>he_signature_offset = length prefix,
        he_version = \<lparr>av_major = 0, av_minor = 4\<rparr>,
        he_next_header_offset = length prefix + 32, he_next_header_size = length header,
        he_next_header_crc = crc_ref header,
        he_next_header_kind = (if hd header = ID_HEADER then KindHeader else KindEncodedHeader)\<rparr>
    | (Inl e, _) \<Rightarrow> resource_error e"
proof -
  let ?p = "length prefix"
  have small: "length header < 2 ^ 64"
    using limits(4) by (simp add: bytes_def make_plain_archive_def make_archive_def Let_def)
  note fields = make_archive_fields [of 0 "length header" prefix 0 4
      "crc_finalize (snd (crc_update header crc_new))" header, folded make_plain_archive_def bytes_def,
      OF _ small, simplified crc_checksum]
  have "drop (?p + 32) bytes ! 0 = hd header" using fields(9) header by (simp add: hd_conv_nth)
  then have first: "bytes ! (?p + 32) = hd header" using fields(1) by simp
  have envelope: "envelope_at bytes ?p = \<lparr>he_signature_offset = ?p,
        he_version = \<lparr>av_major = 0, av_minor = 4\<rparr>, he_next_header_offset = ?p + 32,
        he_next_header_size = length header, he_next_header_crc = crc_ref header,
        he_next_header_kind = (if hd header = ID_HEADER then KindHeader else KindEncodedHeader)\<rparr>"
    by (simp add: envelope_at_def fields first)
  have "slice bytes (?p + 32) (length header) = header" by (simp add: slice_def fields)
  then have ok: "envelope_ok bytes lim ?p"
    using header limits(1) fields(1)
    by (simp add: envelope_ok_def start_ok_def envelope Let_def fields first)
  have "\<exists>after. candidate_offsets bytes lim = ?p # after"
  proof (cases "?p = 0")
    case True
    then show ?thesis using fields(2) by (simp add: candidate_offsets_def)
  next
    case False
    let ?m = "min (length bytes - 6) (sfx_scan_limit lim)"
    have m: "?p \<le> ?m" using fields(1) limits(3) by simp
    have "[0..<Suc ?m] = [0..<?p] @ ?p # [Suc ?p..<Suc ?m]"
      by (rule upt_split_at [OF le_imp_less_Suc [OF m]])
    moreover have "filter (\<lambda>i. slice bytes i 6 = SIGNATURE) [0..<?p] = []"
      using stub by (simp add: filter_empty_conv)
    ultimately show ?thesis
      using False fields(1,2) stub by (simp add: candidate_offsets_def del: upt_Suc)
  qed
  then obtain after where offsets: "candidate_offsets bytes lim = ?p # after" by blast
  have "from_first (\<lambda>i. \<not> envelope_ok bytes lim i)
      (\<lambda>i env. envelope_ok bytes lim i \<and> env = envelope_at bytes i) (?p # after) env \<Longrightarrow>
    env = envelope_at bytes ?p" for env
    using ok by (auto simp: from_first_def Cons_eq_append_conv)
  with find_candidate_ends [where cand = "\<lambda>i. parse_candidate bytes i lim",
      OF limits(4) parse_candidate_ends [OF limits(4)], of lim s] ok limits(2)
  show ?thesis
    by (auto simp: ends_with_def parse_archive_header_def offsets envelope split: prod.splits sum.splits)
qed

section \<open>A run\<close>

text \<open>The smallest archive: a plain header without any section.\<close>

definition empty_archive :: "u8 list" where
  "empty_archive =
    [0x37, 0x7a, 0xbc, 0xaf, 0x27, 0x1c, 0x00, 0x04, 0x08, 0xa8, 0x34, 0xb8, 0x00, 0x00, 0x00,
     0x00, 0x00, 0x00, 0x00, 0x00, 0x02, 0x00, 0x00, 0x00, 0x00, 0x00, 0x00, 0x00, 0xbe, 0x23,
     0xc2, 0x58, 0x01, 0x00]"

lemma crc_bit_8: "(crc_bit ^^ 8) v =
    crc_bit (crc_bit (crc_bit (crc_bit (crc_bit (crc_bit (crc_bit (crc_bit v)))))))"
  by (simp add: numeral_eq_Suc)

definition empty_envelope :: header_envelope where
  "empty_envelope = \<lparr>he_signature_offset = 0, he_version = \<lparr>av_major = 0, av_minor = 4\<rparr>,
     he_next_header_offset = 32, he_next_header_size = 2, he_next_header_crc = 0x58c223be,
     he_next_header_kind = KindHeader\<rparr>"

lemma crc_ref_numeral: "crc_ref bytes = NOT (fold crc_byte_ref bytes 0xffffffff)"
proof -
  have "(- 1 :: u32) = 0xffffffff" by simp
  then show ?thesis by (simp only: crc_ref_def)
qed

lemmas run_crc = crc_ref_numeral crc_byte_ref_def crc_bit_8 crc_bit_def CRC32_POLYNOMIAL_def

lemma empty_archive_checksums:
  "crc_ref [0x00, 0x00, 0x00, 0x00, 0x00, 0x00, 0x00, 0x00, 0x02, 0x00, 0x00, 0x00, 0x00, 0x00, 0x00, 0x00, 0xbe, 0x23, 0xc2, 0x58] = 0xb834a808"
  "crc_ref [1, 0] = 0x58c223be"
  by (simp_all add: run_crc)

lemma crc32_with_control_short:
  "bytes \<noteq> [] \<Longrightarrow> length bytes \<le> 4096 \<Longrightarrow>
     crc32_with_control bytes = bind (checkpoint (length bytes)) (\<lambda>_. ret (crc_ref bytes))"
  by (simp add: crc32_with_control_def chunks_short CONTROL_CHUNK_SIZE_def crc_chunk_def
      usize_to_u64_def crc_update_fold bind_assoc crc_finalize_def crc_ref_def crc_new_def)

lemmas run_envelope = find_candidate_def SIGNATURE_def DEFAULT_def
  parse_candidate_def candidate_range_def FIXED_HEADER_SIZE_def
  parse_raw_signature_header_eq header_at_start_def u32_at_def u64_at_def slice_def
  start_fields_of_def START_HEADER_OFFSET_def START_HEADER_SIZE_def
  crc32_with_control_short empty_archive_checksums next_header_kind_of_def raw_ids

lemma empty_archive_candidate:
  "fst (parse_archive_header empty_archive DEFAULT unlimited) = Inr empty_envelope"
  by (simp add: parse_archive_header_def empty_archive_def empty_envelope_def run_envelope run_control)

lemma empty_archive_parses:
  "fst (parse_archive empty_archive DEFAULT unlimited) = Inr \<lparr>pa_envelope = empty_envelope,
     pa_next_header = ParsedHeader \<lparr>ah_archive_properties = [], ah_additional_streams = None,
       ah_main_streams = None, ah_files = None\<rparr>\<rparr>"
  by (simp add: parse_archive_def validated_candidate_def empty_archive_def empty_envelope_def
      run_envelope run_control parse_next_header_def parse_next_header_inner_def with_parse_state_def
      parse_header_body_def archive_properties_section_def additional_streams_section_def
      main_streams_section_def files_section_def raw_read_u8_def read_u8_def read_bytes_def with_child_def
      finish_def validate_next_header_def validate_plain_header_def optional_streams_def
      check_non_overlapping_ranges_def copy_properties_def control.defs)

theorem parse_archive_header_exact_witness:
  "\<exists>i\<in>set (candidate_offsets empty_archive DEFAULT). envelope_ok empty_archive DEFAULT i
     \<and> empty_envelope = envelope_at empty_archive i"
proof -
  have "length empty_archive < 2 ^ 64" by (simp add: empty_archive_def)
  from parse_archive_header_exact [OF this, of DEFAULT unlimited] empty_archive_candidate
  show ?thesis
    by (cases "parse_archive_header empty_archive DEFAULT unlimited") (auto simp: from_first_def)
qed

theorem make_plain_archive_parses_witness:
  "case parse_archive_header (make_plain_archive [0x90] [ID_HEADER, ID_END]) DEFAULT unlimited of
     (Inr env, _) \<Rightarrow> he_signature_offset env = 1 \<and> he_next_header_offset env = 33
   | (Inl e, _) \<Rightarrow> resource_error e"
proof -
  let ?bytes = "make_plain_archive [0x90] [ID_HEADER, ID_END]"
  have len: "length ?bytes = 35"
    by (simp add: make_plain_archive_def make_archive_def Let_def SIGNATURE_def)
  have "slice ?bytes 0 6 \<noteq> SIGNATURE"
    by (simp add: make_plain_archive_def make_archive_def Let_def SIGNATURE_def slice_def)
  then show ?thesis
    using make_plain_archive_parses [of "[ID_HEADER, ID_END]" DEFAULT "[0x90]" unlimited] len
    by (auto simp: DEFAULT_def split: prod.splits sum.splits)
qed

section \<open>Accepted archives\<close>

lemma scan_windows_success:
  "scan_windows cand ws first s = (Inr v, t) \<Longrightarrow>
     \<exists>w\<in>set (filter (\<lambda>w. snd w = SIGNATURE) ws). \<exists>u. cand (fst w) u = (Inr v, t)"
proof (induction ws arbitrary: first s)
  case Nil
  then show ?case by (simp add: success split: option.splits)
next
  case (Cons w ws)
  obtain i window where w: "w = (i, window)" by (cases w)
  with Cons.prems obtain u where
    "window \<noteq> SIGNATURE \<and> scan_windows cand ws first u = (Inr v, t)
     \<or> window = SIGNATURE \<and> (case cand i u of (Inr found, d) \<Rightarrow> (Inr found, d)
          | (Inl e, d) \<Rightarrow> if candidate_error_is_fatal e then (Inl e, d)
              else scan_windows cand ws (if first = None then Some e else first) d) = (Inr v, t)"
    by (auto simp: success)
  then show ?case
  proof (elim disjE conjE)
    assume "window \<noteq> SIGNATURE" "scan_windows cand ws first u = (Inr v, t)"
    with Cons.IH w show ?case by auto
  next
    assume "window = SIGNATURE" and run: "(case cand i u of (Inr found, d) \<Rightarrow> (Inr found, d)
          | (Inl e, d) \<Rightarrow> if candidate_error_is_fatal e then (Inl e, d)
              else scan_windows cand ws (if first = None then Some e else first) d) = (Inr v, t)"
    with w Cons.IH show ?case
      by (cases "cand i u") (auto split: sum.splits if_splits)
  qed
qed

lemma find_candidate_success:
  assumes run: "find_candidate bytes lim cand s = (Inr v, t)"
  shows "\<exists>i\<in>set (candidate_offsets bytes lim). \<exists>u. cand i u = (Inr v, t)"
proof (cases "slice bytes 0 6 = SIGNATURE")
  case True
  with run show ?thesis
    by (auto simp: find_candidate_def success slice_def candidate_offsets_def)
next
  case False
  let ?m = "min (length bytes - 6) (sfx_scan_limit lim)"
  have sig: "length SIGNATURE = 6" by (simp add: SIGNATURE_def)
  from run False obtain u where long: "6 \<le> length bytes"
    and scan: "scan_windows cand (windows 6 (take (?m + 6) bytes)) None u = (Inr v, t)"
    by (auto simp: find_candidate_def scan_range_def Let_def success slice_def sig)
  have "?m + 6 \<le> length bytes" using long by simp
  from scan_windows_success [OF scan] show ?thesis
    unfolding windows_of_prefix [OF \<open>?m + 6 \<le> length bytes\<close>]
    using False long by (auto simp: candidate_offsets_def simp del: upt_Suc)
qed

lemma validated_candidate_post:
  assumes "length bytes < 2 ^ 64" "validated_candidate bytes i lim s = (Inr a, t)"
  shows "envelope_ok bytes lim i \<and> pa_envelope a = envelope_at bytes i
    \<and> (\<forall>p\<in>set (parsed_pack_streams (pa_next_header a)). stored_inside (pa_envelope a) bytes p)
    \<and> sorted_wrt stored_apart (parsed_pack_streams (pa_next_header a))"
proof -
  from assms(2) obtain env raw parsed and u v w :: control where
    env: "parse_candidate bytes i lim s = (Inr env, u)"
    and parsed: "validate_next_header raw env bytes lim v = (Inr parsed, w)"
    and a: "pa_envelope a = env" "pa_next_header a = parsed"
    by (auto simp: validated_candidate_def success)
  from parse_candidate_ends [OF assms(1), of lim i s] env
  have "envelope_ok bytes lim i \<and> env = envelope_at bytes i" by (simp add: ends_with_def)
  with next_header_streams_apart [OF parsed] a show ?thesis by simp
qed

text \<open>C3: An archive that is accepted as a whole has a genuine envelope: the signature, version, range
  and checksum conditions hold at an offset within the scan limit and the envelope repeats the fields
  found there; and its packed streams lie between the envelope's two headers, inside the bytes, no two
  of them sharing a byte.\<close>

theorem parse_archive_sound:
  assumes "length bytes < 2 ^ 64" "parse_archive bytes lim s = (Inr a, t)"
  shows "\<exists>i\<in>set (candidate_offsets bytes lim). envelope_ok bytes lim i \<and> pa_envelope a = envelope_at bytes i
    \<and> (\<forall>p\<in>set (parsed_pack_streams (pa_next_header a)). stored_inside (pa_envelope a) bytes p)
    \<and> sorted_wrt stored_apart (parsed_pack_streams (pa_next_header a))"
proof -
  from assms(2) obtain i u where "i \<in> set (candidate_offsets bytes lim)"
    and run: "validated_candidate bytes i lim u = (Inr a, t)"
    unfolding parse_archive_def by (blast dest: find_candidate_success)
  with validated_candidate_post [OF assms(1) run] show ?thesis by blast
qed

theorem parse_archive_sound_witness:
  "envelope_ok empty_archive DEFAULT 0"
proof -
  have small: "length empty_archive < 2 ^ 64" by (simp add: empty_archive_def)
  obtain a t where run: "parse_archive empty_archive DEFAULT unlimited = (Inr a, t)"
    using empty_archive_parses by (blast dest: fst_run)
  have "candidate_offsets empty_archive DEFAULT = [0]"
    by (simp add: candidate_offsets_def slice_def SIGNATURE_def empty_archive_def)
  with parse_archive_sound [OF small run] show ?thesis by auto
qed

section \<open>The budget\<close>

lemma metered_next_header [frame]:
  "metered.keeps (with_parse_state (parse_next_header bytes lim))"
  by (rule metered_with_parse_state [where lim = lim]) (rule frame)

lemma metered_crc_chunk [frame]: "metered.keeps (crc_chunk c x)"
  unfolding crc_chunk_def by (auto simp: crc_update_fold intro!: metered.keeps_rules frame)

lemma metered_envelope_steps [frame]:
  "metered.keeps (crc32_with_control bytes)" "metered.keeps (parse_raw_signature_header bytes)"
  "metered.keeps (start_fields_of bytes)" "metered.keeps (candidate_range bytes i)"
  "metered.keeps (next_header_kind_of bytes)" "metered.keeps (scan_range bytes n lim)"
  unfolding crc32_with_control_def parse_raw_signature_header_def start_fields_of_def candidate_range_def
    next_header_kind_of_def scan_range_def Let_def
  by (intro metered.keeps_rules reads.keeps_rules frame)+

lemma metered_parse_candidate [frame]: "metered.keeps (parse_candidate bytes i lim)"
  unfolding parse_candidate_def by (intro metered.keeps_rules frame)

lemma metered_validated_candidate [frame]: "metered.keeps (validated_candidate bytes i lim)"
  unfolding validated_candidate_def by (intro metered.keeps_rules frame)

lemma metered_scan_windows [frame]:
  assumes "\<And>i. metered.keeps (cand i)"
  shows "metered.keeps (scan_windows cand ws first)"
proof (induction ws arbitrary: first)
  case Nil
  then show ?case by (auto intro: metered.keeps_rules split: option.split)
next
  case (Cons w ws)
  have "metered.keeps (\<lambda>c. case cand i c of
         (Inr found, d) \<Rightarrow> (Inr found, d)
       | (Inl e, d) \<Rightarrow> if candidate_error_is_fatal e then (Inl e, d)
           else scan_windows cand ws (if first = None then Some e else first) d)" for i
  proof (rule metered.keepsI)
    fix s r t
    assume run: "(case cand i s of
         (Inr found, d) \<Rightarrow> (Inr found, d)
       | (Inl e, d) \<Rightarrow> if candidate_error_is_fatal e then (Inl e, d)
           else scan_windows cand ws (if first = None then Some e else first) d) = (r, t)"
    obtain r' u where cand: "cand i s = (r', u)" by fastforce
    with assms have "metered_le s u" by (rule metered.keepsD)
    moreover have "metered_le u t"
      using run cand by (auto simp: metered.le_refl split: sum.splits if_splits dest: metered.keepsD [OF Cons.IH])
    ultimately show "metered_le s t" by (rule metered.le_trans)
  qed
  with Cons.IH show ?case by (cases w) (auto intro!: metered.keeps_rules frame)
qed

lemma metered_parse_archive [frame]: "metered.keeps (parse_archive bytes lim)"
  unfolding parse_archive_def find_candidate_def by (intro metered.keeps_rules frame)

text \<open>
  The price of a candidate: what trying it takes from the consumed counter, when it succeeds or is
  skipped. It is at least the size of the fixed header.
\<close>

definition nonfatal :: "error + 'a \<Rightarrow> bool" where
  "nonfatal r \<longleftrightarrow> (case r of Inl e \<Rightarrow> \<not> candidate_error_is_fatal e | Inr _ \<Rightarrow> True)"

definition price :: "(control, error, 'a) comp \<Rightarrow> nat \<Rightarrow> bool" where
  "price m k \<longleftrightarrow> (\<exists>u r v. m u = (r, v) \<and> nonfatal r \<and> consumed v = consumed u + k)"

definition pays :: "(nat \<Rightarrow> (control, error, 'a) comp) \<Rightarrow> nat list \<Rightarrow> nat \<Rightarrow> bool" where
  "pays cand offsets n \<longleftrightarrow>
     (\<exists>costs. list_all2 (\<lambda>i. price (cand i)) offsets costs \<and> n = sum_list costs)"

lemma pays_Nil: "pays cand [] 0"
  by (simp add: pays_def)

lemma pays_Cons: "price (cand i) k \<Longrightarrow> pays cand offsets n \<Longrightarrow> pays cand (i # offsets) (k + n)"
  unfolding pays_def by (metis list_all2_Cons sum_list.Cons)

lemma pays_at_least:
  assumes "pays cand offsets n" "\<And>i k. price (cand i) k \<Longrightarrow> b \<le> k"
  shows "b * length offsets \<le> n"
proof -
  obtain costs where all: "list_all2 (\<lambda>i. price (cand i)) offsets costs" and n: "n = sum_list costs"
    using assms(1) by (auto simp: pays_def)
  from all have "b * length offsets \<le> sum_list costs"
    by (induction rule: list_all2_induct) (use assms(2) in \<open>fastforce\<close>)+
  then show ?thesis by (simp add: n)
qed

lemma priced: "metered.keeps m \<Longrightarrow> m u = (r, v) \<Longrightarrow> nonfatal r \<Longrightarrow>
    \<exists>k. price m k \<and> consumed v = consumed u + k"
  unfolding price_def by (metis le_Suc_ex metered.keepsD metered_le_def)

lemma checkpoint_price:
  assumes "bind (checkpoint n) f u = (r, v)" "\<And>x. metered.keeps (f x)" "nonfatal r"
  shows "consumed u + n \<le> consumed v"
proof (cases "checkpoint n u")
  case (Pair a w)
  show ?thesis
  proof (cases a)
    case (Inl e)
    with assms(1,3) Pair checkpoint_Inl [of n u e w] show ?thesis
      by (auto simp: bind_def nonfatal_def dest: resource_fatal)
  next
    case (Inr x)
    with Pair have "consumed w = consumed u + n" by (simp add: checkpoint_spent spent_def)
    moreover have "metered_le w v"
      using assms(1,2) Pair Inr by (auto simp: bind_def intro: metered.keepsD)
    ultimately show ?thesis by (simp add: metered_le_def)
  qed
qed

lemma validated_candidate_price:
  assumes "price (validated_candidate bytes i lim) k"
  shows "32 \<le> k"
proof -
  obtain u r v where run: "validated_candidate bytes i lim u = (r, v)"
    and r: "nonfatal r" and k: "consumed v = consumed u + k"
    using assms by (auto simp: price_def)
  have "consumed u + FIXED_HEADER_SIZE \<le> consumed v"
    by (rule checkpoint_price [OF run [unfolded validated_candidate_def parse_candidate_def bind_assoc] _ r])
      (intro metered.keeps_rules frame)
  with k show ?thesis by (simp add: FIXED_HEADER_SIZE_def)
qed

definition signed_offsets :: "(nat \<times> u8 list) list \<Rightarrow> nat list" where
  "signed_offsets ws = map fst (filter (\<lambda>w. snd w = SIGNATURE) ws)"

definition scan_paid ::
  "(nat \<Rightarrow> (control, error, 'a) comp) \<Rightarrow> (nat \<times> u8 list) list \<Rightarrow> control \<Rightarrow> error + 'a \<Rightarrow> control \<Rightarrow> bool" where
  "scan_paid cand ws s r t \<longleftrightarrow> (case r of
      Inr v \<Rightarrow> \<exists>seen w rest u n. ws = seen @ w # rest \<and> cand (fst w) u = (Inr v, t)
        \<and> pays cand (signed_offsets (seen @ [w])) n \<and> consumed t = consumed s + Suc (length seen) + n
    | Inl e \<Rightarrow> candidate_error_is_fatal e
        \<or> (\<exists>n. pays cand (signed_offsets ws) n \<and> consumed t = consumed s + length ws + n))"

lemma scan_paid_found:
  assumes "ws = seen @ w # rest" "cand (fst w) u = (Inr v, t)"
    "pays cand (signed_offsets (seen @ [w])) n" "consumed t = consumed s + Suc (length seen) + n"
  shows "scan_paid cand ws s (Inr v) t"
  unfolding scan_paid_def sum.case using assms by blast

lemma scan_paid_skip:
  assumes "snd w \<noteq> SIGNATURE" "consumed u = Suc (consumed s)" "scan_paid cand ws u r t"
  shows "scan_paid cand (w # ws) s r t"
proof (cases r)
  case (Inl e)
  with assms show ?thesis by (auto simp: scan_paid_def signed_offsets_def)
next
  case (Inr v)
  with assms(3) obtain seen x rest u' n where "ws = seen @ x # rest" "cand (fst x) u' = (Inr v, t)"
    "pays cand (signed_offsets (seen @ [x])) n" "consumed t = consumed u + Suc (length seen) + n"
    by (auto simp: scan_paid_def)
  moreover from this have "pays cand (signed_offsets ((w # seen) @ [x])) n"
    "consumed t = consumed s + Suc (length (w # seen)) + n" "w # ws = (w # seen) @ x # rest"
    using assms(1,2) by (simp_all add: signed_offsets_def)
  ultimately show ?thesis unfolding Inr by (blast intro: scan_paid_found)
qed

lemma scan_paid_failed:
  assumes "snd w = SIGNATURE" "price (cand (fst w)) k" "consumed u = Suc (consumed s) + k"
    "scan_paid cand ws u r t"
  shows "scan_paid cand (w # ws) s r t"
proof (cases r)
  case (Inl e)
  with assms pays_Cons [where cand = cand, OF assms(2)] show ?thesis
    by (fastforce simp: scan_paid_def signed_offsets_def)
next
  case (Inr v)
  with assms(4) obtain seen x rest u' n where st: "ws = seen @ x # rest" "cand (fst x) u' = (Inr v, t)"
    "pays cand (signed_offsets (seen @ [x])) n" "consumed t = consumed u + Suc (length seen) + n"
    by (auto simp: scan_paid_def)
  from pays_Cons [where cand = cand, OF assms(2) st(3)] have "pays cand (signed_offsets ((w # seen) @ [x])) (k + n)"
    using assms(1) by (simp add: signed_offsets_def)
  moreover have "consumed t = consumed s + Suc (length (w # seen)) + (k + n)"
    using st(4) assms(3) by simp
  moreover have "w # ws = (w # seen) @ x # rest" using st(1) by simp
  ultimately show ?thesis using st(2) unfolding Inr by (blast intro: scan_paid_found)
qed

lemma scan_paid_hit:
  assumes "snd w = SIGNATURE" "cand (fst w) u = (Inr v, t)" "price (cand (fst w)) k"
    "consumed t = Suc (consumed s) + k"
  shows "scan_paid cand (w # ws) s (Inr v) t"
proof -
  have "pays cand (signed_offsets ([] @ [w])) k"
    using pays_Cons [where cand = cand, OF assms(3) pays_Nil] assms(1) by (simp add: signed_offsets_def)
  with assms(2,4) show ?thesis by (intro scan_paid_found [of _ "[]"]) simp_all
qed

lemma scan_windows_work:
  fixes cand :: "nat \<Rightarrow> (control, error, 'a) comp"
  assumes cand: "\<And>i. metered.keeps (cand i)"
    and "\<forall>w\<in>set ws. fst w < 2 ^ 64" "scan_windows cand ws first s = (r, t)"
  shows "scan_paid cand ws s r t"
  using assms(2,3)
proof (induction ws arbitrary: first s)
  case Nil
  then show ?case using pays_Nil [of cand]
    by (auto simp: scan_paid_def signed_offsets_def fail_def format_error_def split: option.splits)
next
  case (Cons w ws)
  obtain i window where w: "w = (i, window)" by (cases w)
  show ?case
  proof (cases "checkpoint 1 s")
    case (Pair a u)
    show ?thesis
    proof (cases a)
      case (Inl e)
      with Cons.prems Pair w checkpoint_Inl [of 1 s e u] show ?thesis
        by (auto simp: bind_def scan_paid_def dest: resource_fatal)
    next
      case (Inr x)
      with Pair have u: "consumed u = Suc (consumed s)" by (simp add: checkpoint_spent spent_def)
      show ?thesis
      proof (cases "window = SIGNATURE")
        case False
        with Cons.prems Pair Inr w have "scan_windows cand ws first u = (r, t)" by (simp add: bind_def)
        with Cons u w False show ?thesis by (auto intro: scan_paid_skip)
      next
        case True
        obtain b d where tried: "cand i u = (b, d)" by fastforce
        have run: "(case b of Inr found \<Rightarrow> (Inr found, d)
            | Inl e \<Rightarrow> if candidate_error_is_fatal e then (Inl e, d)
                else scan_windows cand ws (if first = None then Some e else first) d) = (r, t)"
          using Cons.prems Pair Inr w True tried
          by (auto simp: bind_def usize_to_u64_def ret_def split: sum.splits)
        note priced = priced [OF cand tried]
        show ?thesis
        proof (cases b)
          case (Inr v)
          with priced u obtain k where "price (cand i) k" "consumed d = Suc (consumed s) + k"
            by (auto simp: nonfatal_def)
          with Inr run tried w True show ?thesis by (auto intro: scan_paid_hit)
        next
          case (Inl e)
          show ?thesis
          proof (cases "candidate_error_is_fatal e")
            case True
            with Inl run show ?thesis by (auto simp: scan_paid_def)
          next
            case False
            with priced Inl u obtain k where k: "price (cand i) k" "consumed d = Suc (consumed s) + k"
              by (auto simp: nonfatal_def)
            have "scan_paid cand ws d r t" using run False Inl Cons by auto
            with k w True show ?thesis by (auto intro: scan_paid_failed)
          qed
        qed
      qed
    qed
  qed
qed

text \<open>The windows a scan reads before it comes to the end, none when the signature is in front.\<close>

definition windows_read :: "u8 list \<Rightarrow> nat \<Rightarrow> nat" where
  "windows_read bytes n = (if slice bytes 0 6 = SIGNATURE then 0 else n)"

definition scan_windows_count :: "u8 list \<Rightarrow> limits \<Rightarrow> nat" where
  "scan_windows_count bytes lim =
     (if length bytes < 6 then 0 else Suc (min (length bytes - 6) (sfx_scan_limit lim)))"

lemma signed_offsets_windows:
  "signed_offsets (map (\<lambda>i. (i, slice bytes i 6)) is) = filter (\<lambda>i. slice bytes i 6 = SIGNATURE) is"
  by (simp add: signed_offsets_def windows_offsets)

lemma windows_seen:
  assumes "map (\<lambda>i. (i, g i)) [0..<n] = seen @ w # rest"
  shows "fst w = length seen \<and> seen @ [w] = map (\<lambda>i. (i, g i)) [0..<Suc (length seen)] \<and> length seen < n"
proof -
  have n: "length seen < n" using arg_cong [OF assms, of length] by simp
  have "seen @ [w] = take (Suc (length seen)) (map (\<lambda>i. (i, g i)) [0..<n])" by (simp add: assms)
  also have "\<dots> = map (\<lambda>i. (i, g i)) [0..<Suc (length seen)]" using n by (simp add: take_map del: upt_Suc)
  finally have seen: "seen @ [w] = map (\<lambda>i. (i, g i)) [0..<Suc (length seen)]" .
  have "w = (seen @ [w]) ! length seen" by simp
  also have "\<dots> = (length seen, g (length seen))" unfolding seen by (simp del: upt_Suc)
  finally show ?thesis using n seen by simp
qed

lemma filter_below: "i < n \<Longrightarrow> filter (\<lambda>j. j \<le> i) (filter P [0..<n]) = filter P [0..<Suc i]"
  by (simp add: upt_split_at [of i n] filter_empty_conv filter_id_conv flip: filter_filter)

lemma find_candidate_work:
  fixes cand :: "nat \<Rightarrow> (control, error, 'a) comp"
  assumes cand: "\<And>i. metered.keeps (cand i)" and small: "length bytes < 2 ^ 64"
    and ran: "find_candidate bytes lim cand s = (r, t)"
  shows "case r of
      Inr v \<Rightarrow> \<exists>i u n. cand i u = (Inr v, t)
        \<and> pays cand (filter (\<lambda>j. j \<le> i) (candidate_offsets bytes lim)) n
        \<and> consumed t = consumed s + windows_read bytes (Suc i) + n
    | Inl e \<Rightarrow> candidate_error_is_fatal e
        \<or> (\<exists>n. pays cand (candidate_offsets bytes lim) n
             \<and> consumed t = consumed s + windows_read bytes (scan_windows_count bytes lim) + n)"
  (is "?paid r")
proof -
  have sig: "length SIGNATURE = 6" by (simp add: SIGNATURE_def)
  have start: "take 6 bytes = slice bytes 0 6" by (simp add: slice_def)
  show ?thesis
  proof (cases "length bytes \<le> max_total_input_bytes lim")
    case False
    with ran small show ?thesis by (auto simp: find_candidate_def usize_to_u64_def check_limit_def fail_def bind_def ret_def)
  next
    case le: True
    show ?thesis
    proof (cases "slice bytes 0 6 = SIGNATURE")
      case True
      then have offsets: "candidate_offsets bytes lim = [0]" "windows_read bytes n = 0" for n
        by (simp_all add: candidate_offsets_def windows_read_def)
      from ran small le True have tried: "cand 0 s = (r, t)"
        by (simp add: find_candidate_def usize_to_u64_def check_limit_def start bind_def ret_def)
      have "\<exists>n. pays cand [0] n \<and> consumed t = consumed s + n" if "nonfatal r"
        using priced [OF cand tried that] pays_Cons [where cand = cand and i = 0, OF _ pays_Nil] by fastforce
      with tried show ?thesis by (cases r) (auto simp: offsets nonfatal_def)
    next
      case False
      show ?thesis
      proof (cases "length bytes < 6")
        case True
        with ran small le False pays_Nil [of cand] show ?thesis
          by (auto simp: find_candidate_def usize_to_u64_def check_limit_def start candidate_offsets_def
              checked_sub_def sig bind_def ret_def fail_def windows_read_def scan_windows_count_def)
      next
        case long: False
        let ?m = "min (length bytes - 6) (sfx_scan_limit lim)"
        let ?ws = "map (\<lambda>i. (i, slice bytes i 6)) [0..<Suc ?m]"
        have m: "?m + 6 \<le> length bytes" using long by simp
        then have range: "scan_range bytes (length bytes - 6) lim s = (Inr (take (?m + 6) bytes), s)"
          using small by (simp add: scan_range_def sig Let_def checked_add_def checked_range_def
              u64_to_usize_def get_range_def run)
        have offsets: "candidate_offsets bytes lim = filter (\<lambda>i. slice bytes i 6 = SIGNATURE) [0..<Suc ?m]"
          using False long by (simp only: candidate_offsets_def if_False)
        have "find_candidate bytes lim cand s = scan_windows cand (windows 6 (take (?m + 6) bytes)) None s"
          using small le False long by (simp add: find_candidate_def usize_to_u64_def check_limit_def start sig
              checked_sub_def bind_run range)
        then have scan: "scan_windows cand ?ws None s = (r, t)"
          using ran by (simp only: windows_of_prefix [OF m])
        have "\<forall>w\<in>set ?ws. fst w < 2 ^ 64" using small m by auto
        then have paid: "scan_paid cand ?ws s r t" using scan by (rule scan_windows_work [OF cand])
        show ?thesis
        proof (cases r)
          case (Inl e)
          with paid show ?thesis
            using False long by (auto simp: scan_paid_def signed_offsets_windows offsets windows_read_def
                scan_windows_count_def simp del: upt_Suc)
        next
          case (Inr v)
          with paid obtain seen w rest u n where st: "?ws = seen @ w # rest" "cand (fst w) u = (Inr v, t)"
            "pays cand (signed_offsets (seen @ [w])) n" "consumed t = consumed s + Suc (length seen) + n"
            by (auto simp: scan_paid_def simp del: upt_Suc)
          from windows_seen [OF st(1)] have i: "fst w = length seen" "length seen < Suc ?m"
            and seen: "seen @ [w] = map (\<lambda>i. (i, slice bytes i 6)) [0..<Suc (length seen)]" by blast+
          from st(3) have "pays cand (filter (\<lambda>j. j \<le> fst w) (candidate_offsets bytes lim)) n"
            unfolding seen signed_offsets_windows offsets i(1) filter_below [OF i(2)] .
          with st(2,4) Inr False i(1) show ?thesis by (auto simp: windows_read_def)
        qed
      qed
    qed
  qed
qed

text \<open>C6: Parsing pays for everything it does, and gives nothing back. Whatever it returns, a bounded
  budget loses exactly what the consumed counter gains, an unlimited one stays unlimited, and the
  counter never goes back. When an archive is accepted, the counter has gained one unit for every
  window the scan read up to the archive's signature (none when the bytes start with it), and the
  price of every candidate up to that one, the skipped ones before it included; when no candidate is
  accepted, one unit for every window within the scan limit and the price of every candidate. The
  price of a candidate is what its own run takes from the counter, and it is at least the 32 bytes
  of a fixed header. A fatal error (cancelled, out of budget, I/O, input too long) ends the scan
  early, and then only the first part is stated.\<close>

theorem parse_archive_budget:
  assumes "length bytes < 2 ^ 64"
  shows "case parse_archive bytes lim s of (r, t) \<Rightarrow>
     consumed s \<le> consumed t
     \<and> (case remaining s of None \<Rightarrow> remaining t = None
        | Some u \<Rightarrow> consumed t - consumed s \<le> u \<and> remaining t = Some (u - (consumed t - consumed s)))
     \<and> (case r of
          Inr a \<Rightarrow> \<exists>n. let tried = filter (\<lambda>j. j \<le> he_signature_offset (pa_envelope a)) (candidate_offsets bytes lim) in
            pays (\<lambda>i. validated_candidate bytes i lim) tried n \<and> 32 * length tried \<le> n
            \<and> consumed t = consumed s + windows_read bytes (Suc (he_signature_offset (pa_envelope a))) + n
        | Inl e \<Rightarrow> candidate_error_is_fatal e \<or> (\<exists>n. let tried = candidate_offsets bytes lim in
            pays (\<lambda>i. validated_candidate bytes i lim) tried n \<and> 32 * length tried \<le> n
            \<and> consumed t = consumed s + windows_read bytes (scan_windows_count bytes lim) + n))"
proof (cases "parse_archive bytes lim s")
  case (Pair r t)
  let ?cand = "\<lambda>i. validated_candidate bytes i lim"
  have frame: "consumed s \<le> consumed t \<and> (case remaining s of None \<Rightarrow> remaining t = None
      | Some u \<Rightarrow> consumed t - consumed s \<le> u \<and> remaining t = Some (u - (consumed t - consumed s)))"
    using metered.keepsD [OF metered_parse_archive Pair] by (auto simp: metered_le_def split: option.splits)
  note work = find_candidate_work [OF metered_validated_candidate assms Pair [unfolded parse_archive_def]]
  have bound: "32 * length is \<le> n" if "pays ?cand is n" for "is" n
    using that validated_candidate_price by (rule pays_at_least)
  show ?thesis
  proof (cases r)
    case (Inl e)
    with frame work bound Pair show ?thesis by (auto simp: Let_def)
  next
    case (Inr a)
    with work obtain i u n where run: "validated_candidate bytes i lim u = (Inr a, t)"
      and n: "pays ?cand (filter (\<lambda>j. j \<le> i) (candidate_offsets bytes lim)) n"
        "consumed t = consumed s + windows_read bytes (Suc i) + n"
      by auto
    have "he_signature_offset (pa_envelope a) = i"
      using validated_candidate_post [OF assms run] by (simp add: envelope_at_def Let_def)
    with frame n bound [OF n(1)] Inr Pair show ?thesis by (auto simp: Let_def)
  qed
qed

text \<open>A stray signature in the stub, in front of an archive: its start header fails the checksum.\<close>

definition stray_archive :: "u8 list" where
  "stray_archive = 0x90 # SIGNATURE @ empty_archive"

lemma stray_checksum:
  "crc_ref [0x00, 0x04, 0x08, 0xa8, 0x34, 0xb8, 0x00, 0x00, 0x00, 0x00, 0x00, 0x00, 0x00, 0x00, 0x02, 0x00, 0x00, 0x00, 0x00, 0x00] = 0xa69bbb6d"
  by (simp add: run_crc)

lemma stray_archive_parses:
  "fst (parse_archive stray_archive DEFAULT (bounded 200)) = Inr \<lparr>pa_envelope = empty_envelope
     \<lparr>he_signature_offset := 7, he_next_header_offset := 39\<rparr>,
     pa_next_header = ParsedHeader \<lparr>ah_archive_properties = [], ah_additional_streams = None,
       ah_main_streams = None, ah_files = None\<rparr>\<rparr>"
  by (simp add: parse_archive_def validated_candidate_def stray_archive_def empty_archive_def empty_envelope_def
      run_envelope stray_checksum run_control parse_next_header_def parse_next_header_inner_def with_parse_state_def
      parse_header_body_def archive_properties_section_def additional_streams_section_def
      main_streams_section_def files_section_def raw_read_u8_def read_u8_def read_bytes_def with_child_def
      finish_def validate_next_header_def validate_plain_header_def optional_streams_def
      check_non_overlapping_ranges_def copy_properties_def control.defs scan_range_def windows_def upt_rec)

lemma stray_archive_offsets: "candidate_offsets stray_archive DEFAULT = [1, 7]"
  by (simp add: candidate_offsets_def stray_archive_def empty_archive_def SIGNATURE_def slice_def
      DEFAULT_def upt_rec)

theorem parse_archive_budget_witness:
  "\<exists>a t. parse_archive stray_archive DEFAULT (bounded 200) = (Inr a, t)
     \<and> 8 + 2 * 32 \<le> consumed t \<and> consumed t \<le> 200 \<and> remaining t = Some (200 - consumed t)"
proof -
  obtain a t where run: "parse_archive stray_archive DEFAULT (bounded 200) = (Inr a, t)"
    and a: "he_signature_offset (pa_envelope a) = 7"
    using stray_archive_parses by (auto dest!: fst_run)
  have "length stray_archive < 2 ^ 64" "windows_read stray_archive 8 = 8"
    by (simp_all add: stray_archive_def empty_archive_def SIGNATURE_def windows_read_def slice_def)
  with parse_archive_budget [where bytes = stray_archive and lim = DEFAULT and s = "bounded 200"] run a
  show ?thesis by (auto simp: stray_archive_offsets Let_def bounded_def)
qed

end
