(* ===== verification/FilterWords.thy ===== *)
theory FilterWords
  imports Bounded ValidateCoders
begin

unbundle bit_operations_syntax

text \<open>
  What the filters of \<open>decode/filters.rs\<close> and \<open>decode/phase5_filters.rs\<close> share: the method
  identifiers of \<open>decode/mod.rs\<close>, access to the words of a buffer, and the loop over four-byte
  instructions. A buffer the source mutates in place is a value that the operations return.
\<close>

section \<open>Method identifiers\<close>

definition METHOD_COPY :: "u8 list" where "METHOD_COPY = [0x00]"
definition METHOD_DELTA :: "u8 list" where "METHOD_DELTA = [0x03]"
definition METHOD_BCJ :: "u8 list" where "METHOD_BCJ = [0x03, 0x03, 0x01, 0x03]"
definition METHOD_BCJ2 :: "u8 list" where "METHOD_BCJ2 = [0x03, 0x03, 0x01, 0x1b]"
definition METHOD_PPC :: "u8 list" where "METHOD_PPC = [0x03, 0x03, 0x02, 0x05]"
definition METHOD_ARM :: "u8 list" where "METHOD_ARM = [0x03, 0x03, 0x05, 0x01]"
definition METHOD_SPARC :: "u8 list" where "METHOD_SPARC = [0x03, 0x03, 0x08, 0x05]"
definition METHOD_ARM64 :: "u8 list" where "METHOD_ARM64 = [0x0a]"
definition METHOD_IA64 :: "u8 list" where "METHOD_IA64 = [0x03, 0x03, 0x04, 0x01]"
definition METHOD_ARM_THUMB :: "u8 list" where "METHOD_ARM_THUMB = [0x03, 0x03, 0x07, 0x01]"
definition METHOD_RISCV :: "u8 list" where "METHOD_RISCV = [0x0b]"
definition METHOD_SWAP2 :: "u8 list" where "METHOD_SWAP2 = [0x02, 0x03, 0x02]"
definition METHOD_SWAP4 :: "u8 list" where "METHOD_SWAP4 = [0x02, 0x03, 0x04]"

lemmas filter_ids = METHOD_DELTA_def METHOD_BCJ_def METHOD_BCJ2_def METHOD_PPC_def METHOD_ARM_def
  METHOD_SPARC_def METHOD_ARM64_def METHOD_IA64_def METHOD_ARM_THUMB_def METHOD_RISCV_def
  METHOD_SWAP2_def METHOD_SWAP4_def

section \<open>Words of a buffer\<close>

definition to_le_bytes :: "u32 \<Rightarrow> u8 list" where
  "to_le_bytes w = [ucast w, ucast (drop_bit 8 w), ucast (drop_bit 16 w), ucast (drop_bit 24 w)]"

definition to_be_bytes :: "u32 \<Rightarrow> u8 list" where
  "to_be_bytes w = rev (to_le_bytes w)"

lemma length_word_bytes [simp]: "length (to_le_bytes w) = 4" "length (to_be_bytes w) = 4"
  by (simp_all add: to_le_bytes_def to_be_bytes_def)

text \<open>\<open>to_le_bytes\<close> or \<open>to_be_bytes\<close>, for code that is the same for both.\<close>

datatype byte_order = LittleEndian | BigEndian

definition word_bytes :: "byte_order \<Rightarrow> u32 \<Rightarrow> u8 list" where
  "word_bytes order w = (case order of LittleEndian \<Rightarrow> to_le_bytes w | BigEndian \<Rightarrow> to_be_bytes w)"

lemma length_word_bytes_order [simp]: "length (word_bytes order w) = 4"
  by (simp add: word_bytes_def split: byte_order.split)

definition from_le_bytes :: "u8 list \<Rightarrow> u32" where
  "from_le_bytes bs = of_nat (le_bytes bs)"

definition from_be_bytes :: "u8 list \<Rightarrow> u32" where
  "from_be_bytes bs = from_le_bytes (rev bs)"

text \<open>A bounds-checked word, with the messages of the caller's file.\<close>

definition word_range ::
  "u8 list \<Rightarrow> nat \<Rightarrow> string \<Rightarrow> string \<Rightarrow> string \<Rightarrow> ('s, error, u8 list) comp" where
  "word_range bytes offset overflow truncated wrong_length =
     bind (ok_or (checked_add offset 4) (format_error overflow)) (\<lambda>end_at.
     bind (ok_or (get_range bytes offset end_at) (format_error truncated)) (\<lambda>word.
     if length word = 4 then ret word else fail (format_error wrong_length)))"

definition filter_word :: "u8 list \<Rightarrow> nat \<Rightarrow> ('s, error, u8 list) comp" where
  "filter_word bytes offset = word_range bytes offset ''filter word range overflows''
     ''filter word is truncated'' ''filter word has the wrong length''"

definition filter_read_u32_le :: "u8 list \<Rightarrow> nat \<Rightarrow> ('s, error, u32) comp" where
  "filter_read_u32_le bytes offset = bind (filter_word bytes offset) (\<lambda>w. ret (from_le_bytes w))"

definition filter_read_u32_be :: "u8 list \<Rightarrow> nat \<Rightarrow> ('s, error, u32) comp" where
  "filter_read_u32_be bytes offset = bind (filter_word bytes offset) (\<lambda>w. ret (from_be_bytes w))"

definition put_bytes :: "u8 list \<Rightarrow> nat \<Rightarrow> u8 list \<Rightarrow> u8 list" where
  "put_bytes bytes offset new = take offset bytes @ new @ drop (offset + length new) bytes"

lemma length_put_bytes [simp]:
  "offset + length new \<le> length bytes \<Longrightarrow> length (put_bytes bytes offset new) = length bytes"
  by (simp add: put_bytes_def)

definition write_word :: "u8 list \<Rightarrow> nat \<Rightarrow> u8 list \<Rightarrow> ('s, error, u8 list) comp" where
  "write_word bytes offset word =
     bind (ok_or (checked_add offset 4) (format_error ''filter word range overflows'')) (\<lambda>end_at.
     bind (ok_or (get_range bytes offset end_at) (format_error ''filter word is truncated'')) (\<lambda>_.
     ret (put_bytes bytes offset word)))"

definition starting_position :: "u8 list \<Rightarrow> ('s, error, u32) comp" where
  "starting_position properties =
     (if properties = [] then ret 0
      else if length properties = 4 then ret (from_le_bytes properties)
      else fail (format_error ''branch filter properties must be empty or four bytes''))"

definition u32_of :: "nat \<Rightarrow> string \<Rightarrow> ('s, error, u32) comp" where
  "u32_of v detail = (if v < 2 ^ 32 then ret (of_nat v) else fail (format_error detail))"

section \<open>The loop over four-byte instructions\<close>

text \<open>
  PPC, ARM, ARM64 and SPARC share the shape of their loop: at each multiple of four the step
  reads the instruction and may replace it; the instruction pointer moves with it.
\<close>

lemma write_word_Inr [success]:
  "write_word bytes offset word s = (Inr x, t) \<longleftrightarrow>
     offset + 4 < 2 ^ 64 \<and> offset + 4 \<le> length bytes \<and> x = put_bytes bytes offset word \<and> t = s"
  by (auto simp: write_word_def success)

function word_loop ::
  "(nat \<Rightarrow> u32 \<Rightarrow> u8 list \<Rightarrow> ('z control_scheme, error, u32 option) comp) \<Rightarrow> byte_order \<Rightarrow> string \<Rightarrow>
   nat \<Rightarrow> u32 \<Rightarrow> u8 list \<Rightarrow> ('z control_scheme, error, u8 list) comp" where
  "word_loop step order overflow offset instruction_pointer bytes s =
     branch (case checked_add offset 4 of None \<Rightarrow> False | Some end_at \<Rightarrow> end_at \<le> length bytes)
      (bind (checkpoint 4) (\<lambda>_.
       bind (step offset instruction_pointer bytes) (\<lambda>replaced.
       bind (case replaced of
               Some v \<Rightarrow> write_word bytes offset (word_bytes order v)
             | None \<Rightarrow> ret bytes) (\<lambda>bytes.
       bind (ok_or (checked_add offset 4) (format_error overflow)) (\<lambda>offset.
       word_loop step order overflow offset (instruction_pointer + 4) bytes)))))
      (ret bytes) s"
  by pat_completeness auto
termination
  by (relation "measure (\<lambda>(step, order, overflow, offset, ip, bytes, s). length bytes - offset)")
    (auto simp: success split: option.splits)

declare word_loop.simps [simp del]

end
