(* ===== verification/Bcj2.thy ===== *)
theory Bcj2
  imports FilterWords
begin

unbundle bit_operations_syntax

text \<open>
  The four-stream x86 filter BCJ2 of \<open>decode/filters.rs\<close>: its byte cursors, its adaptive range decoder
  and the merge of the main, call and jump streams. The cursors and the range decoder are locals of
  the source, so they are values here; the operation control is the state.
\<close>

record bcj2_cursor =
  cu_bytes :: "u8 list"
  cu_position :: nat

definition cursor_new :: "u8 list \<Rightarrow> bcj2_cursor" where
  "cursor_new bytes = \<lparr>cu_bytes = bytes, cu_position = 0\<rparr>"

definition cursor_read_byte :: "bcj2_cursor \<Rightarrow> ('z control_scheme, error, u8 \<times> bcj2_cursor) comp" where
  "cursor_read_byte c =
     bind (checkpoint 1) (\<lambda>_.
     bind (ok_or (get_at (cu_bytes c) (cu_position c))
             (format_error ''truncated BCJ2 input stream'')) (\<lambda>byte.
     bind (ok_or (checked_add (cu_position c) 1)
             (format_error ''BCJ2 input cursor overflows'')) (\<lambda>position.
     ret (byte, c\<lparr>cu_position := position\<rparr>))))"

definition cursor_read_u32_be :: "bcj2_cursor \<Rightarrow> ('z control_scheme, error, u32 \<times> bcj2_cursor) comp" where
  "cursor_read_u32_be c =
     bind (cursor_read_byte c) (\<lambda>(b0, c).
     bind (cursor_read_byte c) (\<lambda>(b1, c).
     bind (cursor_read_byte c) (\<lambda>(b2, c).
     bind (cursor_read_byte c) (\<lambda>(b3, c).
     ret (from_be_bytes [b0, b1, b2, b3], c)))))"

definition cursor_is_finished :: "bcj2_cursor \<Rightarrow> bool" where
  "cursor_is_finished c \<longleftrightarrow> cu_position c = length (cu_bytes c)"

section \<open>The range decoder\<close>

record bcj2_range =
  br_input :: bcj2_cursor
  br_range :: u32
  br_code :: u32
  br_probabilities :: "u32 list"

primrec code_bytes ::
  "nat \<Rightarrow> u32 \<Rightarrow> bcj2_cursor \<Rightarrow> ('z control_scheme, error, u32 \<times> bcj2_cursor) comp" where
  "code_bytes 0 code input = ret (code, input)"
| "code_bytes (Suc n) code input =
     bind (cursor_read_byte input) (\<lambda>(byte, input).
     code_bytes n (push_bit 8 code OR ucast byte) input)"

definition range_new :: "u8 list \<Rightarrow> ('z control_scheme, error, bcj2_range) comp" where
  "range_new bytes =
     bind (code_bytes 5 0 (cursor_new bytes)) (\<lambda>(code, input).
     ret \<lparr>br_input = input, br_range = - 1, br_code = code,
          br_probabilities = replicate 258 (push_bit 10 1)\<rparr>)"

definition checked_mul32 :: "u32 \<Rightarrow> u32 \<Rightarrow> u32 option" where
  "checked_mul32 a b = (if unat a * unat b < 2 ^ 32 then Some (a * b) else None)"

definition checked_add32 :: "u32 \<Rightarrow> u32 \<Rightarrow> u32 option" where
  "checked_add32 a b = (if unat a + unat b < 2 ^ 32 then Some (a + b) else None)"

definition checked_sub32 :: "u32 \<Rightarrow> u32 \<Rightarrow> u32 option" where
  "checked_sub32 a b = (if b \<le> a then Some (a - b) else None)"

definition saturating_sub32 :: "u32 \<Rightarrow> u32 \<Rightarrow> u32" where
  "saturating_sub32 a b = (if b \<le> a then a - b else 0)"

text \<open>The choice itself, before the range is refilled: the bit, the range, the code and the probability.\<close>

definition bcj2_choose ::
  "u32 \<Rightarrow> u32 \<Rightarrow> u32 \<Rightarrow> ('s, error, bool \<times> u32 \<times> u32 \<times> u32) comp" where
  "bcj2_choose probability range_value code =
     bind (ok_or (checked_mul32 (drop_bit 11 range_value) probability)
             (format_error ''BCJ2 probability bound overflows'')) (\<lambda>bound.
     if code < bound
     then
       bind (ok_or (checked_add32 probability (drop_bit 5 (saturating_sub32 2048 probability)))
               (format_error ''BCJ2 probability overflows'')) (\<lambda>probability.
       ret (False, bound, code, probability))
     else
       bind (ok_or (checked_sub32 range_value bound) (format_error ''BCJ2 range underflows'')) (\<lambda>range_value.
       bind (ok_or (checked_sub32 code bound) (format_error ''BCJ2 range code underflows'')) (\<lambda>code.
       bind (ok_or (checked_sub32 probability (drop_bit 5 probability))
               (format_error ''BCJ2 probability underflows'')) (\<lambda>probability.
       ret (True, range_value, code, probability)))))"

definition range_decode ::
  "nat \<Rightarrow> bcj2_range \<Rightarrow> ('z control_scheme, error, bool \<times> bcj2_range) comp" where
  "range_decode index r =
     bind (ok_or (get_at (br_probabilities r) index)
             (format_error ''BCJ2 probability index is out of range'')) (\<lambda>probability.
     bind (bcj2_choose probability (br_range r) (br_code r))
       (\<lambda>(selected, range_value, code, probability).
     let r = r\<lparr>br_range := range_value, br_code := code,
               br_probabilities := (br_probabilities r)[index := probability]\<rparr> in
     if range_value < push_bit 24 1
     then
       bind (cursor_read_byte (br_input r)) (\<lambda>(byte, input).
       ret (selected, r\<lparr>br_input := input, br_code := push_bit 8 code OR ucast byte,
                        br_range := push_bit 8 range_value\<rparr>))
     else ret (selected, r)))"

section \<open>The merge\<close>

definition is_bcj2_branch :: "u8 \<Rightarrow> u8 \<Rightarrow> bool" where
  "is_bcj2_branch previous current \<longleftrightarrow>
     current AND 0xfe = 0xe8 \<or> (previous = 0x0f \<and> current AND 0xf0 = 0x80)"

definition bcj2_probability_index :: "u8 \<Rightarrow> u8 \<Rightarrow> nat" where
  "bcj2_probability_index previous current =
     (if current = 0xe8 then unat previous else if current = 0xe9 then 256 else 257)"

definition reserve_output :: "u8 list \<Rightarrow> nat \<Rightarrow> nat \<Rightarrow> ('z control_scheme, error, unit) comp" where
  "reserve_output output additional maximum =
     bind (ok_or (checked_add (length output) additional)
             (format_error ''BCJ2 output size overflows'')) (\<lambda>requested.
     bind (usize_to_u64 requested ''BCJ2 output size is not representable as u64'') (\<lambda>n.
     bind (check_limit n maximum TotalOutputBytes) (\<lambda>_.
     reserve_with ''BCJ2 output allocation failed'' additional)))"

record bcj2_state =
  b2_main :: bcj2_cursor
  b2_call :: bcj2_cursor
  b2_jump :: bcj2_cursor
  b2_range :: bcj2_range
  b2_previous :: u8
  b2_written :: u32
  b2_output :: "u8 list"

text \<open>A branch opcode that was converted: its absolute destination, made relative again.\<close>

definition bcj2_destination :: "nat \<Rightarrow> u8 \<Rightarrow> bcj2_state \<Rightarrow> ('z control_scheme, error, bcj2_state) comp" where
  "bcj2_destination maximum byte st =
     bind (if byte = 0xe8
           then bind (cursor_read_u32_be (b2_call st)) (\<lambda>(encoded, c). ret (encoded, st\<lparr>b2_call := c\<rparr>))
           else bind (cursor_read_u32_be (b2_jump st)) (\<lambda>(encoded, c). ret (encoded, st\<lparr>b2_jump := c\<rparr>)))
       (\<lambda>(encoded, st).
     let destination = encoded - (b2_written st + 4) in
     bind (reserve_output (b2_output st) 4 maximum) (\<lambda>_.
     ret (st\<lparr>b2_output := b2_output st @ to_le_bytes destination,
             b2_previous := ucast (drop_bit 24 destination),
             b2_written := b2_written st + 4\<rparr>)))"

definition bcj2_step :: "nat \<Rightarrow> bcj2_state \<Rightarrow> ('z control_scheme, error, bcj2_state) comp" where
  "bcj2_step maximum st =
     bind (cursor_read_byte (b2_main st)) (\<lambda>(byte, main).
     let st = st\<lparr>b2_main := main\<rparr> in
     bind (reserve_output (b2_output st) 1 maximum) (\<lambda>_.
     let st = st\<lparr>b2_output := b2_output st @ [byte], b2_written := b2_written st + 1\<rparr> in
     if \<not> is_bcj2_branch (b2_previous st) byte then ret (st\<lparr>b2_previous := byte\<rparr>)
     else
       bind (range_decode (bcj2_probability_index (b2_previous st) byte) (b2_range st)) (\<lambda>(selected, r).
       let st = st\<lparr>b2_range := r\<rparr> in
       if selected then bcj2_destination maximum byte st
       else ret (st\<lparr>b2_previous := byte\<rparr>))))"

lemma cursor_read_byte_Inr:
  "cursor_read_byte c s = (Inr (b, d), t) \<Longrightarrow>
     cu_position c < length (cu_bytes c) \<and> b = cu_bytes c ! cu_position c
     \<and> d = c\<lparr>cu_position := Suc (cu_position c)\<rparr>"
  by (auto simp: cursor_read_byte_def success)

lemma bcj2_destination_main: "bcj2_destination m b st s = (Inr st', t) \<Longrightarrow> b2_main st' = b2_main st"
  by (auto simp: bcj2_destination_def success Let_def)

lemma bcj2_step_main:
  "bcj2_step maximum st s = (Inr st', t) \<Longrightarrow>
     b2_main st' = (b2_main st)\<lparr>cu_position := Suc (cu_position (b2_main st))\<rparr>
     \<and> cu_position (b2_main st) < length (cu_bytes (b2_main st))"
  by (auto simp: bcj2_step_def success Let_def dest!: cursor_read_byte_Inr bcj2_destination_main)

function bcj2_loop :: "nat \<Rightarrow> bcj2_state \<Rightarrow> ('z control_scheme, error, bcj2_state) comp" where
  "bcj2_loop maximum st s =
     branch (\<not> cursor_is_finished (b2_main st))
      (bind (bcj2_step maximum st) (bcj2_loop maximum))
      (ret st) s"
  by pat_completeness auto
termination
  by (relation "measure (\<lambda>(maximum, st, s). length (cu_bytes (b2_main st)) - cu_position (b2_main st))")
    (auto dest!: bcj2_step_main)

declare bcj2_loop.simps [simp del]

definition decode_bcj2 ::
  "u8 list list \<Rightarrow> u8 list \<Rightarrow> nat option \<Rightarrow> nat \<Rightarrow> ('z control_scheme, error, u8 list) comp" where
  "decode_bcj2 inputs properties expected maximum =
     bind (guard (properties = []) (format_error ''BCJ2 properties must be empty'')) (\<lambda>_.
     bind (ok_or (get_at inputs 0) (format_error ''BCJ2 main stream is missing'')) (\<lambda>main.
     bind (ok_or (get_at inputs 1) (format_error ''BCJ2 call stream is missing'')) (\<lambda>call.
     bind (ok_or (get_at inputs 2) (format_error ''BCJ2 jump stream is missing'')) (\<lambda>jump.
     bind (ok_or (get_at inputs 3) (format_error ''BCJ2 range stream is missing'')) (\<lambda>range_bytes.
     bind (guard (length inputs = 4) (format_error ''BCJ2 requires exactly four input streams'')) (\<lambda>_.
     bind (check_limit (case expected of None \<Rightarrow> 0 | Some n \<Rightarrow> n) maximum TotalOutputBytes) (\<lambda>_.
     bind (case expected of
             Some n \<Rightarrow>
               bind (u64_to_usize n ''BCJ2 output size is not representable on this platform'') try_reserve
           | None \<Rightarrow> ret ()) (\<lambda>_.
     bind (range_new range_bytes) (\<lambda>r.
     bind (bcj2_loop maximum
             \<lparr>b2_main = cursor_new main, b2_call = cursor_new call, b2_jump = cursor_new jump,
              b2_range = r, b2_previous = 0, b2_written = 0, b2_output = []\<rparr>) (\<lambda>st.
     bind (guard (cursor_is_finished (b2_call st) \<and> cursor_is_finished (b2_jump st))
             (format_error ''BCJ2 side streams were not consumed exactly'')) (\<lambda>_.
     bind (case expected of
             Some n \<Rightarrow>
               bind (usize_to_u64 (length (b2_output st))
                       ''BCJ2 output size is not representable as u64'') (\<lambda>size.
               guard (size = n) (format_error ''BCJ2 output size does not match its declaration''))
           | None \<Rightarrow> ret ()) (\<lambda>_.
     ret (b2_output st)))))))))))))"

end
