(* ===== verification/LzmaRange.thy ===== *)
theory LzmaRange
  imports Bcj2
begin

unbundle bit_operations_syntax

text \<open>
  The range decoder of \<open>decode/lzma.rs\<close>: adaptive probabilities, trees of them, and the length,
  distance and literal decoders. They are locals of the source that it mutates in place; here each
  operation takes their value and returns the new one beside its result.
\<close>

definition PROB_BITS :: nat where "PROB_BITS = 11"
definition PROB_TOTAL :: u16 where "PROB_TOTAL = push_bit PROB_BITS 1"
definition PROB_INITIAL :: u16 where "PROB_INITIAL = drop_bit 1 PROB_TOTAL"
definition MOVE_BITS :: nat where "MOVE_BITS = 5"
definition TOP_VALUE :: u32 where "TOP_VALUE = push_bit 24 1"
definition STATE_COUNT :: nat where "STATE_COUNT = 12"
definition POSITION_STATES :: nat where "POSITION_STATES = 2 ^ 4"
definition MIN_MATCH_LENGTH :: u32 where "MIN_MATCH_LENGTH = 2"
definition LENGTH_STATES :: u32 where "LENGTH_STATES = 4"
definition START_POSITION_MODEL :: u32 where "START_POSITION_MODEL = 4"
definition END_POSITION_MODEL :: u32 where "END_POSITION_MODEL = 14"
definition POSITION_SLOT_BITS :: nat where "POSITION_SLOT_BITS = 6"
definition ALIGN_BITS :: nat where "ALIGN_BITS = 4"
definition EOS_DISTANCE :: u32 where "EOS_DISTANCE = 0xffffffff"

definition checked_mul :: "nat \<Rightarrow> nat \<Rightarrow> nat option" where
  "checked_mul a b = (if a * b < 2 ^ 64 then Some (a * b) else None)"

definition checked_add16 :: "u16 \<Rightarrow> u16 \<Rightarrow> u16 option" where
  "checked_add16 a b = (if unat a + unat b < 2 ^ 16 then Some (a + b) else None)"

definition checked_sub16 :: "u16 \<Rightarrow> u16 \<Rightarrow> u16 option" where
  "checked_sub16 a b = (if b \<le> a then Some (a - b) else None)"

section \<open>The range decoder and one probability\<close>

record lzma_range =
  lr_input :: "u8 list"
  lr_cursor :: nat
  lr_range :: u32
  lr_code :: u32

definition lzma_read_byte :: "lzma_range \<Rightarrow> ('z control_scheme, error, u8 \<times> lzma_range) comp" where
  "lzma_read_byte r =
     bind (checkpoint 1) (\<lambda>_.
     bind (ok_or (get_at (lr_input r) (lr_cursor r))
             (format_error ''truncated LZMA range stream'')) (\<lambda>byte.
     bind (ok_or (checked_add (lr_cursor r) 1)
             (format_error ''LZMA input cursor overflows'')) (\<lambda>cursor.
     ret (byte, r\<lparr>lr_cursor := cursor\<rparr>))))"

primrec lzma_code_bytes :: "nat \<Rightarrow> lzma_range \<Rightarrow> ('z control_scheme, error, lzma_range) comp" where
  "lzma_code_bytes 0 r = ret r"
| "lzma_code_bytes (Suc n) r =
     bind (lzma_read_byte r) (\<lambda>(byte, r).
     lzma_code_bytes n (r\<lparr>lr_code := push_bit 8 (lr_code r) OR ucast byte\<rparr>))"

definition lzma_range_new :: "u8 list \<Rightarrow> ('z control_scheme, error, lzma_range) comp" where
  "lzma_range_new input =
     bind (lzma_read_byte \<lparr>lr_input = input, lr_cursor = 0, lr_range = 0xffffffff, lr_code = 0\<rparr>)
       (\<lambda>(first, r).
     bind (guard (first = 0) (format_error ''LZMA range stream does not begin with zero'')) (\<lambda>_.
     bind (lzma_code_bytes 4 r) (\<lambda>r.
     bind (guard (lr_code r < lr_range r) (format_error ''invalid initial LZMA range state'')) (\<lambda>_.
     ret r))))"

definition lzma_normalize :: "lzma_range \<Rightarrow> ('z control_scheme, error, lzma_range) comp" where
  "lzma_normalize r =
     (if lr_range r \<ge> TOP_VALUE then ret r
      else
        bind (lzma_read_byte (r\<lparr>lr_range := push_bit 8 (lr_range r)\<rparr>)) (\<lambda>(byte, r).
        ret (r\<lparr>lr_code := push_bit 8 (lr_code r) OR ucast byte\<rparr>)))"

text \<open>The choice before the range is refilled: the bit, the probability and the range decoder.\<close>

definition probability_choose ::
  "u16 \<Rightarrow> lzma_range \<Rightarrow> ('s, error, u32 \<times> u16 \<times> lzma_range) comp" where
  "probability_choose p r =
     bind (ok_or (checked_mul32 (drop_bit PROB_BITS (lr_range r)) (ucast p))
             (format_error ''LZMA probability bound overflows'')) (\<lambda>bound.
     if lr_code r < bound
     then
       bind (ok_or (checked_sub16 PROB_TOTAL p)
               (format_error ''LZMA probability underflows'')) (\<lambda>difference.
       bind (ok_or (checked_add16 p (drop_bit MOVE_BITS difference))
               (format_error ''LZMA probability overflows'')) (\<lambda>p.
       ret (0, p, r\<lparr>lr_range := bound\<rparr>)))
     else
       bind (ok_or (checked_sub32 (lr_code r) bound)
               (format_error ''LZMA range code underflows'')) (\<lambda>code.
       bind (ok_or (checked_sub32 (lr_range r) bound)
               (format_error ''LZMA range underflows'')) (\<lambda>rng.
       bind (ok_or (checked_sub16 p (drop_bit MOVE_BITS p))
               (format_error ''LZMA probability underflows'')) (\<lambda>p.
       ret (1, p, r\<lparr>lr_code := code, lr_range := rng\<rparr>)))))"

definition probability_decode ::
  "u16 \<Rightarrow> lzma_range \<Rightarrow> ('z control_scheme, error, u32 \<times> u16 \<times> lzma_range) comp" where
  "probability_decode p r =
     bind (probability_choose p r) (\<lambda>(b, p, r).
     bind (lzma_normalize r) (\<lambda>r. ret (b, p, r)))"

definition decode_direct_bit :: "lzma_range \<Rightarrow> ('z control_scheme, error, u32 \<times> lzma_range) comp" where
  "decode_direct_bit r =
     (let r = r\<lparr>lr_range := drop_bit 1 (lr_range r)\<rparr> in
     bind (if lr_code r \<ge> lr_range r
           then bind (ok_or (checked_sub32 (lr_code r) (lr_range r))
                        (format_error ''LZMA direct range code underflows'')) (\<lambda>code.
                ret (1, r\<lparr>lr_code := code\<rparr>))
           else ret (0, r)) (\<lambda>(b, r).
     bind (lzma_normalize r) (\<lambda>r. ret (b, r))))"

definition possibly_at_end :: "lzma_range \<Rightarrow> bool" where
  "possibly_at_end r \<longleftrightarrow> lr_code r = 0"

definition range_is_finished :: "lzma_range \<Rightarrow> bool" where
  "range_is_finished r \<longleftrightarrow> lr_cursor r = length (lr_input r)"

text \<open>A probability of an array, decoded in place: \<open>get_mut(index)\<close>, its check and \<open>decode\<close>.\<close>

definition decode_at ::
  "string \<Rightarrow> u16 list \<Rightarrow> nat \<Rightarrow> lzma_range \<Rightarrow> ('z control_scheme, error, u32 \<times> u16 list \<times> lzma_range) comp" where
  "decode_at detail probabilities index r =
     bind (ok_or (get_at probabilities index) (format_error detail)) (\<lambda>p.
     bind (probability_decode p r) (\<lambda>(b, p, r).
     ret (b, probabilities[index := p], r)))"

section \<open>Probability trees\<close>

record probability_tree =
  pt_probabilities :: "u16 list"
  pt_bits :: nat

definition tree_new :: "nat \<Rightarrow> ('z control_scheme, error, probability_tree) comp" where
  "tree_new bits =
     bind (guard (1 \<le> bits \<and> bits \<le> 8)
             (format_error ''LZMA probability-tree width is invalid'')) (\<lambda>_.
     bind (try_reserve (2 ^ bits)) (\<lambda>_.
     ret \<lparr>pt_probabilities = replicate (2 ^ bits) PROB_INITIAL, pt_bits = bits\<rparr>))"

definition fill_initial :: "u16 list \<Rightarrow> u16 list" where
  "fill_initial probabilities = map (\<lambda>_. PROB_INITIAL) probabilities"

definition tree_reset :: "probability_tree \<Rightarrow> probability_tree" where
  "tree_reset t = t\<lparr>pt_probabilities := fill_initial (pt_probabilities t)\<rparr>"

definition child_node :: "string \<Rightarrow> nat \<Rightarrow> u32 \<Rightarrow> ('s, error, nat) comp" where
  "child_node detail node b =
     ok_or (case checked_mul node 2 of None \<Rightarrow> None | Some v \<Rightarrow> checked_add v (unat b))
       (format_error detail)"

primrec tree_walk ::
  "nat \<Rightarrow> nat \<Rightarrow> u16 list \<Rightarrow> lzma_range \<Rightarrow> ('z control_scheme, error, nat \<times> u16 list \<times> lzma_range) comp" where
  "tree_walk 0 node probabilities r = ret (node, probabilities, r)"
| "tree_walk (Suc n) node probabilities r =
     bind (decode_at ''LZMA probability-tree index is out of range'' probabilities node r)
       (\<lambda>(b, probabilities, r).
     bind (child_node ''LZMA probability-tree index overflows'' node b) (\<lambda>node.
     tree_walk n node probabilities r))"

definition tree_decode ::
  "probability_tree \<Rightarrow> lzma_range \<Rightarrow>
   ('z control_scheme, error, u32 \<times> probability_tree \<times> lzma_range) comp" where
  "tree_decode t r =
     bind (tree_walk (pt_bits t) 1 (pt_probabilities t) r) (\<lambda>(node, probabilities, r).
     bind (ok_or (checked_sub node (2 ^ pt_bits t))
             (format_error ''LZMA probability-tree value underflows'')) (\<lambda>v.
     bind (u32_of v ''LZMA tree value is not representable'') (\<lambda>v.
     ret (v, t\<lparr>pt_probabilities := probabilities\<rparr>, r))))"

primrec tree_walk_reverse ::
  "nat list \<Rightarrow> nat \<Rightarrow> u32 \<Rightarrow> u16 list \<Rightarrow> lzma_range \<Rightarrow>
   ('z control_scheme, error, u32 \<times> u16 list \<times> lzma_range) comp" where
  "tree_walk_reverse [] node v probabilities r = ret (v, probabilities, r)"
| "tree_walk_reverse (shift # shifts) node v probabilities r =
     bind (decode_at ''LZMA reverse-tree index is out of range'' probabilities node r)
       (\<lambda>(b, probabilities, r).
     bind (ok_or (if shift < 32 then Some (push_bit shift b) else None)
             (format_error ''LZMA reverse-tree value overflows'')) (\<lambda>shifted.
     bind (child_node ''LZMA reverse-tree index overflows'' node b) (\<lambda>node.
     tree_walk_reverse shifts node (v OR shifted) probabilities r)))"

definition tree_decode_reverse ::
  "probability_tree \<Rightarrow> lzma_range \<Rightarrow>
   ('z control_scheme, error, u32 \<times> probability_tree \<times> lzma_range) comp" where
  "tree_decode_reverse t r =
     bind (tree_walk_reverse [0..<pt_bits t] 1 0 (pt_probabilities t) r) (\<lambda>(v, probabilities, r).
     ret (v, t\<lparr>pt_probabilities := probabilities\<rparr>, r))"

text \<open>A tree of an array, decoded in place by one of the two walks.\<close>

definition tree_at ::
  "(probability_tree \<Rightarrow> lzma_range \<Rightarrow> ('z control_scheme, error, u32 \<times> probability_tree \<times> lzma_range) comp) \<Rightarrow>
   string \<Rightarrow> probability_tree list \<Rightarrow> nat \<Rightarrow> lzma_range \<Rightarrow>
   ('z control_scheme, error, u32 \<times> probability_tree list \<times> lzma_range) comp" where
  "tree_at decode detail trees index r =
     bind (ok_or (get_at trees index) (format_error detail)) (\<lambda>t.
     bind (decode t r) (\<lambda>(v, t, r). ret (v, trees[index := t], r)))"

section \<open>Lengths\<close>

record length_decoder =
  ld_choice :: "u16 list"
  ld_low :: "probability_tree list"
  ld_middle :: "probability_tree list"
  ld_high :: probability_tree

definition length_new :: "('z control_scheme, error, length_decoder) comp" where
  "length_new =
     bind (try_reserve POSITION_STATES) (\<lambda>_.
     bind (try_reserve POSITION_STATES) (\<lambda>_.
     bind (repeat_for POSITION_STATES
             (bind (tree_new 3) (\<lambda>low. bind (tree_new 3) (\<lambda>middle. ret (low, middle))))) (\<lambda>trees.
     bind (tree_new 8) (\<lambda>high.
     ret \<lparr>ld_choice = replicate 2 PROB_INITIAL, ld_low = map fst trees, ld_middle = map snd trees,
          ld_high = high\<rparr>))))"

definition length_reset :: "length_decoder \<Rightarrow> length_decoder" where
  "length_reset d =
     \<lparr>ld_choice = fill_initial (ld_choice d), ld_low = map tree_reset (ld_low d),
      ld_middle = map tree_reset (ld_middle d), ld_high = tree_reset (ld_high d)\<rparr>"

definition length_decode ::
  "length_decoder \<Rightarrow> lzma_range \<Rightarrow> nat \<Rightarrow>
   ('z control_scheme, error, u32 \<times> length_decoder \<times> lzma_range) comp" where
  "length_decode d r position_state =
     bind (decode_at ''LZMA length choice is missing'' (ld_choice d) 0 r) (\<lambda>(b, choice, r).
     let d = d\<lparr>ld_choice := choice\<rparr> in
     if b = 0
     then
       bind (tree_at tree_decode ''LZMA low-length state is out of range'' (ld_low d) position_state r)
         (\<lambda>(v, low, r). ret (v, d\<lparr>ld_low := low\<rparr>, r))
     else
       bind (decode_at ''LZMA length choice is missing'' (ld_choice d) 1 r) (\<lambda>(b, choice, r).
       let d = d\<lparr>ld_choice := choice\<rparr> in
       if b = 0
       then
         bind (tree_at tree_decode ''LZMA middle-length state is out of range'' (ld_middle d) position_state r)
           (\<lambda>(v, middle, r).
         bind (ok_or (checked_add32 v 8) (format_error ''LZMA length overflows'')) (\<lambda>v.
         ret (v, d\<lparr>ld_middle := middle\<rparr>, r)))
       else
         bind (tree_decode (ld_high d) r) (\<lambda>(v, high, r).
         bind (ok_or (checked_add32 v 16) (format_error ''LZMA length overflows'')) (\<lambda>v.
         ret (v, d\<lparr>ld_high := high\<rparr>, r)))))"

section \<open>Distances\<close>

record distance_decoder =
  dd_position_slots :: "probability_tree list"
  dd_position_models :: "probability_tree list"
  dd_alignment :: probability_tree

definition distance_new :: "('z control_scheme, error, distance_decoder) comp" where
  "distance_new =
     bind (try_reserve (unat LENGTH_STATES)) (\<lambda>_.
     bind (repeat_for (unat LENGTH_STATES) (tree_new POSITION_SLOT_BITS)) (\<lambda>slots.
     bind (ok_or (checked_sub32 END_POSITION_MODEL START_POSITION_MODEL)
             (format_error ''LZMA position-model count underflows'')) (\<lambda>model_count.
     bind (try_reserve (unat model_count)) (\<lambda>_.
     bind (map_for (\<lambda>slot.
             bind (ok_or (checked_sub (slot div 2) 1)
                     (format_error ''LZMA position-model width underflows'')) tree_new)
             [unat START_POSITION_MODEL..<unat END_POSITION_MODEL]) (\<lambda>models.
     bind (tree_new ALIGN_BITS) (\<lambda>alignment.
     ret \<lparr>dd_position_slots = slots, dd_position_models = models, dd_alignment = alignment\<rparr>))))))"

definition distance_reset :: "distance_decoder \<Rightarrow> distance_decoder" where
  "distance_reset d =
     \<lparr>dd_position_slots = map tree_reset (dd_position_slots d),
      dd_position_models = map tree_reset (dd_position_models d),
      dd_alignment = tree_reset (dd_alignment d)\<rparr>"

primrec direct_bits_loop ::
  "nat \<Rightarrow> u32 \<Rightarrow> lzma_range \<Rightarrow> ('z control_scheme, error, u32 \<times> lzma_range) comp" where
  "direct_bits_loop 0 direct r = ret (direct, r)"
| "direct_bits_loop (Suc n) direct r =
     bind (decode_direct_bit r) (\<lambda>(b, r).
     bind (ok_or (checked_add32 (push_bit 1 direct) b)
             (format_error ''LZMA direct distance overflows'')) (\<lambda>direct.
     direct_bits_loop n direct r))"

text \<open>A distance of slot fourteen and above: direct bits, then the four aligned ones.\<close>

definition distance_far ::
  "distance_decoder \<Rightarrow> lzma_range \<Rightarrow> nat \<Rightarrow> u32 \<Rightarrow>
   ('z control_scheme, error, u32 \<times> distance_decoder \<times> lzma_range) comp" where
  "distance_far d r bits base =
     bind (ok_or (checked_sub bits ALIGN_BITS)
             (format_error ''LZMA direct-distance width underflows'')) (\<lambda>direct_bits.
     bind (direct_bits_loop direct_bits 0 r) (\<lambda>(direct, r).
     let direct = push_bit ALIGN_BITS direct in
     bind (tree_decode_reverse (dd_alignment d) r) (\<lambda>(alignment, tree, r).
     bind (ok_or (case checked_add32 base direct of None \<Rightarrow> None | Some v \<Rightarrow> checked_add32 v alignment)
             (format_error ''LZMA distance overflows'')) (\<lambda>v.
     ret (v, d\<lparr>dd_alignment := tree\<rparr>, r)))))"

definition distance_decode ::
  "distance_decoder \<Rightarrow> lzma_range \<Rightarrow> u32 \<Rightarrow>
   ('z control_scheme, error, u32 \<times> distance_decoder \<times> lzma_range) comp" where
  "distance_decode d r len =
     (let length_state = min len (saturating_sub32 LENGTH_STATES 1) in
     bind (tree_at tree_decode ''LZMA position-slot state is out of range''
             (dd_position_slots d) (unat length_state) r) (\<lambda>(position_slot, slots, r).
     let d = d\<lparr>dd_position_slots := slots\<rparr> in
     if position_slot < START_POSITION_MODEL then ret (position_slot, d, r)
     else
       bind (ok_or (checked_sub32 (drop_bit 1 position_slot) 1)
               (format_error ''LZMA distance width underflows'')) (\<lambda>bits.
       bind (ok_or (if unat bits < 32 then Some (push_bit (unat bits) (2 OR (position_slot AND 1))) else None)
               (format_error ''LZMA distance base overflows'')) (\<lambda>base.
       if position_slot < END_POSITION_MODEL
       then
         bind (ok_or (checked_sub32 position_slot START_POSITION_MODEL)
                 (format_error ''LZMA position-model index underflows'')) (\<lambda>model.
         bind (tree_at tree_decode_reverse ''LZMA position-model index is out of range''
                 (dd_position_models d) (unat model) r) (\<lambda>(suffix, models, r).
         bind (ok_or (checked_add32 base suffix) (format_error ''LZMA distance overflows'')) (\<lambda>v.
         ret (v, d\<lparr>dd_position_models := models\<rparr>, r))))
       else distance_far d r (unat bits) base))))"

section \<open>Literals\<close>

record literal_decoder =
  lt_probabilities :: "u16 list"
  lt_context_bits :: nat
  lt_position_bits :: nat

definition literal_new :: "nat \<Rightarrow> nat \<Rightarrow> ('z control_scheme, error, literal_decoder) comp" where
  "literal_new lc lp =
     bind (ok_or (if lc + lp < 2 ^ 32 then Some (lc + lp) else None)
             (format_error ''LZMA literal context width overflows'')) (\<lambda>context_bits.
     bind (guard (context_bits \<le> 4)
             (format_error ''LZMA literal context width exceeds 7z limits'')) (\<lambda>_.
     bind (ok_or (checked_mul (2 ^ context_bits) 0x300)
             (format_error ''LZMA literal probability count overflows'')) (\<lambda>count.
     bind (try_reserve count) (\<lambda>_.
     ret \<lparr>lt_probabilities = replicate count PROB_INITIAL, lt_context_bits = lc, lt_position_bits = lp\<rparr>))))"

definition literal_reset :: "literal_decoder \<Rightarrow> literal_decoder" where
  "literal_reset d = d\<lparr>lt_probabilities := fill_initial (lt_probabilities d)\<rparr>"

text \<open>One bit of a literal: the probability at \<open>base + index\<close>, and the symbol extended by the bit.\<close>

definition literal_bit ::
  "nat \<Rightarrow> u32 \<Rightarrow> u32 \<Rightarrow> u16 list \<Rightarrow> lzma_range \<Rightarrow>
   ('z control_scheme, error, u32 \<times> u32 \<times> u16 list \<times> lzma_range) comp" where
  "literal_bit base index symbol probabilities r =
     bind (ok_or (checked_add base (unat index))
             (format_error ''LZMA literal probability index overflows'')) (\<lambda>index.
     bind (decode_at ''LZMA literal probability index is out of range'' probabilities index r)
       (\<lambda>(b, probabilities, r).
     bind (ok_or (checked_add32 (push_bit 1 symbol) b)
             (format_error ''LZMA literal symbol overflows'')) (\<lambda>symbol.
     ret (b, symbol, probabilities, r))))"

text \<open>
  The two loops of a literal. A symbol starts at one and doubles until it reaches \<open>0x100\<close>, so eight
  rounds are enough; the error of a ninth round is not in the code, and \<open>LzmaLiteral\<close> shows that it
  is never returned.
\<close>

definition symbol_rounds :: nat where "symbol_rounds = 8"

definition rounds_error :: error where
  "rounds_error = Format ''LZMA literal needs more rounds''"

primrec literal_matched ::
  "nat \<Rightarrow> nat \<Rightarrow> u32 \<Rightarrow> u32 \<Rightarrow> u16 list \<Rightarrow> lzma_range \<Rightarrow>
   ('z control_scheme, error, u32 \<times> u16 list \<times> lzma_range) comp" where
  "literal_matched 0 base symbol matched probabilities r = fail rounds_error"
| "literal_matched (Suc n) base symbol matched probabilities r =
     (let match_bit = drop_bit 7 matched AND 1;
          matched = push_bit 1 matched in
     bind (ok_or (case checked_add32 1 match_bit of None \<Rightarrow> None | Some v \<Rightarrow> Some (push_bit 8 v OR symbol))
             (format_error ''LZMA literal match index overflows'')) (\<lambda>index.
     bind (literal_bit base index symbol probabilities r) (\<lambda>(b, symbol, probabilities, r).
     if match_bit \<noteq> b \<or> symbol \<ge> 0x100 then ret (symbol, probabilities, r)
     else literal_matched n base symbol matched probabilities r)))"

primrec literal_plain ::
  "nat \<Rightarrow> nat \<Rightarrow> u32 \<Rightarrow> u16 list \<Rightarrow> lzma_range \<Rightarrow>
   ('z control_scheme, error, u32 \<times> u16 list \<times> lzma_range) comp" where
  "literal_plain 0 base symbol probabilities r =
     (if symbol < 0x100 then fail rounds_error else ret (symbol, probabilities, r))"
| "literal_plain (Suc n) base symbol probabilities r =
     (if symbol < 0x100
      then
        bind (literal_bit base symbol symbol probabilities r) (\<lambda>(_, symbol, probabilities, r).
        literal_plain n base symbol probabilities r)
      else ret (symbol, probabilities, r))"

definition literal_base :: "literal_decoder \<Rightarrow> u8 \<Rightarrow> nat \<Rightarrow> ('s, error, nat) comp" where
  "literal_base d previous_byte position =
     bind (ok_or (if lt_position_bits d < 64
                  then let v = push_bit (lt_position_bits d) 1 :: u64 in if v = 0 then None else Some (v - 1)
                  else None)
             (format_error ''LZMA literal position mask overflows'')) (\<lambda>position_mask.
     bind (ok_or (if lt_context_bits d < 64
                  then Some (push_bit (lt_context_bits d) ((of_nat position :: u64) AND position_mask)) else None)
             (format_error ''LZMA literal position state overflows'')) (\<lambda>position_part.
     let previous_part = drop_bit (8 - lt_context_bits d) (ucast previous_byte :: u64);
         literal_state = position_part OR previous_part in
     ok_or (checked_mul (unat literal_state) 0x300)
       (format_error ''LZMA literal probability base overflows'')))"

definition literal_decode ::
  "literal_decoder \<Rightarrow> lzma_range \<Rightarrow> nat \<Rightarrow> u8 \<Rightarrow> u8 \<Rightarrow> nat \<Rightarrow>
   ('z control_scheme, error, u8 \<times> literal_decoder \<times> lzma_range) comp" where
  "literal_decode d r state match_byte previous_byte position =
     bind (literal_base d previous_byte position) (\<lambda>base.
     bind (if state \<ge> 7
           then literal_matched symbol_rounds base 1 (ucast match_byte) (lt_probabilities d) r
           else ret (1, lt_probabilities d, r)) (\<lambda>(symbol, probabilities, r).
     bind (literal_plain symbol_rounds base symbol probabilities r) (\<lambda>(symbol, probabilities, r).
     bind (ok_or (checked_sub32 symbol 0x100) (format_error ''LZMA literal symbol underflows'')) (\<lambda>v.
     bind (guard (v < 0x100) (format_error ''LZMA literal is not representable'')) (\<lambda>_.
     ret (ucast v, d\<lparr>lt_probabilities := probabilities\<rparr>, r))))))"

end
