(* ===== verification/Lzma.thy ===== *)
theory Lzma
  imports LzmaRange
begin

unbundle bit_operations_syntax

text \<open>
  LZMA and LZMA2 (\<open>decode/lzma.rs\<close>): the state machine over literals, matches and repeated matches,
  the output with its sliding dictionary, the stream loop and the chunks of LZMA2.
\<close>

section \<open>The state\<close>

record lzma_state =
  lz_repetitions :: "u32 list"
  lz_is_match :: "u16 list"
  lz_is_rep_zero_long :: "u16 list"
  lz_is_rep :: "u16 list"
  lz_is_rep_zero :: "u16 list"
  lz_is_rep_one :: "u16 list"
  lz_is_rep_two :: "u16 list"
  lz_literal :: literal_decoder
  lz_length :: length_decoder
  lz_repetition_length :: length_decoder
  lz_distance :: distance_decoder
  lz_state :: nat
  lz_position_mask :: u64

definition lzma_state_new :: "nat \<Rightarrow> nat \<Rightarrow> nat \<Rightarrow> ('z control_scheme, error, lzma_state) comp" where
  "lzma_state_new lc lp pb =
     bind (guard (pb \<le> 4) (format_error ''LZMA position-bit property is invalid'')) (\<lambda>_.
     bind (literal_new lc lp) (\<lambda>literal.
     bind length_new (\<lambda>len.
     bind length_new (\<lambda>repetition_length.
     bind distance_new (\<lambda>distance.
     ret \<lparr>lz_repetitions = replicate 4 0,
          lz_is_match = replicate (STATE_COUNT * POSITION_STATES) PROB_INITIAL,
          lz_is_rep_zero_long = replicate (STATE_COUNT * POSITION_STATES) PROB_INITIAL,
          lz_is_rep = replicate STATE_COUNT PROB_INITIAL,
          lz_is_rep_zero = replicate STATE_COUNT PROB_INITIAL,
          lz_is_rep_one = replicate STATE_COUNT PROB_INITIAL,
          lz_is_rep_two = replicate STATE_COUNT PROB_INITIAL,
          lz_literal = literal, lz_length = len, lz_repetition_length = repetition_length,
          lz_distance = distance, lz_state = 0, lz_position_mask = push_bit pb 1 - 1\<rparr>)))))"

definition lzma_state_reset :: "lzma_state \<Rightarrow> lzma_state" where
  "lzma_state_reset st =
     st\<lparr>lz_repetitions := map (\<lambda>_. 0) (lz_repetitions st),
        lz_is_match := fill_initial (lz_is_match st),
        lz_is_rep_zero_long := fill_initial (lz_is_rep_zero_long st),
        lz_is_rep := fill_initial (lz_is_rep st),
        lz_is_rep_zero := fill_initial (lz_is_rep_zero st),
        lz_is_rep_one := fill_initial (lz_is_rep_one st),
        lz_is_rep_two := fill_initial (lz_is_rep_two st),
        lz_literal := literal_reset (lz_literal st),
        lz_length := length_reset (lz_length st),
        lz_repetition_length := length_reset (lz_repetition_length st),
        lz_distance := distance_reset (lz_distance st),
        lz_state := 0\<rparr>"

definition update_literal :: "lzma_state \<Rightarrow> lzma_state" where
  "update_literal st =
     st\<lparr>lz_state := if lz_state st < 4 then 0 else if lz_state st < 10 then lz_state st - 3 else lz_state st - 6\<rparr>"

definition update_match :: "lzma_state \<Rightarrow> lzma_state" where
  "update_match st = st\<lparr>lz_state := if lz_state st < 7 then 7 else 10\<rparr>"

definition update_repetition :: "lzma_state \<Rightarrow> lzma_state" where
  "update_repetition st = st\<lparr>lz_state := if lz_state st < 7 then 8 else 11\<rparr>"

definition update_short_repetition :: "lzma_state \<Rightarrow> lzma_state" where
  "update_short_repetition st = st\<lparr>lz_state := if lz_state st < 7 then 9 else 11\<rparr>"

datatype operation = Literal u8 | Match u32 u32 | End

section \<open>The output\<close>

record lzma_output =
  lo_bytes :: "u8 list"
  lo_maximum :: nat
  lo_dictionary_size :: nat
  lo_dictionary_start :: nat

definition output_new ::
  "nat \<Rightarrow> nat \<Rightarrow> nat option \<Rightarrow> ('z control_scheme, error, lzma_output) comp" where
  "output_new maximum dictionary_size expected =
     bind (check_limit (case expected of None \<Rightarrow> 0 | Some n \<Rightarrow> n) maximum TotalOutputBytes) (\<lambda>_.
     bind (case expected of
             Some n \<Rightarrow> bind (u64_to_usize n ''LZMA output size is not representable on this platform'') try_reserve
           | None \<Rightarrow> ret ()) (\<lambda>_.
     ret \<lparr>lo_bytes = [], lo_maximum = maximum, lo_dictionary_size = dictionary_size, lo_dictionary_start = 0\<rparr>))"

definition reset_dictionary :: "lzma_output \<Rightarrow> lzma_output" where
  "reset_dictionary out = out\<lparr>lo_dictionary_start := length (lo_bytes out)\<rparr>"

definition output_position :: "lzma_output \<Rightarrow> ('s, error, nat) comp" where
  "output_position out =
     usize_to_u64 (length (lo_bytes out)) ''decoded LZMA position is not representable as u64''"

definition dictionary_length :: "lzma_output \<Rightarrow> ('s, error, nat) comp" where
  "dictionary_length out =
     bind (ok_or (checked_sub (length (lo_bytes out)) (lo_dictionary_start out))
             (format_error ''LZMA dictionary position underflows'')) (\<lambda>len.
     usize_to_u64 len ''LZMA dictionary length is not representable as u64'')"

definition previous_byte :: "lzma_output \<Rightarrow> u8" where
  "previous_byte out = (if lo_bytes out = [] then 0 else last (lo_bytes out))"

definition match_byte :: "lzma_output \<Rightarrow> u32 \<Rightarrow> u8" where
  "match_byte out distance_offset =
     (case checked_add (unat distance_offset) 1 of
        None \<Rightarrow> 0
      | Some distance \<Rightarrow>
          (case checked_sub (length (lo_bytes out)) distance of
             None \<Rightarrow> 0
           | Some index \<Rightarrow> (case get_at (lo_bytes out) index of None \<Rightarrow> 0 | Some b \<Rightarrow> b)))"

definition ensure_additional :: "lzma_output \<Rightarrow> nat \<Rightarrow> ('z control_scheme, error, unit) comp" where
  "ensure_additional out additional =
     bind (output_position out) (\<lambda>position.
     bind (ok_or (checked_add position additional) (format_error ''decoded LZMA size overflows'')) (\<lambda>requested.
     bind (check_limit requested (lo_maximum out) TotalOutputBytes) (\<lambda>_.
     bind (u64_to_usize additional ''LZMA output increment is not representable on this platform'') (\<lambda>additional.
     reserve_with ''LZMA output allocation failed'' additional))))"

definition output_push :: "u8 \<Rightarrow> lzma_output \<Rightarrow> ('z control_scheme, error, lzma_output) comp" where
  "output_push byte out =
     bind (ensure_additional out 1) (\<lambda>_.
     bind (checkpoint 1) (\<lambda>_.
     ret (out\<lparr>lo_bytes := lo_bytes out @ [byte]\<rparr>)))"

definition extend_uncompressed :: "u8 list \<Rightarrow> lzma_output \<Rightarrow> ('z control_scheme, error, lzma_output) comp" where
  "extend_uncompressed bytes out =
     bind (usize_to_u64 (length bytes)
             ''LZMA2 uncompressed chunk length is not representable as u64'') (\<lambda>n.
     bind (ensure_additional out n) (\<lambda>_.
     fold_for (\<lambda>chunk out.
         bind (usize_to_u64 (length chunk) ''LZMA2 work chunk length is not representable as u64'') (\<lambda>n.
         bind (checkpoint n) (\<lambda>_.
         ret (out\<lparr>lo_bytes := lo_bytes out @ chunk\<rparr>))))
       (chunks CONTROL_CHUNK_SIZE bytes) out))"

primrec copy_bytes_loop ::
  "nat \<Rightarrow> nat \<Rightarrow> u8 list \<Rightarrow> ('z control_scheme, error, u8 list) comp" where
  "copy_bytes_loop 0 distance bytes = ret bytes"
| "copy_bytes_loop (Suc n) distance bytes =
     bind (checkpoint 1) (\<lambda>_.
     bind (ok_or (checked_sub (length bytes) distance)
             (format_error ''LZMA match source underflows'')) (\<lambda>source.
     bind (ok_or (get_at bytes source)
             (format_error ''LZMA match source is out of range'')) (\<lambda>byte.
     copy_bytes_loop n distance (bytes @ [byte]))))"

definition history_error :: "nat \<Rightarrow> nat \<Rightarrow> nat \<Rightarrow> error" where
  "history_error distance available position =
     Format (''LZMA match distance '' @ decimal distance @ '' exceeds available history '' @
       decimal available @ '' at output '' @ decimal position)"

definition lzma_copy_match ::
  "u32 \<Rightarrow> u32 \<Rightarrow> lzma_output \<Rightarrow> ('z control_scheme, error, lzma_output) comp" where
  "lzma_copy_match distance len out =
     (let d = unat distance in
     bind (guard (d \<noteq> 0) (format_error ''LZMA match distance is zero'')) (\<lambda>_.
     bind (guard (d \<le> lo_dictionary_size out)
             (format_error ''LZMA match distance exceeds the declared dictionary'')) (\<lambda>_.
     bind (dictionary_length out) (\<lambda>available.
     bind (if d > available
           then bind (dictionary_length out) (\<lambda>available.
                bind (output_position out) (\<lambda>position.
                fail (history_error d available position)))
           else ret ()) (\<lambda>_.
     bind (ensure_additional out (unat len)) (\<lambda>_.
     bind (copy_bytes_loop (unat len) d (lo_bytes out)) (\<lambda>bytes.
     ret (out\<lparr>lo_bytes := bytes\<rparr>))))))))"

definition properties_from_byte :: "u8 \<Rightarrow> ('s, error, nat \<times> nat \<times> nat) comp" where
  "properties_from_byte byte =
     (let parameter = unat byte in
     bind (guard (parameter \<le> 224) (format_error ''invalid LZMA property byte'')) (\<lambda>_.
     let lc = parameter mod 9; remainder = parameter div 9; lp = remainder mod 5; pb = remainder div 5 in
     bind (guard (pb \<le> 4 \<and> lc + lp \<le> 4) (format_error ''invalid LZMA lc/lp/pb properties'')) (\<lambda>_.
     ret (lc, lp, pb))))"

section \<open>One operation\<close>

definition repetition_at :: "lzma_state \<Rightarrow> nat \<Rightarrow> ('s, error, u32) comp" where
  "repetition_at st i = ok_or (get_at (lz_repetitions st) i) (format_error ''LZMA repetition state is missing'')"

text \<open>\<open>if let Some(item) = get_mut(i)\<close>: nothing happens out of range, as in \<open>list_update\<close>.\<close>

definition set_repetition :: "nat \<Rightarrow> u32 \<Rightarrow> lzma_state \<Rightarrow> lzma_state" where
  "set_repetition i v st = st\<lparr>lz_repetitions := (lz_repetitions st)[i := v]\<rparr>"

definition new_literal ::
  "lzma_state \<Rightarrow> lzma_range \<Rightarrow> lzma_output \<Rightarrow> nat \<Rightarrow>
   ('z control_scheme, error, operation \<times> lzma_state \<times> lzma_range) comp" where
  "new_literal st r out position =
     bind (repetition_at st 0) (\<lambda>rep0.
     bind (literal_decode (lz_literal st) r (lz_state st) (match_byte out rep0) (previous_byte out) position)
       (\<lambda>(literal, d, r).
     ret (Literal literal, update_literal (st\<lparr>lz_literal := d\<rparr>), r)))"

definition new_match ::
  "lzma_state \<Rightarrow> lzma_range \<Rightarrow> nat \<Rightarrow>
   ('z control_scheme, error, operation \<times> lzma_state \<times> lzma_range) comp" where
  "new_match st r position_state =
     bind (repetition_at st 0) (\<lambda>rep0.
     bind (repetition_at st 1) (\<lambda>rep1.
     bind (repetition_at st 2) (\<lambda>rep2.
     let st = update_match (set_repetition 1 rep0 (set_repetition 2 rep1 (set_repetition 3 rep2 st))) in
     bind (length_decode (lz_length st) r position_state) (\<lambda>(length_offset, d, r).
     let st = st\<lparr>lz_length := d\<rparr> in
     bind (distance_decode (lz_distance st) r length_offset) (\<lambda>(distance_offset, d, r).
     let st = set_repetition 0 distance_offset (st\<lparr>lz_distance := d\<rparr>) in
     if distance_offset = EOS_DISTANCE then ret (End, st, r)
     else
       bind (ok_or (checked_add32 distance_offset 1)
               (format_error ''LZMA match distance overflows'')) (\<lambda>distance.
       bind (ok_or (checked_add32 length_offset MIN_MATCH_LENGTH)
               (format_error ''LZMA match length overflows'')) (\<lambda>len.
       ret (Match distance len, st, r))))))))"

text \<open>
  The distance of a repeated match that is not the last one. The second component of the result is
  the state with the older distances moved back; the chosen one is not in front yet.
\<close>

definition older_repetition ::
  "lzma_state \<Rightarrow> lzma_range \<Rightarrow> ('z control_scheme, error, u32 \<times> lzma_state \<times> lzma_range) comp" where
  "older_repetition st r =
     bind (decode_at ''LZMA repetition-one state is out of range'' (lz_is_rep_one st) (lz_state st) r)
       (\<lambda>(b, probabilities, r).
     let st = st\<lparr>lz_is_rep_one := probabilities\<rparr> in
     if b = 0 then bind (repetition_at st 1) (\<lambda>distance. ret (distance, st, r))
     else
       bind (decode_at ''LZMA repetition-two state is out of range'' (lz_is_rep_two st) (lz_state st) r)
         (\<lambda>(b, probabilities, r).
       let st = st\<lparr>lz_is_rep_two := probabilities\<rparr> in
       bind (if b = 0 then bind (repetition_at st 2) (\<lambda>distance. ret (distance, st))
             else bind (repetition_at st 3) (\<lambda>v.
                  bind (repetition_at st 2) (\<lambda>rep2. ret (v, set_repetition 3 rep2 st)))) (\<lambda>(distance, st).
       bind (repetition_at st 1) (\<lambda>rep1.
       ret (distance, set_repetition 2 rep1 st, r)))))"

text \<open>The end of a repeated match: its length.\<close>

definition repetition_match ::
  "lzma_state \<Rightarrow> lzma_range \<Rightarrow> nat \<Rightarrow> u32 \<Rightarrow>
   ('z control_scheme, error, operation \<times> lzma_state \<times> lzma_range) comp" where
  "repetition_match st r position_state distance =
     bind (length_decode (lz_repetition_length st) r position_state) (\<lambda>(length_offset, d, r).
     let st = update_repetition (st\<lparr>lz_repetition_length := d\<rparr>) in
     bind (ok_or (checked_add32 distance 1)
             (format_error ''LZMA repetition distance overflows'')) (\<lambda>distance.
     bind (ok_or (checked_add32 length_offset MIN_MATCH_LENGTH)
             (format_error ''LZMA repetition length overflows'')) (\<lambda>len.
     ret (Match distance len, st, r))))"

definition old_match ::
  "lzma_state \<Rightarrow> lzma_range \<Rightarrow> nat \<Rightarrow> nat \<Rightarrow>
   ('z control_scheme, error, operation \<times> lzma_state \<times> lzma_range) comp" where
  "old_match st r position_state combined =
     bind (repetition_at st 0) (\<lambda>distance.
     bind (decode_at ''LZMA repetition-zero state is out of range'' (lz_is_rep_zero st) (lz_state st) r)
       (\<lambda>(b, probabilities, r).
     let st = st\<lparr>lz_is_rep_zero := probabilities\<rparr> in
     if b = 0
     then
       bind (decode_at ''LZMA short-repetition state is out of range'' (lz_is_rep_zero_long st) combined r)
         (\<lambda>(b, probabilities, r).
       let st = st\<lparr>lz_is_rep_zero_long := probabilities\<rparr> in
       if b = 0
       then
         bind (ok_or (checked_add32 distance 1)
                 (format_error ''LZMA repetition distance overflows'')) (\<lambda>distance.
         ret (Match distance 1, update_short_repetition st, r))
       else repetition_match st r position_state distance)
     else
       bind (older_repetition st r) (\<lambda>(distance, st, r).
       bind (repetition_at st 0) (\<lambda>rep0.
       repetition_match (set_repetition 0 distance (set_repetition 1 rep0 st)) r position_state distance))))"

definition decode_operation ::
  "lzma_state \<Rightarrow> lzma_range \<Rightarrow> lzma_output \<Rightarrow>
   ('z control_scheme, error, operation \<times> lzma_state \<times> lzma_range) comp" where
  "decode_operation st r out =
     bind (checkpoint 1) (\<lambda>_.
     bind (output_position out) (\<lambda>position.
     let position_state = unat ((of_nat position :: u64) AND lz_position_mask st) in
     bind (ok_or (case checked_mul (lz_state st) POSITION_STATES of
                    None \<Rightarrow> None | Some v \<Rightarrow> checked_add v position_state)
             (format_error ''LZMA state index overflows'')) (\<lambda>combined.
     bind (decode_at ''LZMA match state is out of range'' (lz_is_match st) combined r)
       (\<lambda>(b, probabilities, r).
     let st = st\<lparr>lz_is_match := probabilities\<rparr> in
     if b = 0 then new_literal st r out position
     else
       bind (decode_at ''LZMA repetition state is out of range'' (lz_is_rep st) (lz_state st) r)
         (\<lambda>(b, probabilities, r).
       let st = st\<lparr>lz_is_rep := probabilities\<rparr> in
       if b = 0 then new_match st r position_state
       else old_match st r position_state combined)))))"

section \<open>A stream\<close>

definition apply_operation ::
  "nat option \<Rightarrow> operation \<Rightarrow> lzma_output \<Rightarrow> ('z control_scheme, error, lzma_output) comp" where
  "apply_operation target operation out =
     (case operation of
        Literal byte \<Rightarrow> output_push byte out
      | Match distance len \<Rightarrow>
          bind (case target of
                  None \<Rightarrow> ret ()
                | Some n \<Rightarrow>
                    bind (output_position out) (\<lambda>position.
                    bind (ok_or (checked_add position (unat len))
                            (format_error ''LZMA match result size overflows'')) (\<lambda>resulting.
                    guard (resulting \<le> n) (format_error ''LZMA output exceeds its declared size'')))) (\<lambda>_.
          lzma_copy_match distance len out)
      | End \<Rightarrow> ret out)"

definition end_of_stream ::
  "nat option \<Rightarrow> bool \<Rightarrow> lzma_range \<Rightarrow> lzma_output \<Rightarrow> ('s, error, unit) comp" where
  "end_of_stream target require_eos r out =
     bind (guard (possibly_at_end r) (format_error ''LZMA range state is not final at EOS'')) (\<lambda>_.
     bind (guard (range_is_finished r) (format_error ''LZMA stream has trailing input after EOS'')) (\<lambda>_.
     bind (case target of
             None \<Rightarrow> ret ()
           | Some n \<Rightarrow> bind (output_position out) (\<lambda>position.
               guard (position = n) (format_error ''LZMA EOS precedes its declared size''))) (\<lambda>_.
     guard (require_eos \<or> target \<noteq> None) (format_error ''LZMA stream ended unexpectedly''))))"

lemma ensure_additional_Inr:
  "ensure_additional out n s = (Inr x, t) \<Longrightarrow> length (lo_bytes out) + n \<le> lo_maximum out"
  by (auto simp: ensure_additional_def output_position_def success)

lemma copy_bytes_loop_Inr:
  "copy_bytes_loop n d bytes s = (Inr x, t) \<Longrightarrow> length x = length bytes + n"
  by (induction n arbitrary: bytes s) (fastforce simp: success)+

lemma old_length: "0 < unat v" if "checked_add32 x 2 = Some v"
  using that by (auto simp: checked_add32_def unat_word_ariths split: if_splits)

lemma decode_operation_Inr:
  assumes "decode_operation st r out s = (Inr (operation, st', r'), t)"
  shows "case operation of Match distance len \<Rightarrow> 0 < unat len | _ \<Rightarrow> True"
  using assms
  by (auto simp: decode_operation_def new_literal_def new_match_def old_match_def repetition_match_def
      MIN_MATCH_LENGTH_def success Let_def dest: old_length)

lemma apply_operation_Inr:
  assumes "apply_operation target operation out s = (Inr out', t)"
    and "case operation of Match distance len \<Rightarrow> 0 < unat len | _ \<Rightarrow> True" "operation \<noteq> End"
  shows "lo_maximum out' = lo_maximum out \<and> length (lo_bytes out) < length (lo_bytes out')
    \<and> length (lo_bytes out') \<le> lo_maximum out"
  using assms
  by (auto simp: apply_operation_def output_push_def lzma_copy_match_def success Let_def
      split: operation.splits dest!: ensure_additional_Inr copy_bytes_loop_Inr)

function lzma_loop ::
  "nat option \<Rightarrow> bool \<Rightarrow> lzma_state \<Rightarrow> lzma_range \<Rightarrow> lzma_output \<Rightarrow>
   ('z control_scheme, error, lzma_state \<times> lzma_output) comp" where
  "lzma_loop target require_eos st r out s =
     bind (output_position out) (\<lambda>position.
     branch (target = Some position) (ret (st, out))
      (bind (decode_operation st r out) (\<lambda>x.
       branch (fst x = End)
        (bind (end_of_stream target require_eos (snd (snd x)) out) (\<lambda>_. ret (fst (snd x), out)))
        (bind (apply_operation target (fst x) out)
          (lzma_loop target require_eos (fst (snd x)) (snd (snd x))))))) s"
  by pat_completeness auto
termination
proof (relation "measure (\<lambda>(target, require_eos, st, r, out, s). lo_maximum out - length (lo_bytes out))", goal_cases)
  case 1
  show ?case by simp
next
  case (2 target require_eos st r out s position t x u out' v)
  then have "case fst x of Match distance len \<Rightarrow> 0 < unat len | _ \<Rightarrow> True"
    using decode_operation_Inr [of st r out t "fst x" "fst (snd x)" "snd (snd x)"] by simp
  with 2 show ?case by (auto dest!: apply_operation_Inr)
qed

declare lzma_loop.simps [simp del]

definition decode_stream ::
  "lzma_state \<Rightarrow> u8 list \<Rightarrow> lzma_output \<Rightarrow> nat option \<Rightarrow> bool \<Rightarrow>
   ('z control_scheme, error, lzma_state \<times> lzma_output) comp" where
  "decode_stream st input out expected_increment require_eos =
     bind (output_position out) (\<lambda>start.
     bind (case expected_increment of
             None \<Rightarrow> ret None
           | Some increment \<Rightarrow>
               bind (ok_or (checked_add start increment) (format_error ''LZMA target size overflows'')) (\<lambda>n.
               ret (Some n))) (\<lambda>target.
     bind (case target of None \<Rightarrow> ret () | Some n \<Rightarrow> check_limit n (lo_maximum out) TotalOutputBytes) (\<lambda>_.
     bind (lzma_range_new input) (\<lambda>r.
     lzma_loop target require_eos st r out))))"

section \<open>LZMA\<close>

definition lzma_dictionary :: "u8 list \<Rightarrow> ('s, error, u8 \<times> u32) comp" where
  "lzma_dictionary properties =
     bind (guard (length properties = 5)
             (format_error ''LZMA properties must contain exactly five bytes'')) (\<lambda>_.
     bind (ok_or (get_range properties 1 5)
             (format_error ''LZMA dictionary property is truncated'')) (\<lambda>word.
     bind (guard (length word = 4) (format_error ''LZMA dictionary property is truncated'')) (\<lambda>_.
     bind (ok_or (get_at properties 0) (format_error ''LZMA property byte is missing'')) (\<lambda>first.
     ret (first, max (from_le_bytes word) 1)))))"

definition decode_lzma ::
  "u8 list \<Rightarrow> u8 list \<Rightarrow> nat option \<Rightarrow> nat \<Rightarrow> ('z control_scheme, error, u8 list) comp" where
  "decode_lzma input properties expected maximum =
     bind (lzma_dictionary properties) (\<lambda>(property, dictionary).
     bind (properties_from_byte property) (\<lambda>(lc, lp, pb).
     bind (lzma_state_new lc lp pb) (\<lambda>st.
     bind (output_new maximum (unat dictionary) expected) (\<lambda>out.
     bind (decode_stream st input out expected (expected = None)) (\<lambda>(st, out).
     ret (lo_bytes out))))))"

section \<open>LZMA2\<close>

definition lzma2_dictionary :: "u8 list \<Rightarrow> ('s, error, nat) comp" where
  "lzma2_dictionary properties =
     bind (ok_or (get_at properties 0) (format_error ''LZMA2 dictionary property is missing'')) (\<lambda>property.
     bind (guard (length properties = 1 \<and> property \<le> 40)
             (format_error ''invalid LZMA2 dictionary property'')) (\<lambda>_.
     let property = ucast property :: u32 in
     bind (ok_or (checked_add32 (property div 2) 11)
             (format_error ''LZMA2 dictionary shift overflows'')) (\<lambda>shift.
     bind (ok_or (if shift < 64
                  then Some (push_bit (unat shift) (ucast (2 OR (property AND 1)) :: u64)) else None)
             (format_error ''LZMA2 dictionary size overflows'')) (\<lambda>dictionary. ret (unat dictionary)))))"

record slice_cursor =
  sc_bytes :: "u8 list"
  sc_position :: nat

definition slice_read_u8 :: "slice_cursor \<Rightarrow> ('z control_scheme, error, u8 \<times> slice_cursor) comp" where
  "slice_read_u8 c =
     bind (checkpoint 1) (\<lambda>_.
     bind (ok_or (get_at (sc_bytes c) (sc_position c)) (format_error ''truncated LZMA2 stream'')) (\<lambda>byte.
     bind (ok_or (checked_add (sc_position c) 1)
             (format_error ''LZMA2 input cursor overflows'')) (\<lambda>position.
     ret (byte, c\<lparr>sc_position := position\<rparr>))))"

definition slice_read_u16_be :: "slice_cursor \<Rightarrow> ('z control_scheme, error, u16 \<times> slice_cursor) comp" where
  "slice_read_u16_be c =
     bind (slice_read_u8 c) (\<lambda>(high, c).
     bind (slice_read_u8 c) (\<lambda>(low, c).
     ret (push_bit 8 (ucast high) OR ucast low, c)))"

definition slice_read_bytes ::
  "nat \<Rightarrow> slice_cursor \<Rightarrow> ('z control_scheme, error, u8 list \<times> slice_cursor) comp" where
  "slice_read_bytes len c =
     bind (ok_or (checked_add (sc_position c) len)
             (format_error ''LZMA2 input range overflows'')) (\<lambda>end_at.
     bind (ok_or (get_range (sc_bytes c) (sc_position c) end_at)
             (format_error ''truncated LZMA2 chunk'')) (\<lambda>bytes.
     bind (consume_bytes bytes) (\<lambda>_.
     ret (bytes, c\<lparr>sc_position := end_at\<rparr>))))"

definition slice_is_finished :: "slice_cursor \<Rightarrow> bool" where
  "slice_is_finished c \<longleftrightarrow> sc_position c = length (sc_bytes c)"

record lzma2_state =
  l2_input :: slice_cursor
  l2_output :: lzma_output
  l2_state :: "lzma_state option"
  l2_needs_dictionary_reset :: bool
  l2_needs_properties :: bool

text \<open>The state of a compressed chunk: new properties, a reset, or the state as it is.\<close>

definition chunk_state ::
  "u8 \<Rightarrow> lzma2_state \<Rightarrow> ('z control_scheme, error, lzma2_state) comp" where
  "chunk_state control_byte l =
     (if control_byte \<ge> 0xc0
      then
        bind (slice_read_u8 (l2_input l)) (\<lambda>(property, input).
        bind (properties_from_byte property) (\<lambda>(lc, lp, pb).
        bind (lzma_state_new lc lp pb) (\<lambda>st.
        ret (l\<lparr>l2_input := input, l2_state := Some st, l2_needs_properties := False\<rparr>))))
      else if l2_needs_properties l
      then fail (format_error ''LZMA2 compressed chunk omits required properties'')
      else if control_byte \<ge> 0xa0
      then bind (ok_or (l2_state l) (format_error ''LZMA2 decoder state is missing'')) (\<lambda>st.
           ret (l\<lparr>l2_state := Some (lzma_state_reset st)\<rparr>))
      else ret l)"

definition compressed_chunk ::
  "u8 \<Rightarrow> lzma2_state \<Rightarrow> ('z control_scheme, error, lzma2_state) comp" where
  "compressed_chunk control_byte l =
     (let high = push_bit 16 (ucast (control_byte AND 0x1f) :: u64) in
     bind (slice_read_u16_be (l2_input l)) (\<lambda>(low, input).
     bind (ok_or (case checked_add (unat high) (unat low) of None \<Rightarrow> None | Some v \<Rightarrow> checked_add v 1)
             (format_error ''LZMA2 chunk size overflows'')) (\<lambda>unpacked.
     bind (slice_read_u16_be input) (\<lambda>(low, input).
     bind (ok_or (checked_add (unat low) 1) (format_error ''LZMA2 packed chunk size overflows'')) (\<lambda>packed.
     bind (chunk_state control_byte (l\<lparr>l2_input := input\<rparr>)) (\<lambda>l.
     bind (slice_read_bytes packed (l2_input l)) (\<lambda>(bytes, input).
     bind (ok_or (l2_state l) (format_error ''LZMA2 decoder properties are missing'')) (\<lambda>st.
     bind (decode_stream st bytes (l2_output l) (Some unpacked) False) (\<lambda>(st, out).
     ret (l\<lparr>l2_input := input, l2_state := Some st, l2_output := out\<rparr>))))))))))"

definition uncompressed_chunk :: "lzma2_state \<Rightarrow> ('z control_scheme, error, lzma2_state) comp" where
  "uncompressed_chunk l =
     bind (slice_read_u16_be (l2_input l)) (\<lambda>(low, input).
     bind (ok_or (checked_add (unat low) 1)
             (format_error ''LZMA2 uncompressed chunk size overflows'')) (\<lambda>unpacked.
     bind (slice_read_bytes unpacked input) (\<lambda>(bytes, input).
     bind (extend_uncompressed bytes (l2_output l)) (\<lambda>out.
     ret (l\<lparr>l2_input := input, l2_output := out\<rparr>)))))"

definition lzma2_chunk ::
  "nat option \<Rightarrow> u8 \<Rightarrow> lzma2_state \<Rightarrow> ('z control_scheme, error, lzma2_state) comp" where
  "lzma2_chunk expected control_byte l =
     bind (if control_byte \<ge> 0xe0 \<or> control_byte = 1
           then ret (l\<lparr>l2_output := reset_dictionary (l2_output l), l2_needs_dictionary_reset := False,
                       l2_needs_properties := True\<rparr>)
           else if l2_needs_dictionary_reset l
           then fail (format_error ''LZMA2 stream omits its initial dictionary reset'')
           else ret l) (\<lambda>l.
     bind (if control_byte \<ge> 0x80 then compressed_chunk control_byte l
           else if control_byte \<le> 2 then uncompressed_chunk l
           else fail (format_error ''reserved LZMA2 control byte'')) (\<lambda>l.
     bind (case expected of
             None \<Rightarrow> ret ()
           | Some n \<Rightarrow> bind (output_position (l2_output l)) (\<lambda>position.
               guard (position \<le> n) (format_error ''LZMA2 output exceeds its declared size''))) (\<lambda>_.
     ret l)))"

definition lzma2_end :: "nat option \<Rightarrow> lzma2_state \<Rightarrow> ('s, error, u8 list) comp" where
  "lzma2_end expected l =
     bind (guard (slice_is_finished (l2_input l))
             (format_error ''LZMA2 stream has trailing bytes after EOS'')) (\<lambda>_.
     bind (case expected of
             None \<Rightarrow> ret ()
           | Some n \<Rightarrow> bind (output_position (l2_output l)) (\<lambda>position.
               guard (position = n) (format_error ''LZMA2 output size does not match its declaration''))) (\<lambda>_.
     ret (lo_bytes (l2_output l))))"

text \<open>The input of a chunk only moves forward, by at least its control byte.\<close>

definition slice_moves :: "slice_cursor \<Rightarrow> slice_cursor \<Rightarrow> bool" where
  "slice_moves c d \<longleftrightarrow> sc_bytes d = sc_bytes c \<and> sc_position c \<le> sc_position d"

lemma slice_moves_refl: "slice_moves c c"
  by (simp add: slice_moves_def)

lemma slice_moves_trans: "slice_moves c d \<Longrightarrow> slice_moves d e \<Longrightarrow> slice_moves c e"
  by (simp add: slice_moves_def)

lemma slice_read_u8_Inr:
  "slice_read_u8 c s = (Inr (b, d), t) \<Longrightarrow>
     sc_position c < length (sc_bytes c) \<and> d = c\<lparr>sc_position := Suc (sc_position c)\<rparr>"
  by (auto simp: slice_read_u8_def success)

lemma slice_reads_move:
  "slice_read_u8 c s = (Inr (b, d), t) \<Longrightarrow> slice_moves c d"
  "slice_read_u16_be c s = (Inr (v, d), t) \<Longrightarrow> slice_moves c d"
  "slice_read_bytes n c s = (Inr (bs, d), t) \<Longrightarrow> slice_moves c d"
  by (auto simp: slice_read_u16_be_def slice_read_bytes_def slice_moves_def success dest!: slice_read_u8_Inr)

lemma chunk_state_moves:
  "chunk_state b l s = (Inr l', t) \<Longrightarrow> slice_moves (l2_input l) (l2_input l')"
  by (auto simp: chunk_state_def success slice_moves_refl dest!: slice_reads_move)

lemma compressed_chunk_moves:
  "compressed_chunk b l s = (Inr l', t) \<Longrightarrow> slice_moves (l2_input l) (l2_input l')"
  by (auto simp: compressed_chunk_def success Let_def dest!: slice_reads_move chunk_state_moves)
    (auto simp: slice_moves_def)

lemma uncompressed_chunk_moves:
  "uncompressed_chunk l s = (Inr l', t) \<Longrightarrow> slice_moves (l2_input l) (l2_input l')"
  by (auto simp: uncompressed_chunk_def success dest!: slice_reads_move) (auto simp: slice_moves_def)

lemma lzma2_chunk_moves:
  "lzma2_chunk expected b l s = (Inr l', t) \<Longrightarrow> slice_moves (l2_input l) (l2_input l')"
  by (auto simp: lzma2_chunk_def success dest!: compressed_chunk_moves uncompressed_chunk_moves)

function lzma2_loop ::
  "nat option \<Rightarrow> lzma2_state \<Rightarrow> ('z control_scheme, error, u8 list) comp" where
  "lzma2_loop expected l s =
     bind (checkpoint 1) (\<lambda>_.
     bind (slice_read_u8 (l2_input l)) (\<lambda>x.
     branch (fst x = 0)
      (lzma2_end expected (l\<lparr>l2_input := snd x\<rparr>))
      (bind (lzma2_chunk expected (fst x) (l\<lparr>l2_input := snd x\<rparr>)) (lzma2_loop expected)))) s"
  by pat_completeness auto
termination
proof (relation "measure (\<lambda>(expected, l, s). length (sc_bytes (l2_input l)) - sc_position (l2_input l))", goal_cases)
  case 1
  show ?case by simp
next
  case (2 expected l s u s' x t l' v)
  then have "sc_position (l2_input l) < length (sc_bytes (l2_input l))"
    "snd x = (l2_input l)\<lparr>sc_position := Suc (sc_position (l2_input l))\<rparr>"
    using slice_read_u8_Inr [of "l2_input l" s' "fst x" "snd x" t] by simp_all
  moreover have "slice_moves (snd x) (l2_input l')" using 2 by (auto dest: lzma2_chunk_moves)
  ultimately show ?case unfolding slice_moves_def by auto
qed

declare lzma2_loop.simps [simp del]

definition decode_lzma2 ::
  "u8 list \<Rightarrow> u8 list \<Rightarrow> nat option \<Rightarrow> nat \<Rightarrow> ('z control_scheme, error, u8 list) comp" where
  "decode_lzma2 input properties expected maximum =
     bind (lzma2_dictionary properties) (\<lambda>dictionary.
     bind (output_new maximum (max dictionary 1) expected) (\<lambda>out.
     lzma2_loop expected
       \<lparr>l2_input = \<lparr>sc_bytes = input, sc_position = 0\<rparr>, l2_output = out, l2_state = None,
        l2_needs_dictionary_reset = True, l2_needs_properties = True\<rparr>))"

end
