(* ===== verification/Phase5.thy ===== *)
theory Phase5
  imports FilterWords
begin

unbundle bit_operations_syntax

text \<open>
  The size-preserving filters of \<open>decode/phase5_filters.rs\<close>: byte swaps, and the branch filters for
  ARM Thumb, IA-64 and RISC-V. Each scan is a loop over an offset that a step moves forward.
\<close>

definition IA64_BRANCH_TABLE :: "u8 list" where
  "IA64_BRANCH_TABLE = [0, 0, 0, 0, 0, 0, 0, 0, 0, 0, 0, 0, 0, 0, 0, 0,
     4, 4, 6, 6, 0, 0, 7, 7, 4, 4, 0, 0, 4, 4, 0, 0]"

section \<open>Words\<close>

definition p5_word :: "u8 list \<Rightarrow> nat \<Rightarrow> ('s, error, u8 list) comp" where
  "p5_word bytes offset = word_range bytes offset ''compatibility filter word range overflows''
     ''compatibility filter word is truncated'' ''compatibility filter word has the wrong length''"

definition p5_read_u32_le :: "u8 list \<Rightarrow> nat \<Rightarrow> ('s, error, u32) comp" where
  "p5_read_u32_le bytes offset = bind (p5_word bytes offset) (\<lambda>w. ret (from_le_bytes w))"

definition p5_read_u32_be :: "u8 list \<Rightarrow> nat \<Rightarrow> ('s, error, u32) comp" where
  "p5_read_u32_be bytes offset = bind (p5_word bytes offset) (\<lambda>w. ret (from_be_bytes w))"

definition write_u32_le :: "u8 list \<Rightarrow> nat \<Rightarrow> u32 \<Rightarrow> ('s, error, u8 list) comp" where
  "write_u32_le bytes offset v =
     bind (ok_or (checked_add offset 4)
             (format_error ''compatibility filter word range overflows'')) (\<lambda>end_at.
     bind (ok_or (get_range bytes offset end_at)
             (format_error ''compatibility filter word is truncated'')) (\<lambda>_.
     ret (put_bytes bytes offset (to_le_bytes v))))"

text \<open>Six bytes of an IA-64 bundle; the shifts of the source stay below 48, so its checks pass.\<close>

definition u48_range :: "u8 list \<Rightarrow> nat \<Rightarrow> ('s, error, u8 list) comp" where
  "u48_range bytes offset =
     bind (ok_or (checked_add offset 6) (format_error ''IA64 instruction range overflows'')) (\<lambda>end_at.
     ok_or (get_range bytes offset end_at) (format_error ''IA64 instruction is truncated''))"

definition read_u48_le :: "u8 list \<Rightarrow> nat \<Rightarrow> ('s, error, u64) comp" where
  "read_u48_le bytes offset =
     bind (u48_range bytes offset) (\<lambda>instruction.
     ret (fold (\<lambda>(index, byte) v. v OR push_bit (8 * index) (ucast byte)) (enumerate 0 instruction) 0))"

definition write_u48_le :: "u8 list \<Rightarrow> nat \<Rightarrow> u64 \<Rightarrow> ('s, error, u8 list) comp" where
  "write_u48_le bytes offset v =
     bind (u48_range bytes offset) (\<lambda>instruction.
     ret (put_bytes bytes offset
       (map (\<lambda>index. ucast (drop_bit (8 * index) v)) [0..<length instruction])))"

text \<open>The low 32 bits of an offset; a \<open>usize\<close> always fits a \<open>u64\<close>.\<close>

definition low_u32_offset :: "nat \<Rightarrow> u32" where
  "low_u32_offset offset = of_nat offset"

lemma p5_word_Inr [success]:
  "p5_word bytes offset s = (Inr x, t) \<longleftrightarrow>
     offset + 4 < 2 ^ 64 \<and> offset + 4 \<le> length bytes \<and> x = take 4 (drop offset bytes) \<and> t = s"
  by (auto simp: p5_word_def word_range_def success)

lemma p5_words_Inr [success]:
  "p5_read_u32_le bytes offset s = (Inr w, t) \<longleftrightarrow> offset + 4 < 2 ^ 64 \<and> offset + 4 \<le> length bytes
     \<and> w = from_le_bytes (take 4 (drop offset bytes)) \<and> t = s"
  "p5_read_u32_be bytes offset s = (Inr w, t) \<longleftrightarrow> offset + 4 < 2 ^ 64 \<and> offset + 4 \<le> length bytes
     \<and> w = from_be_bytes (take 4 (drop offset bytes)) \<and> t = s"
  "write_u32_le bytes offset v s = (Inr x, t) \<longleftrightarrow> offset + 4 < 2 ^ 64 \<and> offset + 4 \<le> length bytes
     \<and> x = put_bytes bytes offset (to_le_bytes v) \<and> t = s"
  by (auto simp: p5_read_u32_le_def p5_read_u32_be_def write_u32_le_def success)

lemma u48_range_Inr [success]:
  "u48_range bytes offset s = (Inr x, t) \<longleftrightarrow>
     offset + 6 < 2 ^ 64 \<and> offset + 6 \<le> length bytes \<and> x = take 6 (drop offset bytes) \<and> t = s"
  by (auto simp: u48_range_def success)

section \<open>Swap\<close>

primrec swap_chunks :: "nat \<Rightarrow> u8 list list \<Rightarrow> ('z control_scheme, error, u8 list) comp" where
  "swap_chunks width [] = ret []"
| "swap_chunks width (chunk # pieces) =
     bind (checkpoint width) (\<lambda>_.
     bind (swap_chunks width pieces) (\<lambda>rest. ret (rev chunk @ rest)))"

text \<open>\<open>chunks_exact_mut\<close> yields the whole pieces and leaves the shorter tail alone.\<close>

definition exact_chunks :: "nat \<Rightarrow> u8 list \<Rightarrow> u8 list list" where
  "exact_chunks width bytes = filter (\<lambda>chunk. length chunk = width) (chunks width bytes)"

definition decode_swap ::
  "u8 list \<Rightarrow> u8 list \<Rightarrow> nat \<Rightarrow> ('z control_scheme, error, u8 list) comp" where
  "decode_swap bytes properties width =
     bind (guard (properties = []) (format_error ''Swap filter properties must be empty'')) (\<lambda>_.
     bind (guard (width = 2 \<or> width = 4) (format_error ''Swap filter width is invalid'')) (\<lambda>_.
     bind (swap_chunks width (exact_chunks width bytes)) (\<lambda>swapped.
     ret (swapped @ drop (length swapped) bytes))))"

section \<open>ARM Thumb\<close>

definition p5_byte :: "u8 list \<Rightarrow> nat \<Rightarrow> nat \<Rightarrow> string \<Rightarrow> string \<Rightarrow> ('s, error, u8) comp" where
  "p5_byte bytes offset distance overflow truncated =
     bind (ok_or (checked_add offset distance) (format_error overflow)) (\<lambda>index.
     ok_or (get_at bytes index) (format_error truncated))"

lemma p5_byte_Inr [success]:
  "p5_byte bytes offset d e1 e2 s = (Inr x, t) \<longleftrightarrow>
     offset + d < 2 ^ 64 \<and> offset + d < length bytes \<and> x = bytes ! (offset + d) \<and> t = s"
  by (auto simp: p5_byte_def success)

definition thumb_branch :: "u32 \<Rightarrow> u8 \<Rightarrow> u8 \<Rightarrow> u8 \<Rightarrow> u8 \<Rightarrow> u8 list" where
  "thumb_branch position first second third fourth =
     (let source = push_bit 19 (ucast (second AND 7)) OR push_bit 11 (ucast first)
            OR push_bit 8 (ucast (fourth AND 7)) OR ucast third;
          source = push_bit 1 source;
          destination = drop_bit 1 (source - position) :: u32 in
      [ucast (drop_bit 11 destination AND 0xff), 0xf0 OR ucast (drop_bit 19 destination AND 7),
       ucast (destination AND 0xff), 0xf8 OR ucast (drop_bit 8 destination AND 7)])"

definition thumb_step ::
  "u32 \<Rightarrow> nat \<Rightarrow> u8 list \<Rightarrow> ('z control_scheme, error, nat \<times> u8 list) comp" where
  "thumb_step start offset bytes =
     bind (p5_byte bytes offset 1 ''ARM Thumb index overflows'' ''ARM Thumb instruction is truncated'') (\<lambda>second.
     bind (p5_byte bytes offset 3 ''ARM Thumb index overflows'' ''ARM Thumb instruction is truncated'') (\<lambda>fourth.
     bind (if second AND 0xf8 = 0xf0 \<and> fourth AND 0xf8 = 0xf8
           then
             bind (ok_or (get_at bytes offset) (format_error ''ARM Thumb instruction is truncated'')) (\<lambda>first.
             bind (p5_byte bytes offset 2 ''ARM Thumb index overflows'' ''ARM Thumb instruction is truncated'') (\<lambda>third.
             let position = start + low_u32_offset offset + 4 in
             bind (ok_or (checked_add offset 4) (format_error ''ARM Thumb range overflows'')) (\<lambda>end_at.
             bind (ok_or (get_range bytes offset end_at)
                     (format_error ''ARM Thumb instruction is truncated'')) (\<lambda>_.
             bind (ok_or (checked_add offset 2) (format_error ''ARM Thumb position overflows'')) (\<lambda>next_offset.
             ret (next_offset, put_bytes bytes offset (thumb_branch position first second third fourth)))))))
           else ret (offset, bytes)) (\<lambda>(offset, bytes).
     bind (ok_or (checked_add offset 2) (format_error ''ARM Thumb position overflows'')) (\<lambda>offset.
     ret (offset, bytes)))))"

lemma thumb_step_Inr:
  "thumb_step start offset bytes s = (Inr r, t) \<Longrightarrow> offset < fst r \<and> length (snd r) = length bytes \<and> t = s"
  by (auto simp: thumb_step_def thumb_branch_def success Let_def)

function thumb_loop ::
  "u32 \<Rightarrow> nat \<Rightarrow> nat \<Rightarrow> u8 list \<Rightarrow> ('z control_scheme, error, u8 list) comp" where
  "thumb_loop start scan_end offset bytes s =
     branch (offset \<le> scan_end)
      (bind (checkpoint 2) (\<lambda>_.
       bind (thumb_step start offset bytes) (\<lambda>r. thumb_loop start scan_end (fst r) (snd r))))
      (ret bytes) s"
  by pat_completeness auto
termination
  by (relation "measure (\<lambda>(start, scan_end, offset, bytes, s). Suc scan_end - offset)")
    (auto dest!: thumb_step_Inr)

declare thumb_loop.simps [simp del]

definition decode_arm_thumb :: "u8 list \<Rightarrow> u8 list \<Rightarrow> ('z control_scheme, error, u8 list) comp" where
  "decode_arm_thumb bytes properties =
     (if length bytes < 4 then ret bytes
      else
        bind (starting_position properties) (\<lambda>start.
        bind (ok_or (checked_sub (length bytes) 4) (format_error ''ARM Thumb scan bound underflows'')) (\<lambda>scan_end.
        thumb_loop start scan_end 0 bytes)))"

section \<open>IA-64\<close>

text \<open>The branch inside a 48-bit field, shifted down to its 41 bits; \<open>None\<close> leaves it alone.\<close>

definition ia64_branch :: "u32 \<Rightarrow> nat \<Rightarrow> u64 \<Rightarrow> u64 option" where
  "ia64_branch position bit_remainder instruction =
     (let normalized = drop_bit bit_remainder instruction in
      if drop_bit 37 normalized AND 0x0f = 5 \<and> drop_bit 9 normalized AND 7 = 0
      then
        let low = ucast (drop_bit 13 normalized AND 0x000fffff) :: u32;
            high = ucast (drop_bit 36 normalized AND 1) :: u32;
            source = push_bit 4 (low OR push_bit 20 high);
            destination = drop_bit 4 (source - position);
            normalized = normalized AND NOT (push_bit 13 0x008fffff);
            normalized = normalized OR push_bit 13 (ucast (destination AND 0x000fffff));
            normalized = normalized OR push_bit 16 (ucast (destination AND 0x00100000));
            low_mask = push_bit bit_remainder 1 - 1
        in Some ((instruction AND low_mask) OR push_bit bit_remainder normalized)
      else None)"

primrec ia64_slots ::
  "u32 \<Rightarrow> nat \<Rightarrow> u8 \<Rightarrow> nat list \<Rightarrow> nat \<Rightarrow> u8 list \<Rightarrow> ('z control_scheme, error, u8 list) comp" where
  "ia64_slots start offset branch_mask [] bit_position bytes = ret bytes"
| "ia64_slots start offset branch_mask (slot # slots) bit_position bytes =
     bind (checkpoint 1) (\<lambda>_.
     bind (if branch_mask AND push_bit slot 1 = 0 then ret bytes
           else
             bind (ok_or (checked_add offset (bit_position div 8))
                     (format_error ''IA64 instruction offset overflows'')) (\<lambda>instruction_offset.
             bind (read_u48_le bytes instruction_offset) (\<lambda>instruction.
             case ia64_branch (start + low_u32_offset offset) (bit_position mod 8) instruction of
               Some v \<Rightarrow> write_u48_le bytes instruction_offset v
             | None \<Rightarrow> ret bytes))) (\<lambda>bytes.
     ia64_slots start offset branch_mask slots (bit_position + 41) bytes))"

definition ia64_bundle ::
  "u32 \<Rightarrow> nat \<Rightarrow> u8 list \<Rightarrow> ('z control_scheme, error, nat \<times> u8 list) comp" where
  "ia64_bundle start offset bytes =
     bind (checkpoint 16) (\<lambda>_.
     bind (ok_or (get_at bytes offset) (format_error ''IA64 bundle is truncated'')) (\<lambda>first.
     bind (ok_or (get_at IA64_BRANCH_TABLE (unat (first AND 0x1f)))
             (format_error ''IA64 bundle template is out of range'')) (\<lambda>branch_mask.
     bind (ia64_slots start offset branch_mask [0, 1, 2] 5 bytes) (\<lambda>bytes.
     bind (ok_or (checked_add offset 16) (format_error ''IA64 bundle offset overflows'')) (\<lambda>offset.
     ret (offset, bytes))))))"

lemma read_u48_Inr [success]:
  "read_u48_le bytes offset s = (Inr v, t) \<longleftrightarrow> offset + 6 < 2 ^ 64 \<and> offset + 6 \<le> length bytes \<and> t = s
     \<and> v = fold (\<lambda>(index, byte) v. v OR push_bit (8 * index) (ucast byte))
         (enumerate 0 (take 6 (drop offset bytes))) 0"
  "write_u48_le bytes offset w s = (Inr x, t) \<longleftrightarrow> offset + 6 < 2 ^ 64 \<and> offset + 6 \<le> length bytes \<and> t = s
     \<and> x = put_bytes bytes offset (map (\<lambda>index. ucast (drop_bit (8 * index) w)) [0..<6])"
  by (auto simp: read_u48_le_def write_u48_le_def success)

lemma ia64_slots_length:
  "ia64_slots start offset bm slots bp bytes s = (Inr x, t) \<Longrightarrow> length x = length bytes"
proof (induction slots arbitrary: bp bytes s)
  case Nil
  then show ?case by (auto simp: success)
next
  case (Cons slot slots)
  then show ?case by (fastforce simp: success)
qed

lemma ia64_bundle_Inr:
  "ia64_bundle start offset bytes s = (Inr r, t) \<Longrightarrow> fst r = offset + 16 \<and> length (snd r) = length bytes"
  by (auto simp: ia64_bundle_def success dest: ia64_slots_length)

function ia64_loop ::
  "u32 \<Rightarrow> nat \<Rightarrow> nat \<Rightarrow> u8 list \<Rightarrow> ('z control_scheme, error, u8 list) comp" where
  "ia64_loop start process_bytes offset bytes s =
     branch (offset < process_bytes)
      (bind (ia64_bundle start offset bytes) (\<lambda>r. ia64_loop start process_bytes (fst r) (snd r)))
      (ret bytes) s"
  by pat_completeness auto
termination
  by (relation "measure (\<lambda>(start, process_bytes, offset, bytes, s). process_bytes - offset)")
    (auto dest!: ia64_bundle_Inr)

declare ia64_loop.simps [simp del]

definition decode_ia64 :: "u8 list \<Rightarrow> u8 list \<Rightarrow> ('z control_scheme, error, u8 list) comp" where
  "decode_ia64 bytes properties =
     bind (starting_position properties) (\<lambda>start.
     let bundle_count = length bytes div 16 in
     bind (ok_or (if bundle_count * 16 < 2 ^ 64 then Some (bundle_count * 16) else None)
             (format_error ''IA64 scan size overflows'')) (\<lambda>process_bytes.
     ia64_loop start process_bytes 0 bytes))"

section \<open>RISC-V\<close>

definition is_not_auipc_pair :: "u32 \<Rightarrow> u32 \<Rightarrow> bool" where
  "is_not_auipc_pair auipc second \<longleftrightarrow> (push_bit 8 auipc XOR (second - 3)) AND 0x000f8003 \<noteq> 0"

definition is_not_special_auipc :: "u32 \<Rightarrow> u32 \<Rightarrow> bool" where
  "is_not_special_auipc auipc second_rs1 \<longleftrightarrow> push_bit 18 (auipc - 0x3117) \<ge> second_rs1 AND 0x1d"

definition riscv_jal :: "u32 \<Rightarrow> u8 \<Rightarrow> u8 \<Rightarrow> u8 \<Rightarrow> u8 \<Rightarrow> u8 list" where
  "riscv_jal position first second third fourth =
     (let address = push_bit 13 (ucast (second AND 0xf0)) OR push_bit 9 (ucast third)
            OR push_bit 1 (ucast fourth) :: u32;
          address = address - position in
      [first, (second AND 0x0f) OR ucast (drop_bit 8 address AND 0xf0),
       ucast ((drop_bit 16 address AND 0x0f) OR (drop_bit 7 address AND 0x10)
              OR (push_bit 4 address AND 0xe0)),
       ucast ((drop_bit 4 address AND 0x7f) OR (drop_bit 13 address AND 0x80))])"

definition riscv_jal_step ::
  "u32 \<Rightarrow> nat \<Rightarrow> u8 \<Rightarrow> u8 list \<Rightarrow> ('s, error, nat \<times> u8 list) comp" where
  "riscv_jal_step start offset first bytes =
     bind (p5_byte bytes offset 1 ''RISC-V index overflows'' ''RISC-V JAL is truncated'') (\<lambda>second.
     if second AND 0x0d = 0
     then
       bind (p5_byte bytes offset 2 ''RISC-V index overflows'' ''RISC-V JAL is truncated'') (\<lambda>third.
       bind (p5_byte bytes offset 3 ''RISC-V index overflows'' ''RISC-V JAL is truncated'') (\<lambda>fourth.
       bind (ok_or (checked_add offset 4) (format_error ''RISC-V JAL range overflows'')) (\<lambda>end_at.
       bind (ok_or (get_range bytes offset end_at) (format_error ''RISC-V JAL is truncated'')) (\<lambda>_.
       ret (end_at, put_bytes bytes offset
              (riscv_jal (start + low_u32_offset offset) first second third fourth))))))
     else
       bind (ok_or (checked_add offset 2) (format_error ''RISC-V position overflows'')) (\<lambda>offset.
       ret (offset, bytes)))"

text \<open>An AUIPC: either skipped (by the distance returned left) or replaced by two words.\<close>

definition riscv_auipc ::
  "u32 \<Rightarrow> nat \<Rightarrow> u8 list \<Rightarrow> ('s, error, nat + u32 \<times> u32) comp" where
  "riscv_auipc start offset bytes =
     bind (p5_read_u32_le bytes offset) (\<lambda>instruction.
     if instruction AND 0x0e80 \<noteq> 0
     then
       bind (ok_or (checked_add offset 4) (format_error ''RISC-V pair offset overflows'')) (\<lambda>pair_offset.
       bind (p5_read_u32_le bytes pair_offset) (\<lambda>second_instruction.
       if is_not_auipc_pair instruction second_instruction then ret (Inl 6)
       else
         let address = (instruction AND 0xfffff000) + drop_bit 20 second_instruction in
         ret (Inr (0x17 OR push_bit 7 2 OR push_bit 12 second_instruction, address))))
     else
       let second_rs1 = drop_bit 27 instruction in
       if is_not_special_auipc instruction second_rs1 then ret (Inl 4)
       else
         bind (ok_or (checked_add offset 4) (format_error ''RISC-V pair offset overflows'')) (\<lambda>address_offset.
         let position = start + low_u32_offset offset in
         bind (p5_read_u32_be bytes address_offset) (\<lambda>encoded.
         let address = encoded - position in
         ret (Inr (0x17 OR push_bit 7 second_rs1 OR ((address + 0x800) AND 0xfffff000),
                   drop_bit 12 instruction OR push_bit 20 address)))))"

definition riscv_auipc_step ::
  "u32 \<Rightarrow> nat \<Rightarrow> u8 list \<Rightarrow> ('s, error, nat \<times> u8 list) comp" where
  "riscv_auipc_step start offset bytes =
     bind (riscv_auipc start offset bytes) (\<lambda>r.
     case r of
       Inl skip \<Rightarrow>
         bind (ok_or (checked_add offset skip) (format_error ''RISC-V position overflows'')) (\<lambda>offset.
         ret (offset, bytes))
     | Inr (instruction, second_instruction) \<Rightarrow>
         bind (write_u32_le bytes offset instruction) (\<lambda>bytes.
         bind (ok_or (checked_add offset 4) (format_error ''RISC-V pair offset overflows'')) (\<lambda>pair_offset.
         bind (write_u32_le bytes pair_offset second_instruction) (\<lambda>bytes.
         bind (ok_or (checked_add offset 8) (format_error ''RISC-V position overflows'')) (\<lambda>offset.
         ret (offset, bytes))))))"

definition riscv_step ::
  "u32 \<Rightarrow> nat \<Rightarrow> u8 list \<Rightarrow> ('z control_scheme, error, nat \<times> u8 list) comp" where
  "riscv_step start offset bytes =
     bind (checkpoint 2) (\<lambda>_.
     bind (ok_or (get_at bytes offset) (format_error ''RISC-V instruction is truncated'')) (\<lambda>first.
     if first = 0xef then riscv_jal_step start offset first bytes
     else if first AND 0x7f = 0x17 then riscv_auipc_step start offset bytes
     else
       bind (ok_or (checked_add offset 2) (format_error ''RISC-V position overflows'')) (\<lambda>offset.
       ret (offset, bytes))))"

lemma length_riscv_jal [simp]: "length (riscv_jal p a b c d) = 4"
  by (simp add: riscv_jal_def Let_def)

lemma riscv_auipc_Inr:
  "riscv_auipc start offset bytes s = (Inr r, t) \<Longrightarrow> (\<forall>n. r = Inl n \<longrightarrow> 0 < n) \<and> t = s"
  by (auto simp: riscv_auipc_def success Let_def)

lemma riscv_step_Inr:
  "riscv_step start offset bytes s = (Inr r, t) \<Longrightarrow> offset < fst r \<and> length (snd r) = length bytes"
  by (auto simp: riscv_step_def riscv_jal_step_def riscv_auipc_step_def success
      split: prod.splits dest!: riscv_auipc_Inr)

function riscv_loop ::
  "u32 \<Rightarrow> nat \<Rightarrow> nat \<Rightarrow> u8 list \<Rightarrow> ('z control_scheme, error, u8 list) comp" where
  "riscv_loop start scan_end offset bytes s =
     branch (offset \<le> scan_end)
      (bind (riscv_step start offset bytes) (\<lambda>r. riscv_loop start scan_end (fst r) (snd r)))
      (ret bytes) s"
  by pat_completeness auto
termination
  by (relation "measure (\<lambda>(start, scan_end, offset, bytes, s). Suc scan_end - offset)")
    (auto dest!: riscv_step_Inr)

declare riscv_loop.simps [simp del]

definition decode_riscv :: "u8 list \<Rightarrow> u8 list \<Rightarrow> ('z control_scheme, error, u8 list) comp" where
  "decode_riscv bytes properties =
     (if length bytes < 8 then ret bytes
      else
        bind (starting_position properties) (\<lambda>position.
        let start = position AND NOT 1 in
        bind (ok_or (checked_sub (length bytes) 8) (format_error ''RISC-V scan bound underflows'')) (\<lambda>scan_end.
        riscv_loop start scan_end 0 bytes)))"

definition decode_phase5_filter ::
  "u8 list \<Rightarrow> u8 list \<Rightarrow> u8 list \<Rightarrow> ('z control_scheme, error, u8 list) comp" where
  "decode_phase5_filter method_id properties bytes =
     (if method_id = METHOD_IA64 then decode_ia64 bytes properties
      else if method_id = METHOD_ARM_THUMB then decode_arm_thumb bytes properties
      else if method_id = METHOD_RISCV then decode_riscv bytes properties
      else if method_id = METHOD_SWAP2 then decode_swap bytes properties 2
      else if method_id = METHOD_SWAP4 then decode_swap bytes properties 4
      else fail (UnsupportedMethod method_id))"

end
