(* ===== verification/Filters.thy ===== *)
theory Filters
  imports Phase5
begin

unbundle bit_operations_syntax

text \<open>
  The core filters of \<open>decode/filters.rs\<close>: Delta, the x86, PowerPC, ARM, ARM64 and SPARC branch
  filters, and the dispatch over the method identifier.
\<close>

lemma filter_word_Inr [success]:
  "filter_word bytes offset s = (Inr x, t) \<longleftrightarrow>
     offset + 4 < 2 ^ 64 \<and> offset + 4 \<le> length bytes \<and> x = take 4 (drop offset bytes) \<and> t = s"
  by (auto simp: filter_word_def word_range_def success)

lemma filter_reads_Inr [success]:
  "filter_read_u32_le bytes offset s = (Inr w, t) \<longleftrightarrow> offset + 4 < 2 ^ 64 \<and> offset + 4 \<le> length bytes
     \<and> w = from_le_bytes (take 4 (drop offset bytes)) \<and> t = s"
  "filter_read_u32_be bytes offset s = (Inr w, t) \<longleftrightarrow> offset + 4 < 2 ^ 64 \<and> offset + 4 \<le> length bytes
     \<and> w = from_be_bytes (take 4 (drop offset bytes)) \<and> t = s"
  by (auto simp: filter_read_u32_le_def filter_read_u32_be_def success)

lemma u32_of_Inr [success]: "u32_of v d s = (Inr w, t) \<longleftrightarrow> v < 2 ^ 32 \<and> w = of_nat v \<and> t = s"
  by (auto simp: u32_of_def success)

section \<open>Delta\<close>

primrec delta_loop ::
  "u8 list \<Rightarrow> nat \<Rightarrow> u8 list \<Rightarrow> u8 \<Rightarrow> ('z control_scheme, error, u8 list) comp" where
  "delta_loop [] distance history position = ret []"
| "delta_loop (byte # bytes) distance history position =
     bind (checkpoint 1) (\<lambda>_.
     bind (ok_or (checked_add distance (unat position))
             (format_error ''Delta history index overflows'')) (\<lambda>i.
     let history_index = i mod 256 in
     bind (ok_or (get_at history history_index)
             (format_error ''Delta history index is out of range'')) (\<lambda>previous.
     let byte = byte + previous; destination = unat position mod 256 in
     bind (guard (destination < length history)
             (format_error ''Delta history destination is out of range'')) (\<lambda>_.
     bind (delta_loop bytes distance (history[destination := byte]) (position - 1)) (\<lambda>rest.
     ret (byte # rest))))))"

definition decode_delta :: "u8 list \<Rightarrow> u8 list \<Rightarrow> ('z control_scheme, error, u8 list) comp" where
  "decode_delta bytes properties =
     bind (ok_or (get_at properties 0)
             (format_error ''Delta properties must contain exactly one byte'')) (\<lambda>property.
     bind (guard (length properties = 1)
             (format_error ''Delta properties must contain exactly one byte'')) (\<lambda>_.
     bind (ok_or (checked_add (unat property) 1) (format_error ''Delta distance overflows'')) (\<lambda>distance.
     delta_loop bytes distance (replicate 256 0) 0)))"

section \<open>x86\<close>

definition test_x86_msb :: "u8 \<Rightarrow> bool" where
  "test_x86_msb byte \<longleftrightarrow> (byte + 1) AND 0xfe = 0"

definition BCJ_LOOK_AHEAD :: nat where "BCJ_LOOK_AHEAD = 4"
definition BCJ_INSTRUCTION_SIZE :: u32 where "BCJ_INSTRUCTION_SIZE = 5"

text \<open>The inner loop: forward to the next call or jump opcode, or to the end of the scan.\<close>

function bcj_scan :: "nat \<Rightarrow> u8 list \<Rightarrow> nat \<Rightarrow> ('z control_scheme, error, nat) comp" where
  "bcj_scan scan_end bytes position s =
     branch (position < scan_end)
      (bind (checkpoint 1) (\<lambda>_.
       bind (ok_or (get_at bytes position) (format_error ''BCJ opcode index is out of range'')) (\<lambda>byte.
       branch (byte AND 0xfe = 0xe8) (ret position)
        (bind (ok_or (checked_add position 1) (format_error ''BCJ position overflows''))
          (bcj_scan scan_end bytes)))))
      (ret position) s"
  by pat_completeness auto
termination
  by (relation "measure (\<lambda>(scan_end, bytes, position, s). scan_end - position)") (auto simp: success)

declare bcj_scan.simps [simp del]

text \<open>
  Whether the opcode at \<open>position\<close> is skipped because of what the previous bytes looked like; the
  mask has been shifted by the scanned distance.
\<close>

definition bcj_masked :: "nat \<Rightarrow> nat \<Rightarrow> u32 \<Rightarrow> u8 list \<Rightarrow> ('s, error, bool) comp" where
  "bcj_masked distance position prev_mask bytes =
     (if distance > 2 \<or> prev_mask = 0 then ret False
      else
        bind (ok_or (case checked_add position (unat (drop_bit 1 prev_mask)) of
                       None \<Rightarrow> None | Some v \<Rightarrow> checked_add v 1)
                (format_error ''BCJ mask index overflows'')) (\<lambda>look.
        bind (ok_or (get_at bytes look) (format_error ''BCJ mask index is out of range'')) (\<lambda>tested.
        ret (prev_mask > 4 \<or> prev_mask = 3 \<or> test_x86_msb tested))))"

definition bcj_value :: "u32 \<Rightarrow> u32 \<Rightarrow> u32 \<Rightarrow> u32" where
  "bcj_value prev_mask current v =
     (let v = v - current in
      if prev_mask \<noteq> 0
      then
        let shift = unat (push_bit 2 (prev_mask AND 6)) in
        if test_x86_msb (ucast (drop_bit shift v AND 0xff))
        then (v XOR (push_bit shift 0x100 - 1)) - current
        else v
      else v)"

definition bcj_skip :: "nat \<Rightarrow> u32 \<Rightarrow> u8 list \<Rightarrow> ('s, error, nat \<times> u32 \<times> u8 list) comp" where
  "bcj_skip position prev_mask bytes =
     bind (ok_or (checked_add position 1) (format_error ''BCJ position overflows'')) (\<lambda>next.
     ret (next, drop_bit 1 prev_mask OR 4, bytes))"

definition bcj_instruction ::
  "u32 \<Rightarrow> nat \<Rightarrow> nat \<Rightarrow> u32 \<Rightarrow> u8 list \<Rightarrow> ('s, error, nat \<times> u32 \<times> u8 list) comp" where
  "bcj_instruction instruction_pointer distance position prev_mask bytes =
     (let prev_mask = (if distance > 2 then 0 else drop_bit distance prev_mask) in
     bind (bcj_masked distance position prev_mask bytes) (\<lambda>masked.
     if masked then bcj_skip position prev_mask bytes
     else
       bind (ok_or (checked_add position 4) (format_error ''BCJ high-byte index overflows'')) (\<lambda>high_index.
       bind (ok_or (get_at bytes high_index)
               (format_error ''BCJ high-byte index is out of range'')) (\<lambda>high.
       if test_x86_msb high
       then
         bind (ok_or (checked_add position 1) (format_error ''BCJ value index overflows'')) (\<lambda>value_index.
         bind (filter_read_u32_le bytes value_index) (\<lambda>v.
         bind (u32_of position ''BCJ position exceeds the 32-bit address domain'') (\<lambda>position32.
         let current = instruction_pointer + BCJ_INSTRUCTION_SIZE + position32 in
         bind (ok_or (checked_add position 5) (format_error ''BCJ position overflows'')) (\<lambda>next.
         bind (write_word bytes value_index (to_le_bytes (bcj_value prev_mask current v))) (\<lambda>bytes.
         bind (ok_or (get_at bytes high_index)
                 (format_error ''BCJ high-byte index is out of range'')) (\<lambda>high.
         ret (next, 0, bytes[high_index := 0 - (high AND 1)])))))))
       else bcj_skip position prev_mask bytes))))"

lemma bcj_scan_Inr: "bcj_scan scan_end bytes position s = (Inr found, t) \<Longrightarrow> position \<le> found"
proof (induction scan_end bytes position s rule: bcj_scan.induct)
  case (1 scan_end bytes position s)
  show ?case
    using "1.prems"
    by (subst (asm) bcj_scan.simps)
      (auto simp: branch_def success split: if_splits dest!: "1.IH")
qed

lemma bcj_instruction_Inr:
  "bcj_instruction ip distance position prev_mask bytes s = (Inr (next, prev_mask', bytes'), t) \<Longrightarrow>
     position < next \<and> length bytes' = length bytes \<and> t = s"
  by (auto simp: bcj_instruction_def bcj_masked_def bcj_skip_def success Let_def)

function bcj_loop ::
  "u32 \<Rightarrow> nat \<Rightarrow> nat \<Rightarrow> u32 \<Rightarrow> u8 list \<Rightarrow> ('z control_scheme, error, u8 list) comp" where
  "bcj_loop instruction_pointer scan_end previous prev_mask bytes s =
     bind (bcj_scan scan_end bytes previous) (\<lambda>position.
     bind (ok_or (checked_sub position previous) (format_error ''BCJ scan distance underflows'')) (\<lambda>distance.
     branch (position \<ge> scan_end)
      (bind (u32_of position ''BCJ position exceeds the 32-bit address domain'') (\<lambda>_. ret bytes))
      (bind (bcj_instruction instruction_pointer distance position prev_mask bytes) (\<lambda>r.
       bcj_loop instruction_pointer scan_end (fst r) (fst (snd r)) (snd (snd r)))))) s"
  by pat_completeness auto
termination
  by (relation "measure (\<lambda>(ip, scan_end, previous, prev_mask, bytes, s). scan_end - previous)")
    (auto simp: success dest!: bcj_scan_Inr bcj_instruction_Inr)

declare bcj_loop.simps [simp del]

definition decode_x86_bcj :: "u8 list \<Rightarrow> u8 list \<Rightarrow> ('z control_scheme, error, u8 list) comp" where
  "decode_x86_bcj bytes properties =
     bind (ok_or (checked_add BCJ_LOOK_AHEAD 1) (format_error ''BCJ minimum input size overflows'')) (\<lambda>minimum.
     if length bytes < minimum then ret bytes
     else
       bind (ok_or (checked_sub (length bytes) BCJ_LOOK_AHEAD)
               (format_error ''BCJ scan bound underflows'')) (\<lambda>scan_end.
       bind (starting_position properties) (\<lambda>instruction_pointer.
       bcj_loop instruction_pointer scan_end 0 0 bytes)))"

section \<open>Four-byte instruction sets\<close>

definition byte_at :: "u8 list \<Rightarrow> nat \<Rightarrow> nat \<Rightarrow> string \<Rightarrow> string \<Rightarrow> ('s, error, u8) comp" where
  "byte_at bytes offset distance overflow truncated =
     bind (ok_or (checked_add offset distance) (format_error overflow)) (\<lambda>index.
     ok_or (get_at bytes index) (format_error truncated))"

definition ppc_step :: "nat \<Rightarrow> u32 \<Rightarrow> u8 list \<Rightarrow> ('s, error, u32 option) comp" where
  "ppc_step offset instruction_pointer bytes =
     bind (ok_or (get_at bytes offset) (format_error ''PPC opcode is truncated'')) (\<lambda>first.
     bind (byte_at bytes offset 3 ''PPC index overflows'' ''PPC opcode is truncated'') (\<lambda>fourth.
     bind (filter_read_u32_be bytes offset) (\<lambda>v.
     ret (if first AND 0xfc = 0x48 \<and> fourth AND 3 = 1
          then Some (((v - instruction_pointer) AND 0x03ffffff) OR 0x48000000) else None))))"

definition decode_ppc :: "u8 list \<Rightarrow> u8 list \<Rightarrow> ('z control_scheme, error, u8 list) comp" where
  "decode_ppc bytes properties =
     bind (starting_position properties) (\<lambda>instruction_pointer.
     word_loop ppc_step BigEndian ''PPC position overflows'' 0 instruction_pointer bytes)"

text \<open>ARM moves its pointer before the instruction is looked at, so the step adds the four.\<close>

definition arm_step :: "nat \<Rightarrow> u32 \<Rightarrow> u8 list \<Rightarrow> ('s, error, u32 option) comp" where
  "arm_step offset previous_pointer bytes =
     (let instruction_pointer = previous_pointer + 4 in
     bind (byte_at bytes offset 3 ''ARM index overflows'' ''ARM opcode is truncated'') (\<lambda>opcode.
     if opcode = 0xeb
     then
       bind (filter_read_u32_le bytes offset) (\<lambda>v.
       ret (Some (((v - drop_bit 2 instruction_pointer) AND 0x00ffffff) OR 0xeb000000)))
     else ret None))"

definition decode_arm :: "u8 list \<Rightarrow> u8 list \<Rightarrow> ('z control_scheme, error, u8 list) comp" where
  "decode_arm bytes properties =
     bind (starting_position properties) (\<lambda>start.
     word_loop arm_step LittleEndian ''ARM position overflows'' 0 (start + 4) bytes)"

definition ARM64_FLAG :: u32 where "ARM64_FLAG = push_bit 20 1"
definition ARM64_MASK :: u32 where "ARM64_MASK = push_bit 24 1 - push_bit 1 ARM64_FLAG"

definition arm64_step :: "nat \<Rightarrow> u32 \<Rightarrow> u8 list \<Rightarrow> ('s, error, u32 option) comp" where
  "arm64_step offset instruction_pointer bytes =
     bind (filter_read_u32_le bytes offset) (\<lambda>original.
     if (original - 0x94000000) AND 0xfc000000 = 0
     then ret (Some (((original - drop_bit 2 instruction_pointer) AND 0x03ffffff) OR 0x94000000))
     else
       let v = original - 0x90000000 in
       if v AND 0x9f000000 = 0
       then
         let v = v + ARM64_FLAG in
         if v AND ARM64_MASK = 0
         then
           let transformed = (v AND 0xffffffe0) OR drop_bit 26 v;
               ip = drop_bit 9 instruction_pointer AND NOT 7;
               transformed = transformed - ip;
               v = v AND 0x1f;
               v = v OR 0x90000000;
               v = v OR push_bit 26 transformed;
               v = v OR (0x00ffffe0 AND ((transformed AND (push_bit 1 ARM64_FLAG - 1)) - ARM64_FLAG))
           in ret (Some v)
         else ret None
       else ret None)"

definition decode_arm64 :: "u8 list \<Rightarrow> u8 list \<Rightarrow> ('z control_scheme, error, u8 list) comp" where
  "decode_arm64 bytes properties =
     bind (starting_position properties) (\<lambda>instruction_pointer.
     word_loop arm64_step LittleEndian ''ARM64 position overflows'' 0 instruction_pointer bytes)"

definition sparc_step :: "nat \<Rightarrow> u32 \<Rightarrow> u8 list \<Rightarrow> ('s, error, u32 option) comp" where
  "sparc_step offset instruction_pointer bytes =
     bind (ok_or (get_at bytes offset) (format_error ''SPARC opcode is truncated'')) (\<lambda>first.
     bind (byte_at bytes offset 1 ''SPARC index overflows'' ''SPARC opcode is truncated'') (\<lambda>second.
     if (first = 0x40 \<and> second AND 0xc0 = 0) \<or> (first = 0x7f \<and> second \<ge> 0xc0)
     then
       bind (filter_read_u32_be bytes offset) (\<lambda>encoded.
       let v = push_bit 2 encoded - instruction_pointer;
           v = v AND 0x01ffffff;
           v = v - push_bit 24 1;
           v = v XOR 0xff000000;
           v = drop_bit 2 v;
           v = v OR 0x40000000
       in ret (Some v))
     else ret None))"

definition decode_sparc :: "u8 list \<Rightarrow> u8 list \<Rightarrow> ('z control_scheme, error, u8 list) comp" where
  "decode_sparc bytes properties =
     bind (starting_position properties) (\<lambda>instruction_pointer.
     word_loop sparc_step BigEndian ''SPARC position overflows'' 0 instruction_pointer bytes)"

definition decode_filter ::
  "u8 list \<Rightarrow> u8 list \<Rightarrow> u8 list \<Rightarrow> ('z control_scheme, error, u8 list) comp" where
  "decode_filter method_id properties bytes =
     (if method_id = METHOD_DELTA then decode_delta bytes properties
      else if method_id = METHOD_BCJ then decode_x86_bcj bytes properties
      else if method_id = METHOD_PPC then decode_ppc bytes properties
      else if method_id = METHOD_ARM then decode_arm bytes properties
      else if method_id = METHOD_ARM64 then decode_arm64 bytes properties
      else if method_id = METHOD_SPARC then decode_sparc bytes properties
      else decode_phase5_filter method_id properties bytes)"

end
