(* ===== verification/FilterFacts.thy ===== *)
theory FilterFacts
  imports Filters Outcome
begin

unbundle bit_operations_syntax

text \<open>
  The filters end: with a buffer of the same length, or because of their properties or method, and
  never with one of the errors that guard their own indexing.
\<close>

section \<open>Ends of the steps\<close>

text \<open>An operation that neither fails nor touches the control.\<close>

lemma ends_with_value: "m s = (Inr x, s) \<Longrightarrow> P x \<Longrightarrow> ends_with E P (m s)"
  by (simp add: ends_with_def)

lemma ends_with_index:
  assumes "i < length xs" "ends_with E P (f (xs ! i) s)"
  shows "ends_with E P (bind (ok_or (get_at xs i) e) f s)"
  using assms by (simp add: get_at_def)

lemma ends_with_plus:
  assumes "a + b < 2 ^ 64" "ends_with E P (f (a + b) s)"
  shows "ends_with E P (bind (ok_or (checked_add a b) e) f s)"
  using assms by (simp add: checked_add_def)

lemma filter_words_run:
  assumes "offset + 4 \<le> length bytes" "length bytes < 2 ^ 64"
  shows "filter_read_u32_le bytes offset s = (Inr (from_le_bytes (take 4 (drop offset bytes))), s)"
    "filter_read_u32_be bytes offset s = (Inr (from_be_bytes (take 4 (drop offset bytes))), s)"
    "p5_read_u32_le bytes offset s = (Inr (from_le_bytes (take 4 (drop offset bytes))), s)"
    "p5_read_u32_be bytes offset s = (Inr (from_be_bytes (take 4 (drop offset bytes))), s)"
    "write_word bytes offset w s = (Inr (put_bytes bytes offset w), s)"
    "write_u32_le bytes offset v s = (Inr (put_bytes bytes offset (to_le_bytes v)), s)"
  using assms by (simp_all add: filter_read_u32_le_def filter_read_u32_be_def filter_word_def word_range_def
      p5_read_u32_le_def p5_read_u32_be_def p5_word_def write_word_def write_u32_le_def checked_add_def
      get_range_def run)

lemma byte_at_run:
  assumes "offset + d < length bytes" "length bytes < 2 ^ 64"
  shows "byte_at bytes offset d e1 e2 s = (Inr (bytes ! (offset + d)), s)"
    "p5_byte bytes offset d e1 e2 s = (Inr (bytes ! (offset + d)), s)"
  using assms by (simp_all add: byte_at_def p5_byte_def checked_add_def get_at_def run)

lemma starting_position_ends:
  "ends_with (\<lambda>e. e = Format ''branch filter properties must be empty or four bytes'')
     (\<lambda>v. properties = [] \<and> v = 0 \<or> length properties = 4 \<and> v = from_le_bytes properties)
     (starting_position properties s)"
  by (simp add: starting_position_def ends_with_run format_error_def)

section \<open>The word loop\<close>

text \<open>
  A filter over four-byte instructions is a map: each complete group of four bytes is replaced
  according to the instruction pointer there, and up to three bytes at the end are kept.
\<close>

fun word_map :: "(u32 \<Rightarrow> u8 list \<Rightarrow> u8 list) \<Rightarrow> u32 \<Rightarrow> u8 list \<Rightarrow> u8 list" where
  "word_map f ip (a # b # c # d # rest) = f ip [a, b, c, d] @ word_map f (ip + 4) rest"
| "word_map f ip bytes = bytes"

lemma four_bytes: "length bytes = 4 \<longleftrightarrow> (\<exists>a b c d. bytes = [a, b, c, d])"
  by (auto simp: numeral_eq_Suc length_Suc_conv)

lemma word_map_append: "length w = 4 \<Longrightarrow> word_map f ip (w @ rest) = f ip w @ word_map f (ip + 4) rest"
  by (auto simp: four_bytes)

lemma word_map_short: "length bytes < 4 \<Longrightarrow> word_map f ip bytes = bytes"
  by (cases "(f, ip, bytes)" rule: word_map.cases) auto

lemma length_word_map:
  assumes "\<And>ip w. length w = 4 \<Longrightarrow> length (f ip w) = 4"
  shows "length (word_map f ip bytes) = length bytes"
  using assms by (induction f ip bytes rule: word_map.induct) auto

text \<open>The word at an offset, replaced if the step asks for it.\<close>

definition replaced :: "byte_order \<Rightarrow> u8 list \<Rightarrow> u32 option \<Rightarrow> u8 list" where
  "replaced order w v = (case v of None \<Rightarrow> w | Some x \<Rightarrow> word_bytes order x)"

lemma word_loop_map:
  assumes pure: "\<And>offset ip bytes s. offset + 4 \<le> length bytes \<Longrightarrow> length bytes < 2 ^ 64 \<Longrightarrow>
      step offset ip bytes s = (Inr (f ip (take 4 (drop offset bytes))), s)"
    and small: "length bytes < 2 ^ 64" and le: "offset \<le> length bytes"
  shows "ends_with E (\<lambda>out. out = take offset bytes
      @ word_map (\<lambda>ip w. replaced order w (f ip w)) ip (drop offset bytes))
    (word_loop step order overflow offset ip bytes s)"
  using small le
proof (induction "length bytes - offset" arbitrary: offset ip bytes s rule: less_induct)
  case less
  let ?g = "\<lambda>ip w. replaced order w (f ip w)"
  show ?case
  proof (cases "offset + 4 \<le> length bytes")
    case False
    then have "word_map ?g ip (drop offset bytes) = drop offset bytes" by (intro word_map_short) simp
    with False show ?thesis
      by (subst word_loop.simps) (auto simp: branch_eq ends_with_run split: option.split)
  next
    case True
    let ?w = "take 4 (drop offset bytes)"
    let ?new = "put_bytes bytes offset (?g ip ?w)"
    have w: "length ?w = 4" using True by simp
    have split: "drop offset bytes = ?w @ drop (offset + 4) bytes"
      using append_take_drop_id [of 4 "drop offset bytes"] by (simp add: add.commute)
    have new4: "length (?g ip ?w) = 4" using w by (simp add: replaced_def split: option.split)
    have len: "length ?new = length bytes" using True new4 by simp
    have same: "put_bytes bytes offset ?w = bytes"
      using split by (simp add: put_bytes_def w del: length_take)
    have step: "(case f ip ?w of Some v \<Rightarrow> write_word bytes offset (word_bytes order v) | None \<Rightarrow> ret bytes) u
        = (Inr ?new, u)" for u :: "'z control_scheme"
      using True less.prems same
      by (simp add: replaced_def filter_words_run run split: option.split)
    have shape: "take (offset + 4) ?new = take offset bytes @ ?g ip ?w" "drop (offset + 4) ?new = drop (offset + 4) bytes"
      using True new4 by (simp_all add: put_bytes_def)
    have "ends_with E (\<lambda>out. out = take (offset + 4) ?new @ word_map ?g (ip + 4) (drop (offset + 4) ?new))
        (word_loop step order overflow (offset + 4) (ip + 4) ?new u)" for u
      using less.prems True len by (intro less.hyps) simp_all
    then have rest: "ends_with E (\<lambda>out. out = take offset bytes @ ?g ip ?w @ word_map ?g (ip + 4) (drop (offset + 4) bytes))
        (word_loop step order overflow (offset + 4) (ip + 4) ?new u)" for u
      by (simp add: shape)
    have map: "word_map ?g ip (drop offset bytes) = ?g ip ?w @ word_map ?g (ip + 4) (drop (offset + 4) bytes)"
      by (subst split, rule word_map_append [OF w])
    have cond: "(case checked_add offset 4 of None \<Rightarrow> False | Some end_at \<Rightarrow> end_at \<le> length bytes) = True"
      using True less.prems(1) by (simp add: checked_add_def)
    show ?thesis
      unfolding word_loop.simps [of step order overflow offset ip bytes] branch_eq cond if_True map
      apply (rule ends_with_skip [OF ends_with_checkpoint])
      apply (rule ends_with_step, rule pure [OF True less.prems(1)])
      apply (rule ends_with_step, rule step)
      apply (rule ends_with_plus)
      using True less.prems(1) apply simp
      apply (rule rest)
      done
  qed
qed

end
