(* ===== verification/BranchWords.thy ===== *)
theory BranchWords
  imports FilterFacts
begin

unbundle bit_operations_syntax

text \<open>
  The branch filters over four-byte instructions undo their encoders. The absolute target that an
  encoder stores in a field of the instruction is made relative again; the rest of the instruction
  is what the filter recognises it by, so it survives. The locale \<open>branch_code\<close> is what the loop over
  the buffer needs of an instruction set, and PPC, ARM and SPARC provide it.
\<close>

section \<open>Bits of words and bytes\<close>

lemma less8: "(n::nat) < 8 \<longleftrightarrow> n \<in> {0,1,2,3,4,5,6,7}" by auto

lemma u8_bits: "(x::u8) = y \<longleftrightarrow> (\<forall>n\<in>{0,1,2,3,4,5,6,7}. bit x n = bit y n)"
  by (auto simp: less8 intro: bit_word_eqI)

lemma u32_bits: "(x::u32) = y \<longleftrightarrow> (\<forall>n<32. bit x n = bit y n)"
  by (auto intro: bit_word_eqI)

lemma u32_high: "32 \<le> n \<Longrightarrow> \<not> bit (x::u32) n" using bit_imp_le_length[of x n] by auto

lemma u8_high: "8 \<le> n \<Longrightarrow> \<not> bit (x::u8) n" using bit_imp_le_length[of x n] by auto

lemma from_le: "from_le_bytes (a # bs) = ucast a OR push_bit 8 (from_le_bytes bs)"
proof -
  have "ucast a OR push_bit 8 (from_le_bytes bs) = (ucast a + push_bit 8 (from_le_bytes bs) :: u32)"
    by (rule disjunctive_add [symmetric]) (auto simp: bit_simps dest: bit_imp_le_length)
  then show ?thesis by (simp add: from_le_bytes_def le_bytes_def push_bit_eq_mult)
qed

lemma from_le_nil: "from_le_bytes [] = 0"  by (simp add: from_le_bytes_def le_bytes_def)

lemma to_le_from_le: "length w = 4 \<Longrightarrow> to_le_bytes (from_le_bytes w) = w"
  by (clarsimp simp: four_bytes from_le from_le_nil to_le_bytes_def)
     (simp add: u8_bits bit_simps u8_high)

lemma from_le_to_le: "from_le_bytes (to_le_bytes v) = v"
proof (rule bit_word_eqI)
  fix n assume "n < LENGTH(32)"
  then consider "n < 8" | "8 \<le> n" "n < 16" | "16 \<le> n" "n < 24" | "24 \<le> n" "n < 32" by force
  then show "bit (from_le_bytes (to_le_bytes v)) n = bit v n"
    by cases (simp_all add: from_le from_le_nil to_le_bytes_def bit_simps not_le not_less le_diff_conv less_diff_conv2)
qed

lemma take_bit_plus_cong:
  assumes "take_bit n a = take_bit n (b::'a::len word)"
  shows "take_bit n (a + c) = take_bit n (b + c)"
proof (rule word_uint_eqI)
  let ?m = "min n LENGTH('a)"
  have "take_bit n (uint a) = take_bit n (uint b)"
    using arg_cong [OF assms, of uint] by (simp add: unsigned_take_bit_eq)
  then have "take_bit ?m (take_bit n (uint a)) = take_bit ?m (take_bit n (uint b))" by simp
  then have m: "take_bit ?m (uint a) = take_bit ?m (uint b)" by (simp add: min.absorb1)
  have "take_bit ?m (uint a + uint c) = take_bit ?m (uint b + uint c)"
    using m by (metis take_bit_add)
  then show "uint (take_bit n (a + c)) = uint (take_bit n (b + c))"
    by (simp add: unsigned_take_bit_eq uint_word_ariths flip: take_bit_eq_mod)
qed

lemma take_bit_diff_cong:
  "take_bit n a = take_bit n (b::'a::len word) \<Longrightarrow> take_bit n (a - c) = take_bit n (b - c)"
  using take_bit_plus_cong [of n a b "- c"] by simp

lemma low_masks: "(v::u32) AND 0x03ffffff = take_bit 26 v" "v AND 0x00ffffff = take_bit 24 v"
  by (simp_all add: take_bit_eq_mask mask_eq_exp_minus_1)

lemma u8_field: "(ucast y :: u8) = k \<longleftrightarrow> y = ucast k" if "(y::u32) = take_bit 8 y"
proof
  assume "(ucast y :: u8) = k"
  then have "(ucast (ucast y :: u8) :: u32) = ucast k" by simp
  moreover have "(ucast (ucast y :: u8) :: u32) = take_bit 8 y"
    by (rule bit_word_eqI) (auto simp: bit_simps)
  ultimately show "y = ucast k" using that by simp
next
  assume "y = ucast k"
  then show "(ucast y :: u8) = k" by (auto intro: bit_word_eqI simp: bit_simps)
qed

lemma high_byte_field: "drop_bit (24 + n) (v::u32) = take_bit 8 (drop_bit (24 + n) v)"
proof (rule bit_word_eqI)
  fix i
  show "bit (drop_bit (24 + n) v) i = bit (take_bit 8 (drop_bit (24 + n) v)) i"
    using u32_high [of "24 + n + i" v] by (cases "i < 8") (auto simp: bit_simps)
qed

lemma split_word: "(v::'a::len word) = take_bit n v OR push_bit n (drop_bit n v)"
proof (rule bit_word_eqI)
  fix i
  show "bit v i = bit (take_bit n v OR push_bit n (drop_bit n v)) i" if "i < LENGTH('a)"
    using that by (cases "i < n") (simp_all add: bit_simps)
qed

lemma ppc_cond: "(ucast (drop_bit 24 v) :: u8) AND 0xfc = 0x48 \<longleftrightarrow> drop_bit 26 (v::u32) = 0x12"
proof -
  have "(x::u8) AND 0xfc = 0x48 \<longleftrightarrow> drop_bit 2 x = 0x12" for x
    by (simp add: u8_bits bit_simps u8_high eval_nat_numeral)
  moreover have "drop_bit 2 (ucast (drop_bit 24 v) :: u8) = ucast (drop_bit 26 v)"
  proof (rule bit_word_eqI)
    fix i
    show "bit (drop_bit 2 (ucast (drop_bit 24 v) :: u8)) i = bit (ucast (drop_bit 26 v) :: u8) i"
      using u32_high [of "26 + i" v] by (cases "i < 6") (auto simp: bit_simps)
  qed
  ultimately show ?thesis using u8_field [of "drop_bit 26 v" "0x12"] high_byte_field [of 2 v] by simp
qed

lemma arm_cond: "(ucast (drop_bit 24 v) :: u8) = 0xeb \<longleftrightarrow> drop_bit 24 (v::u32) = 0xeb"
  using u8_field [of "drop_bit 24 v" "0xeb"] high_byte_field [of 0 v] by simp

lemma low_cond: "(ucast v :: u8) AND 3 = 1 \<longleftrightarrow> take_bit 2 (v::u32) = 1"
proof -
  have "(x::u8) AND 3 = 1 \<longleftrightarrow> take_bit 2 x = 1" for x
    by (simp add: take_bit_eq_mask mask_eq_exp_minus_1)
  moreover have "take_bit 2 (ucast v :: u8) = ucast (take_bit 2 v)"
    by (rule bit_word_eqI) (auto simp: bit_simps)
  moreover have "take_bit 2 v = take_bit 8 (take_bit 2 v)" by simp
  ultimately show ?thesis using u8_field [of "take_bit 2 v" 1] by simp
qed

section \<open>A relative field\<close>

text \<open>
  An instruction is recognised when it is the extension of its low \<open>n\<close> bits. Moving the target by
  \<open>d\<close> and extending again is undone by moving it back.
\<close>

lemma relative_inverse:
  assumes field: "\<And>x. take_bit n (ext (take_bit n x)) = take_bit n x"
    and v: "(v::'a::len word) = ext (take_bit n v)"
  shows "ext (take_bit n (ext (take_bit n (v + d)) - d)) = v"
    "ext (take_bit n (ext (take_bit n (v - d)) + d)) = v"
proof -
  have "take_bit n (ext (take_bit n (v + d)) - d) = take_bit n (v + d - d)"
    "take_bit n (ext (take_bit n (v - d)) + d) = take_bit n (v - d + d)"
    by (intro take_bit_diff_cong take_bit_plus_cong; simp add: field)+
  with v show "ext (take_bit n (ext (take_bit n (v + d)) - d)) = v"
    "ext (take_bit n (ext (take_bit n (v - d)) + d)) = v" by simp_all
qed

definition ppc_code :: "u32 \<Rightarrow> bool" where
  "ppc_code v \<longleftrightarrow> drop_bit 26 v = 0x12 \<and> take_bit 2 v = 1"

definition arm_code :: "u32 \<Rightarrow> bool" where
  "arm_code v \<longleftrightarrow> drop_bit 24 v = 0xeb"

definition ppc_ext :: "u32 \<Rightarrow> u32" where "ppc_ext x = x OR 0x48000000"
definition arm_ext :: "u32 \<Rightarrow> u32" where "arm_ext x = x OR 0xeb000000"

text \<open>The decoders' replacement of a word, and the encoders'.\<close>

definition ppc_decoded :: "u32 \<Rightarrow> u32 \<Rightarrow> u32" where
  "ppc_decoded ip v = (if ppc_code v then ppc_ext (take_bit 26 (v - ip)) else v)"

definition ppc_encoded :: "u32 \<Rightarrow> u32 \<Rightarrow> u32" where
  "ppc_encoded ip v = (if ppc_code v then ppc_ext (take_bit 26 (v + ip)) else v)"

definition arm_decoded :: "u32 \<Rightarrow> u32 \<Rightarrow> u32" where
  "arm_decoded ip v = (if arm_code v then arm_ext (take_bit 24 (v - drop_bit 2 ip)) else v)"

definition arm_encoded :: "u32 \<Rightarrow> u32 \<Rightarrow> u32" where
  "arm_encoded ip v = (if arm_code v then arm_ext (take_bit 24 (v + drop_bit 2 ip)) else v)"

lemma ext_field:
  "take_bit 26 (ppc_ext (take_bit 26 x)) = take_bit 26 x"
  "take_bit 24 (arm_ext (take_bit 24 x)) = take_bit 24 x"
  by (simp_all add: ppc_ext_def arm_ext_def)

lemma ext_code:
  "drop_bit 26 v = 0x12 \<Longrightarrow> v = ppc_ext (take_bit 26 v)"
  "drop_bit 24 v = 0xeb \<Longrightarrow> v = arm_ext (take_bit 24 v)"
  using split_word [of v 26] split_word [of v 24] by (simp_all add: ppc_ext_def arm_ext_def)

lemma drop_take: "drop_bit n (take_bit n (x::'a::len word)) = 0"
  by (rule bit_word_eqI) (simp add: bit_simps)

lemma ext_head:
  "drop_bit 26 (ppc_ext (take_bit 26 x)) = 0x12"
  "drop_bit 24 (arm_ext (take_bit 24 x)) = 0xeb"
  by (simp_all add: ppc_ext_def arm_ext_def drop_take)

lemma ext_low: "take_bit 2 (ppc_ext (take_bit 26 x)) = take_bit 2 x"
  by (simp add: ppc_ext_def)

lemma aligned_plus:
  assumes "take_bit 2 ip = (0::u32)"
  shows "take_bit 2 (v + ip) = take_bit 2 v" "take_bit 2 (v - ip) = take_bit 2 v"
proof -
  have "take_bit 2 (ip + v) = take_bit 2 (0 + v)" by (rule take_bit_plus_cong) (simp add: assms)
  then show "take_bit 2 (v + ip) = take_bit 2 v" by (simp add: add.commute)
  have "take_bit 2 (0 + (v - ip)) = take_bit 2 (ip + (v - ip))"
    by (rule take_bit_plus_cong) (simp add: assms)
  then show "take_bit 2 (v - ip) = take_bit 2 v" by simp
qed

section \<open>The buffer\<close>

definition word_of :: "byte_order \<Rightarrow> u8 list \<Rightarrow> u32" where
  "word_of order w = (case order of LittleEndian \<Rightarrow> from_le_bytes w | BigEndian \<Rightarrow> from_be_bytes w)"

lemma word_bytes_of [simp]: "length w = 4 \<Longrightarrow> word_bytes order (word_of order w) = w"
  using to_le_from_le [of "rev w"] to_le_from_le [of w]
  by (cases order) (simp_all add: word_bytes_def word_of_def to_be_bytes_def from_be_bytes_def)

lemma word_of_bytes [simp]: "word_of order (word_bytes order v) = v"
  by (cases order) (simp_all add: word_bytes_def word_of_def to_be_bytes_def from_be_bytes_def from_le_to_le)

definition instruction_map :: "byte_order \<Rightarrow> (u32 \<Rightarrow> u32 \<Rightarrow> u32) \<Rightarrow> u32 \<Rightarrow> u8 list \<Rightarrow> u8 list" where
  "instruction_map order f = word_map (\<lambda>ip w. word_bytes order (f ip (word_of order w)))"

lemma length_instruction_map [simp]: "length (instruction_map order f ip bytes) = length bytes"
  by (simp add: instruction_map_def length_word_map)

lemma instruction_map_cong:
  assumes "\<And>ip w. length w = 4 \<Longrightarrow> replaced order w (g ip w) = word_bytes order (f ip (word_of order w))"
  shows "word_map (\<lambda>ip w. replaced order w (g ip w)) ip bytes = instruction_map order f ip bytes"
proof -
  let ?f = "\<lambda>ip w. word_bytes order (f ip (word_of order w))"
  have "word_map (\<lambda>ip w. replaced order w (g ip w)) ip bytes = word_map ?f ip bytes"
    by (induction ?f ip bytes rule: word_map.induct) (simp_all add: assms)
  then show ?thesis by (simp add: instruction_map_def)
qed

locale branch_code =
  fixes aligned :: "u32 \<Rightarrow> bool"
    and decoded encoded :: "u32 \<Rightarrow> u32 \<Rightarrow> u32"
  assumes aligned_next: "aligned ip \<Longrightarrow> aligned (ip + 4)"
    and decoded_encoded: "aligned ip \<Longrightarrow> decoded ip (encoded ip v) = v"
    and encoded_decoded: "aligned ip \<Longrightarrow> encoded ip (decoded ip v) = v"
begin

lemma decode_encode:
  "aligned ip \<Longrightarrow> instruction_map order decoded ip (instruction_map order encoded ip bytes) = bytes"
proof -
  let ?e = "\<lambda>ip w. word_bytes order (encoded ip (word_of order w))"
  let ?d = "\<lambda>ip w. word_bytes order (decoded ip (word_of order w))"
  have "aligned ip \<Longrightarrow> word_map ?d ip (word_map ?e ip bytes) = bytes"
    by (induction ?e ip bytes rule: word_map.induct)
      (simp_all add: word_map_append aligned_next decoded_encoded)
  then show "aligned ip \<Longrightarrow> ?thesis" by (simp add: instruction_map_def)
qed

lemma encode_decode:
  "aligned ip \<Longrightarrow> instruction_map order encoded ip (instruction_map order decoded ip bytes) = bytes"
proof -
  let ?e = "\<lambda>ip w. word_bytes order (encoded ip (word_of order w))"
  let ?d = "\<lambda>ip w. word_bytes order (decoded ip (word_of order w))"
  have "aligned ip \<Longrightarrow> word_map ?e ip (word_map ?d ip bytes) = bytes"
    by (induction ?d ip bytes rule: word_map.induct)
      (simp_all add: word_map_append aligned_next encoded_decoded)
  then show "aligned ip \<Longrightarrow> ?thesis" by (simp add: instruction_map_def)
qed

end

lemma four_aligned: "take_bit 2 ip = (0::u32) \<Longrightarrow> take_bit 2 (ip + 4) = 0"
  using aligned_plus(1) [of ip 4] by (simp add: add.commute)

interpretation ppc: branch_code "\<lambda>ip. take_bit 2 ip = 0" ppc_decoded ppc_encoded
proof
  fix ip v :: u32
  assume ip: "take_bit 2 ip = 0"
  then show "take_bit 2 (ip + 4) = 0" by (rule four_aligned)
  have code: "ppc_code (ppc_ext (take_bit 26 (v + ip)))" "ppc_code (ppc_ext (take_bit 26 (v - ip)))" if "ppc_code v"
    using that ip by (simp_all add: ppc_code_def ext_head ext_low aligned_plus)
  have v: "v = ppc_ext (take_bit 26 v)" if "ppc_code v" using that ext_code by (simp add: ppc_code_def)
  show "ppc_decoded ip (ppc_encoded ip v) = v" "ppc_encoded ip (ppc_decoded ip v) = v"
    using code relative_inverse [of 26 ppc_ext, OF ext_field(1) v]
    by (simp_all add: ppc_decoded_def ppc_encoded_def)
qed

interpretation arm: branch_code "\<lambda>ip. True" arm_decoded arm_encoded
proof
  fix ip v :: u32
  show "True" ..
  have v: "v = arm_ext (take_bit 24 v)" if "arm_code v" using that ext_code by (simp add: arm_code_def)
  show "arm_decoded ip (arm_encoded ip v) = v" "arm_encoded ip (arm_decoded ip v) = v"
    using relative_inverse [of 24 arm_ext, OF ext_field(2) v]
    by (simp_all add: arm_decoded_def arm_encoded_def arm_code_def ext_head)
qed

section \<open>The steps of the source\<close>

lemma word_nth:
  assumes "offset + 4 \<le> length bytes" "w = take 4 (drop offset bytes)" "i < 4"
  shows "bytes ! (offset + i) = w ! i"
  using assms by (simp add: nth_append)

lemma to_be_nth: "to_be_bytes v ! 0 = ucast (drop_bit 24 v)" "to_be_bytes v ! 1 = ucast (drop_bit 16 v)"
  "to_be_bytes v ! 3 = ucast v" "to_le_bytes v ! 3 = ucast (drop_bit 24 v)"
  by (simp_all add: to_be_bytes_def to_le_bytes_def)

lemma word_nth_be:
  assumes "offset + 4 \<le> length bytes" "v = from_be_bytes (take 4 (drop offset bytes))"
  shows "bytes ! offset = ucast (drop_bit 24 v)" "bytes ! (offset + 1) = ucast (drop_bit 16 v)"
    "bytes ! (offset + 3) = ucast v"
proof -
  have "take 4 (drop offset bytes) = to_be_bytes v"
    using assms word_bytes_of [of "take 4 (drop offset bytes)" BigEndian]
    by (simp add: word_bytes_def word_of_def)
  then show "bytes ! offset = ucast (drop_bit 24 v)" "bytes ! (offset + 1) = ucast (drop_bit 16 v)"
    "bytes ! (offset + 3) = ucast v"
    using word_nth [OF assms(1) refl, of 0] word_nth [OF assms(1) refl, of 1]
      word_nth [OF assms(1) refl, of 3] by (simp_all only: to_be_nth) (simp_all add: to_be_nth)
qed

lemma word_nth_le:
  assumes "offset + 4 \<le> length bytes" "v = from_le_bytes (take 4 (drop offset bytes))"
  shows "bytes ! (offset + 3) = ucast (drop_bit 24 v)"
proof -
  have "take 4 (drop offset bytes) = to_le_bytes v"
    using assms to_le_from_le [of "take 4 (drop offset bytes)"] by simp
  then show ?thesis
    using word_nth [OF assms(1) refl, of 3] by (simp add: to_be_nth)
qed

definition ppc_word :: "u32 \<Rightarrow> u8 list \<Rightarrow> u32 option" where
  "ppc_word ip w = (let v = from_be_bytes w in if ppc_code v then Some (ppc_decoded ip v) else None)"

definition arm_word :: "u32 \<Rightarrow> u8 list \<Rightarrow> u32 option" where
  "arm_word ip w = (let v = from_le_bytes w in if arm_code v then Some (arm_decoded (ip + 4) v) else None)"

lemma ppc_step_run:
  assumes "offset + 4 \<le> length bytes" "length bytes < 2 ^ 64"
  shows "ppc_step offset ip bytes s = (Inr (ppc_word ip (take 4 (drop offset bytes))), s)"
proof -
  define v where "v = from_be_bytes (take 4 (drop offset bytes))"
  note nth = word_nth_be [OF assms(1) v_def]
  have "bytes ! offset AND 0xfc = 0x48 \<and> bytes ! (offset + 3) AND 3 = 1 \<longleftrightarrow> ppc_code v"
    unfolding nth ppc_cond low_cond ppc_code_def ..
  then show ?thesis
    using assms
    by (simp add: ppc_step_def run byte_at_run filter_words_run get_at_def ppc_word_def Let_def
        ppc_decoded_def ppc_ext_def low_masks flip: v_def)
qed

lemma arm_step_run:
  assumes "offset + 4 \<le> length bytes" "length bytes < 2 ^ 64"
  shows "arm_step offset ip bytes s = (Inr (arm_word ip (take 4 (drop offset bytes))), s)"
proof -
  define v where "v = from_le_bytes (take 4 (drop offset bytes))"
  have "bytes ! (offset + 3) = 0xeb \<longleftrightarrow> arm_code v"
    unfolding word_nth_le [OF assms(1) v_def] arm_cond arm_code_def ..
  then show ?thesis
    using assms
    by (simp add: arm_step_def run byte_at_run filter_words_run arm_word_def Let_def
        arm_decoded_def arm_ext_def low_masks flip: v_def)
qed

section \<open>SPARC\<close>

text \<open>The field of a SPARC call is signed: its top bit is repeated above it.\<close>

definition sparc_code :: "u32 \<Rightarrow> bool" where
  "sparc_code v \<longleftrightarrow> drop_bit 22 v = 0x100 \<or> drop_bit 22 v = 0x1ff"

definition sparc_ext :: "u32 \<Rightarrow> u32" where
  "sparc_ext x = drop_bit 2 ((push_bit 2 x - push_bit 24 1) XOR 0xff000000) OR 0x40000000"

definition sparc_decoded :: "u32 \<Rightarrow> u32 \<Rightarrow> u32" where
  "sparc_decoded ip v =
     (if sparc_code v
      then drop_bit 2 ((((push_bit 2 v - ip) AND 0x01ffffff) - push_bit 24 1) XOR 0xff000000) OR 0x40000000
      else v)"

definition sparc_encoded :: "u32 \<Rightarrow> u32 \<Rightarrow> u32" where
  "sparc_encoded ip v =
     (if sparc_code v
      then drop_bit 2 ((((push_bit 2 v + ip) AND 0x01ffffff) - push_bit 24 1) XOR 0xff000000) OR 0x40000000
      else v)"

definition sparc_word :: "u32 \<Rightarrow> u8 list \<Rightarrow> u32 option" where
  "sparc_word ip w =
     (let v = from_be_bytes w in if sparc_code v then Some (sparc_decoded ip v) else None)"

lemma pair_bits: "(x::u32) = push_bit 2 a OR b \<longleftrightarrow> drop_bit 2 x = a \<and> take_bit 2 x = b"
  if "take_bit 30 a = a" "take_bit 2 b = b"
proof
  assume x: "x = push_bit 2 a OR b"
  have "drop_bit 2 (push_bit 2 (take_bit 30 a)) = take_bit 30 a"
    by (rule bit_word_eqI) (auto simp: bit_simps)
  moreover have "drop_bit 2 (take_bit 2 b) = 0" by (rule drop_take)
  ultimately show "drop_bit 2 x = a \<and> take_bit 2 x = b" using x that by (simp add: take_bit_push_bit)
next
  assume "drop_bit 2 x = a \<and> take_bit 2 x = b"
  then show "x = push_bit 2 a OR b" using split_word [of x 2] by (simp add: or.commute)
qed

lemma sparc_cond:
  "ucast (drop_bit 24 v) = (0x40::u8) \<and> ucast (drop_bit 16 v) AND (0xc0::u8) = 0
     \<or> ucast (drop_bit 24 v) = (0x7f::u8) \<and> ucast (drop_bit 16 v) \<ge> (0xc0::u8) \<longleftrightarrow> sparc_code v"
proof -
  define x where "x = drop_bit 22 (v::u32)"
  have head: "ucast (drop_bit 24 v) = k \<longleftrightarrow> drop_bit 2 x = ucast (k::u8)" for k
    using u8_field [of "drop_bit 24 v" k] high_byte_field [of 0 v] by (simp add: x_def)
  have low: "drop_bit 6 (ucast (drop_bit 16 v) :: u8) = ucast (take_bit 2 x)"
    unfolding x_def by (rule bit_word_eqI) (auto simp: bit_simps)
  have z: "(b::u8) AND 0xc0 = 0 \<longleftrightarrow> drop_bit 6 b = 0" for b
    by (simp add: u8_bits bit_simps u8_high)
  have t: "(b::u8) \<ge> 0xc0 \<longleftrightarrow> drop_bit 6 b = 3" for b
  proof -
    have "unat b < 2 ^ LENGTH(8)" by (rule unsigned_less)
    then show ?thesis
      by (simp add: word_le_nat_alt word_unat_eq_iff unsigned_drop_bit_eq drop_bit_eq_div unat_div) arith
  qed
  have c: "ucast (take_bit 2 x) = (k::u8) \<longleftrightarrow> take_bit 2 x = ucast k" for k
    using u8_field [of "take_bit 2 x" k] by simp
  have "x = 0x100 \<longleftrightarrow> drop_bit 2 x = 0x40 \<and> take_bit 2 x = 0" "x = 0x1ff \<longleftrightarrow> drop_bit 2 x = 0x7f \<and> take_bit 2 x = 3"
    using pair_bits [of "0x40" 0 x] pair_bits [of "0x7f" 3 x] by simp_all
  then show ?thesis by (simp add: head z t low c sparc_code_def flip: x_def)
qed

lemma sparc_step_run:
  assumes "offset + 4 \<le> length bytes" "length bytes < 2 ^ 64"
  shows "sparc_step offset ip bytes s = (Inr (sparc_word ip (take 4 (drop offset bytes))), s)"
proof -
  define v where "v = from_be_bytes (take 4 (drop offset bytes))"
  note nth = word_nth_be [OF assms(1) v_def]
  have "bytes ! offset = 0x40 \<and> bytes ! (offset + 1) AND 0xc0 = 0
      \<or> bytes ! offset = 0x7f \<and> bytes ! (offset + 1) \<ge> 0xc0 \<longleftrightarrow> sparc_code v"
    unfolding nth sparc_cond ..
  then show ?thesis
    using assms
    by (simp add: sparc_step_def run byte_at_run filter_words_run get_at_def sparc_word_def Let_def
        sparc_decoded_def flip: v_def)
qed

lemma sparc_ext_eq:
  assumes "x = take_bit 23 x"
  shows "sparc_ext x = (if bit x 22 then take_bit 22 x OR 0x7fc00000 else take_bit 22 x OR 0x40000000)"
proof -
  define a where "a = take_bit 22 (x::u32)"
  define ones :: u32 where "ones = push_bit 24 0xff"
  have ones: "i < 24 \<Longrightarrow> \<not> bit ones i" for i by (simp add: ones_def bit_push_bit_iff del: push_bit_numeral)
  have shifted: "24 \<le> i \<Longrightarrow> \<not> bit (push_bit 2 a) i" for i by (auto simp: a_def bit_simps)
  have a: "drop_bit 2 (push_bit 2 a) = a" unfolding a_def by (rule bit_word_eqI) (auto simp: bit_simps)
  have apart: "\<not> (bit (push_bit 2 a) i \<and> bit ones i)" for i using ones shifted by (cases "i < 24") auto
  have disjoint: "push_bit 2 a AND ones = 0" using apart by (auto simp: bit_eq_iff bit_and_iff)
  have high: "a AND push_bit 22 1 = 0"
    unfolding a_def by (rule bit_word_eqI) (auto simp: bit_and_iff bit_take_bit_iff bit_push_bit_iff simp del: push_bit_numeral push_bit_of_1)
  have xor: "(push_bit 2 a OR ones) XOR ones = push_bit 2 a" "push_bit 2 a XOR ones = push_bit 2 a OR ones"
    using apart by (auto simp: bit_eq_iff bit_xor_iff bit_or_iff simp del: bit_push_bit_iff)
  have plus: "push_bit 2 a + ones = push_bit 2 a OR ones"
    by (rule disjunctive_add_eq_or) (rule disjoint)
  have head: "drop_bit 2 ones = 0x3fc00000" "ones = 0xff000000" "- push_bit 24 1 = ones"
    using a by (simp_all add: ones_def)
  show ?thesis
  proof (cases "bit x 22")
    case True
    have "x = a OR push_bit 22 1"
    proof (rule bit_word_eqI)
      fix i show "bit x i = bit (a OR push_bit 22 1) i"
        using True arg_cong [OF assms, of "\<lambda>x. bit x i"]
        by (cases i "22::nat" rule: linorder_cases)
          (auto simp: a_def bit_or_iff bit_take_bit_iff bit_push_bit_iff bit_1_iff simp del: push_bit_numeral push_bit_of_1)
    qed
    also have "\<dots> = a + push_bit 22 1" by (rule disjunctive_add_eq_or [symmetric]) (rule high)
    finally have "push_bit 2 x - push_bit 24 1 = push_bit 2 a" by (simp add: push_bit_eq_mult)
    then show ?thesis
      using True by (simp add: sparc_ext_def xor(2) a head(1) or.assoc flip: head(2) a_def)
  next
    case False
    have "x = a"
    proof (rule bit_word_eqI)
      fix i show "bit x i = bit a i"
        using False arg_cong [OF assms, of "\<lambda>x. bit x i"]
        by (cases i "22::nat" rule: linorder_cases) (auto simp: a_def bit_simps)
    qed
    have "push_bit 2 a - push_bit 24 1 = push_bit 2 a + - push_bit 24 1" by (rule diff_conv_add_uminus)
    then have "push_bit 2 x - push_bit 24 1 = push_bit 2 a OR ones"
      unfolding head(3) plus using \<open>x = a\<close> by simp
    then show ?thesis
      using False by (simp add: sparc_ext_def xor(1) a flip: head(2) a_def)
  qed
qed


lemma sparc_ext_field: "take_bit 23 (sparc_ext (take_bit 23 x)) = take_bit 23 x"
proof -
  have "take_bit 23 x = (if bit x 22 then take_bit 22 x OR 0x400000 else take_bit 22 x)"
  proof (rule bit_word_eqI)
    fix i show "bit (take_bit 23 x) i = bit (if bit x 22 then take_bit 22 x OR 0x400000 else take_bit 22 x) i"
      using bit_push_bit_iff [of 22 "1::u32" i]
      by (cases i "22::nat" rule: linorder_cases) (auto simp: bit_or_iff bit_take_bit_iff bit_1_iff)
  qed
  moreover have "bit (take_bit 23 x) 22 = bit x 22" "take_bit 22 (take_bit 23 x) = take_bit 22 x"
    by (simp_all add: bit_simps)
  ultimately show ?thesis by (simp add: sparc_ext_eq)
qed

lemma sparc_ext_head: "sparc_code (sparc_ext (take_bit 23 x))"
  by (simp add: sparc_ext_eq sparc_code_def bit_simps drop_take)

lemma sparc_ext_code:
  assumes "sparc_code v"
  shows "v = sparc_ext (take_bit 23 v)"
proof -
  have "bit v 22 = bit (drop_bit 22 v) 0" by (simp add: bit_simps)
  with assms have "(bit v 22 \<longrightarrow> drop_bit 22 v = 0x1ff) \<and> (\<not> bit v 22 \<longrightarrow> drop_bit 22 v = 0x100)"
    by (auto simp: sparc_code_def)
  then show ?thesis
    using split_word [of v 22] by (auto simp: sparc_ext_eq bit_simps)
qed

lemma sparc_relative:
  assumes "take_bit 2 ip = 0" "sparc_code v"
  shows "sparc_decoded ip v = sparc_ext (take_bit 23 (v - drop_bit 2 ip))"
    "sparc_encoded ip v = sparc_ext (take_bit 23 (v + drop_bit 2 ip))"
proof -
  have ip: "ip = drop_bit 2 ip * 4" using split_word [of ip 2] assms by (simp add: push_bit_eq_mult)
  have m: "(w::u32) AND 0x01ffffff = take_bit 25 w" for w
    by (simp add: take_bit_eq_mask mask_eq_exp_minus_1)
  have "push_bit 2 v - ip = push_bit 2 (v - drop_bit 2 ip)" "push_bit 2 v + ip = push_bit 2 (v + drop_bit 2 ip)"
    by (subst ip, simp add: push_bit_eq_mult algebra_simps)+
  then show "sparc_decoded ip v = sparc_ext (take_bit 23 (v - drop_bit 2 ip))"
    "sparc_encoded ip v = sparc_ext (take_bit 23 (v + drop_bit 2 ip))"
    using assms(2) by (simp_all add: sparc_decoded_def sparc_encoded_def sparc_ext_def m take_bit_push_bit)
qed

interpretation sparc: branch_code "\<lambda>ip. take_bit 2 ip = 0" sparc_decoded sparc_encoded
proof
  fix ip v :: u32
  assume ip: "take_bit 2 ip = 0"
  then show "take_bit 2 (ip + 4) = 0" by (rule four_aligned)
  show "sparc_decoded ip (sparc_encoded ip v) = v" "sparc_encoded ip (sparc_decoded ip v) = v"
  proof (atomize (full), cases "sparc_code v")
    case True
    then show "sparc_decoded ip (sparc_encoded ip v) = v \<and> sparc_encoded ip (sparc_decoded ip v) = v"
      using ip relative_inverse [of 23 sparc_ext, OF sparc_ext_field sparc_ext_code [OF True]]
      by (simp add: sparc_relative sparc_ext_head)
  next
    case False
    then show "sparc_decoded ip (sparc_encoded ip v) = v \<and> sparc_encoded ip (sparc_decoded ip v) = v"
      by (simp add: sparc_decoded_def sparc_encoded_def)
  qed
qed

section \<open>The filters undo their encoders\<close>

text \<open>The instruction sets, the byte order of their words, and the encoder run from the pointer in the properties.\<close>

definition encoded_branches :: "u8 list \<Rightarrow> u32 \<Rightarrow> u8 list \<Rightarrow> u8 list" where
  "encoded_branches method_id start bytes =
     (if method_id = METHOD_PPC then instruction_map BigEndian ppc_encoded start bytes
      else if method_id = METHOD_SPARC then instruction_map BigEndian sparc_encoded start bytes
      else instruction_map LittleEndian arm_encoded (start + 8) bytes)"

lemma replaced_word:
  "length w = 4 \<Longrightarrow> replaced BigEndian w (ppc_word ip w) = word_bytes BigEndian (ppc_decoded ip (word_of BigEndian w))"
  "length w = 4 \<Longrightarrow> replaced BigEndian w (sparc_word ip w) = word_bytes BigEndian (sparc_decoded ip (word_of BigEndian w))"
  "length w = 4 \<Longrightarrow>
     replaced LittleEndian w (arm_word ip w) = word_bytes LittleEndian (arm_decoded (ip + 4) (word_of LittleEndian w))"
  using word_bytes_of [of w BigEndian] word_bytes_of [of w LittleEndian]
  by (simp_all add: replaced_def ppc_word_def sparc_word_def arm_word_def Let_def ppc_decoded_def
      sparc_decoded_def arm_decoded_def word_of_def)

lemma word_map_shift:
  "word_map (\<lambda>ip w. f (ip + d) w) ip bytes = word_map f (ip + d) bytes"
  by (induction f "ip + d" bytes arbitrary: ip rule: word_map.induct) (simp_all add: ac_simps)

lemma loop_decodes:
  assumes "\<And>offset ip bytes s. offset + 4 \<le> length bytes \<Longrightarrow> length bytes < 2 ^ 64 \<Longrightarrow>
      step offset ip bytes s = (Inr (f ip (take 4 (drop offset bytes))), s)"
    and "\<And>ip w. length w = 4 \<Longrightarrow> replaced order w (f ip w) = word_bytes order (g ip (word_of order w))"
    and "length bytes < 2 ^ 64"
  shows "ends_with E (\<lambda>out. out = instruction_map order g ip bytes) (word_loop step order overflow 0 ip bytes s)"
proof -
  have map: "word_map (\<lambda>ip w. replaced order w (f ip w)) ip bytes = instruction_map order g ip bytes"
    by (rule instruction_map_cong) (rule assms(2))
  have "ends_with E (\<lambda>out. out = take 0 bytes @ word_map (\<lambda>ip w. replaced order w (f ip w)) ip (drop 0 bytes))
      (word_loop step order overflow 0 ip bytes s)"
    using assms by (intro word_loop_map) simp_all
  then show ?thesis by (simp add: map)
qed

lemma starting_position_run: "starting_position (to_le_bytes start) s = (Inr start, s)"
  by (simp add: starting_position_def from_le_to_le run) (simp add: to_le_bytes_def)

lemma decode_branches:
  assumes "length bytes < 2 ^ 64"
  shows "ends_with E (\<lambda>out. out = instruction_map BigEndian ppc_decoded start bytes)
      (decode_ppc bytes (to_le_bytes start) s)"
    "ends_with E (\<lambda>out. out = instruction_map BigEndian sparc_decoded start bytes)
      (decode_sparc bytes (to_le_bytes start) s)"
    "ends_with E (\<lambda>out. out = instruction_map LittleEndian arm_decoded (start + 8) bytes)
      (decode_arm bytes (to_le_bytes start) s)"
proof -
  show "ends_with E (\<lambda>out. out = instruction_map BigEndian ppc_decoded start bytes)
      (decode_ppc bytes (to_le_bytes start) s)"
    unfolding decode_ppc_def by (rule ends_with_step, rule starting_position_run, rule loop_decodes [OF ppc_step_run replaced_word(1) assms])
  show "ends_with E (\<lambda>out. out = instruction_map BigEndian sparc_decoded start bytes)
      (decode_sparc bytes (to_le_bytes start) s)"
    unfolding decode_sparc_def by (rule ends_with_step, rule starting_position_run, rule loop_decodes [OF sparc_step_run replaced_word(2) assms])
  have "ends_with E (\<lambda>out. out = instruction_map LittleEndian (\<lambda>ip. arm_decoded (ip + 4)) (start + 4) bytes)
      (decode_arm bytes (to_le_bytes start) s)"
    unfolding decode_arm_def by (rule ends_with_step, rule starting_position_run, rule loop_decodes [OF arm_step_run replaced_word(3) assms])
  moreover have "instruction_map LittleEndian (\<lambda>ip. arm_decoded (ip + 4)) (start + 4) bytes
      = instruction_map LittleEndian arm_decoded (start + 8) bytes"
    using word_map_shift [of "\<lambda>ip w. word_bytes LittleEndian (arm_decoded ip (word_of LittleEndian w))" 4 "start + 4" bytes]
    by (simp add: instruction_map_def add.assoc)
  ultimately show "ends_with E (\<lambda>out. out = instruction_map LittleEndian arm_decoded (start + 8) bytes)
      (decode_arm bytes (to_le_bytes start) s)" by simp
qed

lemma decode_filter_branches:
  "decode_filter METHOD_PPC properties bytes = decode_ppc bytes properties"
  "decode_filter METHOD_SPARC properties bytes = decode_sparc bytes properties"
  "decode_filter METHOD_ARM properties bytes = decode_arm bytes properties"
  by (simp_all add: decode_filter_def filter_ids)

lemma encoded_branches_methods:
  "encoded_branches METHOD_PPC start bytes = instruction_map BigEndian ppc_encoded start bytes"
  "encoded_branches METHOD_SPARC start bytes = instruction_map BigEndian sparc_encoded start bytes"
  "encoded_branches METHOD_ARM start bytes = instruction_map LittleEndian arm_encoded (start + 8) bytes"
  by (simp_all add: encoded_branches_def filter_ids)

text \<open>C11: The PowerPC, SPARC and ARM branch filters undo their encoders: for a buffer whose branch
  targets were made absolute from a given start address, decoding with that address in the
  properties gives back the original buffer, unless the operation is cancelled or runs out of
  work. The address of PowerPC and SPARC code must be a multiple of four.\<close>

theorem branch_filters_undo:
  assumes "method_id \<in> {METHOD_PPC, METHOD_SPARC, METHOD_ARM}"
    and "method_id = METHOD_ARM \<or> take_bit 2 start = 0"
    and "length bytes < 2 ^ 64"
  shows "ends_with (\<lambda>_. False) (\<lambda>out. out = bytes)
    (decode_filter method_id (to_le_bytes start) (encoded_branches method_id start bytes) s)"
proof -
  consider "method_id = METHOD_PPC" "take_bit 2 start = 0" | "method_id = METHOD_SPARC" "take_bit 2 start = 0"
    | "method_id = METHOD_ARM"
    using assms by (auto simp: filter_ids)
  then show ?thesis
  proof cases
    case 1
    then show ?thesis
      using decode_branches(1) [of "encoded_branches method_id start bytes" "\<lambda>_. False" start s] assms(3)
      by (simp add: decode_filter_branches encoded_branches_methods ppc.decode_encode)
  next
    case 2
    then show ?thesis
      using decode_branches(2) [of "encoded_branches method_id start bytes" "\<lambda>_. False" start s] assms(3)
      by (simp add: decode_filter_branches encoded_branches_methods sparc.decode_encode)
  next
    case 3
    then show ?thesis
      using decode_branches(3) [of "encoded_branches method_id start bytes" "\<lambda>_. False" start s] assms(3)
      by (simp add: decode_filter_branches encoded_branches_methods arm.decode_encode)
  qed
qed

theorem branch_filters_undo_witness:
  "ends_with (\<lambda>_. False) (\<lambda>out. out = [0x48, 0, 0x10, 1, 7])
     (decode_filter METHOD_PPC (to_le_bytes 0x1000)
       (encoded_branches METHOD_PPC 0x1000 [0x48, 0, 0x10, 1, 7]) unlimited)"
  using branch_filters_undo [of METHOD_PPC "0x1000" "[0x48, 0, 0x10, 1, 7]" unlimited]
  by simp

end
