(* ===== verification/DeltaFacts.thy ===== *)
theory DeltaFacts
  imports FilterFacts
begin

unbundle bit_operations_syntax

text \<open>
  The Delta filter restores the samples that its encoder replaced by differences. The source keeps
  the last 256 output bytes in a ring that it walks backwards; the invariant says which output each
  slot of the ring holds.
\<close>

section \<open>The reference\<close>

text \<open>The output \<open>distance\<close> bytes back, zero before the start.\<close>

definition byte_back :: "nat \<Rightarrow> u8 list \<Rightarrow> u8" where
  "byte_back distance outs = (if distance \<le> length outs then outs ! (length outs - distance) else 0)"

primrec undelta :: "nat \<Rightarrow> u8 list \<Rightarrow> u8 list \<Rightarrow> u8 list" where
  "undelta distance outs [] = []"
| "undelta distance outs (b # bs) =
     (let v = b + byte_back distance outs in v # undelta distance (outs @ [v]) bs)"

definition delta_encoded :: "nat \<Rightarrow> u8 list \<Rightarrow> u8 list" where
  "delta_encoded distance bytes = map (\<lambda>i. bytes ! i - byte_back distance (take i bytes)) [0..<length bytes]"

lemma undelta_encoded:
  assumes "n \<le> length bytes"
  shows "undelta distance (take n bytes)
    (map (\<lambda>i. bytes ! i - byte_back distance (take i bytes)) [n..<length bytes]) = drop n bytes"
  using assms
proof (induction "length bytes - n" arbitrary: n)
  case 0
  then show ?case by simp
next
  case (Suc k)
  then have n: "n < length bytes" by simp
  then have "[n..<length bytes] = n # [Suc n..<length bytes]" by (rule upt_conv_Cons)
  moreover have "take n bytes @ [bytes ! n] = take (Suc n) bytes" using n by (simp add: take_Suc_conv_app_nth)
  moreover have "drop n bytes = bytes ! n # drop (Suc n) bytes" using n by (simp add: Cons_nth_drop_Suc)
  ultimately show ?case using Suc.hyps n by (simp add: Let_def)
qed

section \<open>The ring\<close>

definition ring :: "u8 list \<Rightarrow> u8 \<Rightarrow> u8 list \<Rightarrow> bool" where
  "ring history position outs \<longleftrightarrow> length history = 256
     \<and> (\<forall>m. 0 < m \<longrightarrow> m \<le> 256 \<longrightarrow> history ! ((m + unat position) mod 256) = byte_back m outs)"

lemma ring_new: "ring (replicate 256 0) 0 []"
  by (simp add: ring_def byte_back_def)

lemma unat_less_256: "unat (position :: u8) < 256"
proof -
  have "unat position < 2 ^ LENGTH(8)" by (rule unsigned_less)
  then show ?thesis by simp
qed

lemma unat_minus_one: "unat (position - 1 :: u8) = (unat position + 255) mod 256"
proof -
  have "position - 1 = position + (255 :: u8)" by (simp add: diff_eq_eq)
  then show ?thesis by (simp only: unat_word_ariths) simp
qed

lemma ring_step:
  assumes "ring history position outs"
  shows "ring (history[unat position := v]) (position - 1) (outs @ [v])"
  unfolding ring_def
proof (intro conjI allI impI)
  let ?p = "unat position"
  have p: "?p < 256" by (rule unat_less_256)
  have len: "length history = 256" using assms by (simp add: ring_def)
  then show "length (history[unat position := v]) = 256" by simp
  fix m :: nat assume m: "0 < m" "m \<le> 256"
  have "(m + unat (position - 1)) mod 256 = (m + (?p + 255)) mod 256"
    unfolding unat_minus_one by (rule mod_add_right_eq)
  also have "m + (?p + 255) = (m - 1 + ?p) + 256" using m by simp
  finally have slot: "(m + unat (position - 1)) mod 256 = (m - 1 + ?p) mod 256" by simp
  show "history[?p := v] ! ((m + unat (position - 1)) mod 256) = byte_back m (outs @ [v])"
  proof (cases "m = 1")
    case True
    then show ?thesis using p len unfolding slot by (simp add: byte_back_def)
  next
    case False
    with m have m1: "0 < m - 1" "m - 1 \<le> 256" by simp_all
    have other: "(m - 1 + ?p) mod 256 \<noteq> ?p"
      using p m m1 by (cases "m - 1 + ?p < 256") (auto simp: mod_if)
    have "history ! ((m - 1 + ?p) mod 256) = byte_back (m - 1) outs" using assms m1 unfolding ring_def by blast
    moreover have "byte_back (m - 1) outs = byte_back m (outs @ [v])"
      using m1 by (auto simp: byte_back_def nth_append Suc_diff_le)
    ultimately show ?thesis unfolding slot using other by simp
  qed
qed

lemma delta_loop_exact:
  assumes "ring history position outs" "0 < distance" "distance \<le> 256"
  shows "ends_with (\<lambda>_. False) (\<lambda>out. out = undelta distance outs bytes)
    (delta_loop bytes distance history position s)"
  using assms(1)
proof (induction bytes arbitrary: history position outs s)
  case Nil
  then show ?case by (simp add: ends_with_run)
next
  case (Cons b bytes)
  let ?v = "b + byte_back distance outs"
  have p: "unat position < 256" by (rule unat_less_256)
  have len: "length history = 256" and prev: "history ! ((distance + unat position) mod 256) = byte_back distance outs"
    using Cons.prems assms(2,3) by (simp_all add: ring_def)
  have rest: "ends_with (\<lambda>_. False) (\<lambda>out. out = undelta distance (outs @ [?v]) bytes)
      (delta_loop bytes distance (history[unat position := ?v]) (position - 1) t)" for t :: "'a control_scheme"
    by (rule Cons.IH) (rule ring_step [OF Cons.prems])
  have onward: "ends_with (\<lambda>_. False) (\<lambda>out. out = undelta distance outs (b # bytes))
      (bind (delta_loop bytes distance (history[unat position := ?v]) (position - 1)) (\<lambda>rest. ret (?v # rest)) t)"
    for t :: "'a control_scheme"
    by (rule ends_with_bind [OF rest]) (simp add: ends_with_run Let_def)
  show ?case
    unfolding delta_loop.simps
    apply (rule ends_with_skip [OF ends_with_checkpoint])
    apply (rule ends_with_plus)
    using p assms(3) apply simp
    apply (subst Let_def)
    apply (rule ends_with_index)
    using len apply simp
    using p len onward unfolding prev by (simp add: Let_def)
qed

section \<open>The filter\<close>

text \<open>C12: The Delta filter undoes its encoder: a buffer whose bytes were each replaced by the
  difference to the byte \<open>property + 1\<close> positions earlier is restored exactly, for every distance
  from 1 to 256; only cancellation or a spent budget can stop it.\<close>

theorem delta_filter_undoes:
  "ends_with (\<lambda>_. False) (\<lambda>out. out = bytes)
     (decode_filter METHOD_DELTA [property] (delta_encoded (unat property + 1) bytes) s)"
proof -
  have p: "unat property < 256" by (rule unat_less_256)
  let ?d = "unat property + 1"
  have "ends_with (\<lambda>_. False) (\<lambda>out. out = undelta ?d [] (delta_encoded ?d bytes))
      (delta_loop (delta_encoded ?d bytes) ?d (replicate 256 0) 0 s)"
    using p by (intro delta_loop_exact ring_new) simp_all
  moreover have "undelta ?d [] (delta_encoded ?d bytes) = bytes"
    using undelta_encoded [of 0 bytes ?d] by (simp add: delta_encoded_def)
  ultimately show ?thesis
    using p by (simp add: decode_filter_def decode_delta_def get_at_def checked_add_def run)
qed

end
