(* ===== verification/FilterEnds.thy ===== *)
theory FilterEnds
  imports BranchWords DeltaFacts
begin

unbundle bit_operations_syntax

text \<open>
  Every size-preserving filter ends: with a buffer of the same length, or because of its properties
  or its method. None of the errors that guard the filters' own indexing and arithmetic is ever
  returned for a buffer below four gigabytes.
\<close>

abbreviation keeps_length :: "u8 list \<Rightarrow> (error + u8 list) \<times> 's \<Rightarrow> bool" where
  "keeps_length bytes \<equiv> ends_with (\<lambda>_. False) (\<lambda>out. length out = length bytes)"

lemma get_at_run: "i < length xs \<Longrightarrow> ok_or (get_at xs i) e s = (Inr (xs ! i), s)"
  by (simp add: get_at_def run)

lemma get_range_run: "a \<le> b \<Longrightarrow> b \<le> length xs \<Longrightarrow> ok_or (get_range xs a b) e s = (Inr (take (b - a) (drop a xs)), s)"
  by (simp add: get_range_def run)

lemma plus_run: "a + b < 2 ^ 64 \<Longrightarrow> ok_or (checked_add a b) e s = (Inr (a + b), s)"
  by (simp add: checked_add_def run)

lemma u32_of_run: "v < 2 ^ 32 \<Longrightarrow> u32_of v d s = (Inr (of_nat v), s)"
  by (simp add: u32_of_def run)

lemma ends_with_pair [simp]: "ends_with E P (Inr x, t) \<longleftrightarrow> P x" "ends_with E P (Inl e, t) \<longleftrightarrow> resource_error e \<or> E e"
  by (simp_all add: ends_with_def)

lemmas pure_steps = get_at_run get_range_run plus_run u32_of_run byte_at_run filter_words_run run

section \<open>x86\<close>

lemma bcj_scan_ends:
  assumes "scan_end \<le> length bytes" "length bytes < 2 ^ 32"
  shows "ends_with (\<lambda>_. False) (\<lambda>found. position \<le> found \<and> found \<le> max position scan_end) (bcj_scan scan_end bytes position (s :: 'z control_scheme))"
proof (induction "scan_end - position" arbitrary: position s rule: less_induct)
  case less
  show ?case
  proof (cases "position < scan_end")
    case False
    then show ?thesis by (subst bcj_scan.simps) (simp add: branch_eq ends_with_run)
  next
    case True
    then have i: "position < length bytes" "position + 1 < 2 ^ 64" using assms by simp_all
    have rest: "ends_with (\<lambda>_. False) (\<lambda>found. position \<le> found \<and> found \<le> max position scan_end)
        (bcj_scan scan_end bytes (position + 1) u)" for u :: "'z control_scheme"
    proof -
      have "ends_with (\<lambda>_. False) (\<lambda>found. position + 1 \<le> found \<and> found \<le> max (position + 1) scan_end)
          (bcj_scan scan_end bytes (position + 1) u)"
        by (rule less.hyps) (use True in auto)
      then show ?thesis by (rule ends_with_mono) (use True in auto)
    qed
    show ?thesis
      unfolding bcj_scan.simps [of scan_end bytes position] branch_eq if_P [OF True]
      by (rule ends_with_skip [OF ends_with_checkpoint])
        (use i rest True in \<open>simp add: pure_steps ends_with_run\<close>)
  qed
qed

lemma bcj_mask_bits:
  assumes "(m::u32) < 8"
  shows "drop_bit 1 m OR 4 < 8" "drop_bit d m < 8" "unat (drop_bit 1 m) < 4"
proof -
  have n: "unat m < 8" using assms by (simp add: word_less_nat_alt)
  then have "unat m \<in> {0, 1, 2, 3, 4, 5, 6, 7}" by auto
  then have "m \<in> {0, 1, 2, 3, 4, 5, 6, 7}" by (auto simp: word_unat_eq_iff)
  then show "drop_bit 1 m OR 4 < 8" by auto
  have "take_bit 32 (unat m) div 2 ^ d \<le> unat m"
    using div_le_dividend take_bit_nat_less_eq_self by (rule order_trans)
  then have "take_bit 32 (unat m) div 2 ^ d < 8" using n by simp
  then show "drop_bit d m < 8"
    by (simp add: word_less_nat_alt unsigned_drop_bit_eq drop_bit_eq_div [where 'a = nat])
  show "unat (drop_bit 1 m) < 4"
    using le_less_trans [OF take_bit_nat_less_eq_self n, of 32]
    by (simp add: unsigned_drop_bit_eq drop_bit_eq_div [where 'a = nat])
qed

lemma bcj_masked_runs:
  assumes "position + 4 < length bytes" "length bytes < 2 ^ 32" "m < 8"
  shows "\<exists>b. bcj_masked distance position m bytes s = (Inr b, s)"
proof (cases "distance > 2 \<or> m = 0")
  case True
  then show ?thesis by (auto simp: bcj_masked_def run)
next
  case False
  have "position + unat (drop_bit 1 m) + 1 < length bytes"
    using bcj_mask_bits(3) [OF assms(3)] assms(1) by simp
  with False assms(2) show ?thesis by (simp add: bcj_masked_def checked_add_def get_at_def run)
qed

lemma bcj_instruction_runs:
  assumes "position + 4 < length bytes" "length bytes < 2 ^ 32" "prev_mask < 8"
  shows "\<exists>r. bcj_instruction ip distance position prev_mask bytes s = (Inr r, s) \<and> fst (snd r) < 8
    \<and> position < fst r \<and> fst r \<le> position + 5 \<and> length (snd (snd r)) = length bytes"
proof -
  let ?m = "if distance > 2 then 0 else drop_bit distance prev_mask"
  have m: "?m < 8" using bcj_mask_bits(2) [OF assms(3)] by simp
  have masked: "\<exists>b. bcj_masked distance position ?m bytes s = (Inr b, s)"
    using assms m by (intro bcj_masked_runs)
  have skip: "\<exists>r. bcj_skip position ?m bytes s = (Inr r, s) \<and> fst (snd r) < 8
      \<and> position < fst r \<and> fst r \<le> position + 5 \<and> length (snd (snd r)) = length bytes"
    using bcj_mask_bits(1) [OF m] assms by (simp add: bcj_skip_def pure_steps)
  obtain b where b: "bcj_masked distance position ?m bytes s = (Inr b, s)" using masked ..
  define m where "m = ?m"
  have "?thesis" if "bcj_masked distance position m bytes s = (Inr b, s)"
    "\<exists>r. bcj_skip position m bytes s = (Inr r, s) \<and> fst (snd r) < 8
      \<and> position < fst r \<and> fst r \<le> position + 5 \<and> length (snd (snd r)) = length bytes"
    using that assms unfolding bcj_instruction_def m_def [symmetric]
    by (cases b; cases "test_x86_msb (bytes ! (position + 4))") (simp_all add: Let_def pure_steps bind_step)
  then show ?thesis using b skip unfolding m_def .
qed

lemma bcj_loop_ends:
  assumes "scan_end + 4 = length bytes" "length bytes < 2 ^ 32" "prev_mask < 8" "previous \<le> scan_end + 4"
  shows "keeps_length bytes (bcj_loop ip scan_end previous prev_mask bytes (s :: 'z control_scheme))"
  using assms
proof (induction "scan_end + 4 - previous" arbitrary: previous prev_mask bytes s rule: less_induct)
  case less
  have scan: "ends_with (\<lambda>_. False) (\<lambda>found. previous \<le> found \<and> found \<le> max previous scan_end)
      (bcj_scan scan_end bytes previous s)"
    using less.prems by (intro bcj_scan_ends) simp_all
  have body: "keeps_length bytes
      (bind (bcj_instruction ip (position - previous) position prev_mask bytes)
        (\<lambda>r. bcj_loop ip scan_end (fst r) (fst (snd r)) (snd (snd r))) t)"
    if p: "previous \<le> position" "position < scan_end" for position and t :: "'z control_scheme"
  proof -
    have "position + 4 < length bytes" using p less.prems by simp
    from bcj_instruction_runs [OF this less.prems(2,3), of ip "position - previous" t]
    obtain r where r: "bcj_instruction ip (position - previous) position prev_mask bytes t = (Inr r, t)"
      "fst (snd r) < 8" "position < fst r" "fst r \<le> position + 5" "length (snd (snd r)) = length bytes"
      by (elim exE conjE)
    have "keeps_length (snd (snd r)) (bcj_loop ip scan_end (fst r) (fst (snd r)) (snd (snd r)) t)"
    proof (rule less.hyps)
      show "scan_end + 4 - fst r < scan_end + 4 - previous" using r(3) p by linarith
      show "fst r \<le> scan_end + 4" using r(4) p by linarith
    qed (use r(2,5) less.prems in simp_all)
    then have "keeps_length bytes (bcj_loop ip scan_end (fst r) (fst (snd r)) (snd (snd r)) t)"
      by (simp add: r)
    with r(1) show ?thesis by (rule ends_with_step)
  qed
  have final: "keeps_length bytes (bind (u32_of position d) (\<lambda>_. ret bytes) t)"
    if "position \<le> max previous scan_end" for position d and t :: "'z control_scheme"
    using that less.prems by (simp add: pure_steps max_def split: if_splits)
  show ?case
    unfolding bcj_loop.simps [of ip scan_end previous prev_mask bytes] branch_eq
  proof (rule ends_with_bind, rule scan)
    fix position and t :: "'z control_scheme"
    assume p: "previous \<le> position \<and> position \<le> max previous scan_end"
    then have sub: "ok_or (checked_sub position previous) e t = (Inr (position - previous), t)" for e
      by (simp add: checked_sub_def run)
    show "keeps_length bytes (bind (ok_or (checked_sub position previous) (format_error ''BCJ scan distance underflows''))
        (\<lambda>distance. if scan_end \<le> position
          then bind (u32_of position ''BCJ position exceeds the 32-bit address domain'') (\<lambda>_. ret bytes)
          else bind (bcj_instruction ip distance position prev_mask bytes)
            (\<lambda>r. bcj_loop ip scan_end (fst r) (fst (snd r)) (snd (snd r)))) t)"
      by (rule ends_with_step, rule sub) (use p body [of position t] final in auto)
  qed
qed


lemma starting_ends: "(\<And>v t. ends_with E P (f v t)) \<Longrightarrow>
    E (Format ''branch filter properties must be empty or four bytes'') \<Longrightarrow> ends_with E P (bind (starting_position properties) f s)"
  by (rule ends_with_bind_mono [OF starting_position_ends]) auto

definition property_error :: "error \<Rightarrow> bool" where
  "property_error e \<longleftrightarrow> e \<in> Format ` {''branch filter properties must be empty or four bytes'',
     ''Delta properties must contain exactly one byte'', ''Swap filter properties must be empty''}"

lemma bind_some: "bind (ok_or (Some x) e) f = f x"
  by (simp add: fun_eq_iff run)

lemma decode_x86_bcj_ends:
  assumes "length bytes < 2 ^ 32"
  shows "ends_with property_error (\<lambda>out. length out = length bytes) (decode_x86_bcj bytes properties s)"
proof -
  have "ends_with property_error (\<lambda>out. length out = length bytes)
      (bcj_loop ip (length bytes - 4) 0 0 bytes t)" if "4 < length bytes" for ip t
    by (rule ends_with_mono [OF bcj_loop_ends]) (use assms that in simp_all)
  then show ?thesis
    by (auto simp: decode_x86_bcj_def checked_add_def checked_sub_def BCJ_LOOK_AHEAD_def bind_some property_error_def ends_with_run
        intro!: starting_ends)
qed

section \<open>Thumb, IA-64, RISC-V and the swaps\<close>

lemma thumb_step_runs:
  assumes "offset + 4 \<le> length bytes" "length bytes < 2 ^ 32"
  shows "\<exists>r. thumb_step start offset bytes s = (Inr r, s) \<and> offset < fst r \<and> length (snd r) = length bytes"
  using assms
  by (simp add: thumb_step_def pure_steps Let_def thumb_branch_def checked_add_def get_at_def get_range_def)

lemma thumb_loop_ends:
  assumes "scan_end + 4 = length bytes" "length bytes < 2 ^ 32"
  shows "keeps_length bytes (thumb_loop start scan_end offset bytes (s :: 'z control_scheme))"
  using assms
proof (induction "scan_end + 1 - offset" arbitrary: offset bytes s rule: less_induct)
  case less
  show ?case
  proof (cases "offset \<le> scan_end")
    case False
    then show ?thesis by (subst thumb_loop.simps) (simp add: branch_eq ends_with_run)
  next
    case True
    have body: "keeps_length bytes (bind (thumb_step start offset bytes) (\<lambda>r. thumb_loop start scan_end (fst r) (snd r)) t)"
      for t :: "'z control_scheme"
    proof -
      have "offset + 4 \<le> length bytes" using True less.prems by simp
      from thumb_step_runs [OF this less.prems(2), of start t]
      obtain r where r: "thumb_step start offset bytes t = (Inr r, t)" "offset < fst r" "length (snd r) = length bytes"
        by (elim exE conjE)
      have "keeps_length (snd r) (thumb_loop start scan_end (fst r) (snd r) t)"
        by (rule less.hyps) (use r(2,3) True less.prems in linarith)+
      then have rest: "keeps_length bytes (thumb_loop start scan_end (fst r) (snd r) t)" by (simp only: r(3))
      show ?thesis by (rule ends_with_step, rule r(1), rule rest)
    qed
    show ?thesis
      unfolding thumb_loop.simps [of start scan_end offset bytes] branch_eq if_P [OF True]
      by (rule ends_with_skip [OF ends_with_checkpoint]) (rule body)
  qed
qed


lemma decode_arm_thumb_ends:
  assumes "length bytes < 2 ^ 32"
  shows "ends_with property_error (\<lambda>out. length out = length bytes) (decode_arm_thumb bytes properties s)"
proof -
  have "ends_with property_error (\<lambda>out. length out = length bytes)
      (thumb_loop start (length bytes - 4) 0 bytes t)" if "4 \<le> length bytes" for start t
    by (rule ends_with_mono [OF thumb_loop_ends]) (use assms that in simp_all)
  then show ?thesis
    by (auto simp: decode_arm_thumb_def checked_sub_def bind_some property_error_def ends_with_run
        intro!: starting_ends)
qed

lemma u48_runs:
  assumes "offset + 6 \<le> length bytes" "length bytes < 2 ^ 32"
  shows "\<exists>v. read_u48_le bytes offset s = (Inr v, s)"
    "\<exists>out. write_u48_le bytes offset w s = (Inr out, s) \<and> length out = length bytes"
  using assms by (simp_all add: read_u48_le_def write_u48_le_def u48_range_def checked_add_def get_range_def run)

lemma ia64_slots_ends:
  assumes "offset + 16 \<le> length bytes" "length bytes < 2 ^ 32" "bit_position + 41 * length slots \<le> 128"
  shows "keeps_length bytes (ia64_slots start offset bm slots bit_position bytes (s :: 'z control_scheme))"
  using assms
proof (induction slots arbitrary: bit_position bytes s)
  case Nil
  then show ?case by (simp add: ends_with_run)
next
  case (Cons slot slots)
  let ?i = "offset + bit_position div 8"
  have i: "?i + 6 \<le> length bytes" using Cons.prems by simp
  let ?m = "if bm AND push_bit slot 1 = 0 then ret bytes
      else bind (ok_or (checked_add offset (bit_position div 8)) (format_error ''IA64 instruction offset overflows''))
        (\<lambda>i. bind (read_u48_le bytes i) (\<lambda>instruction.
          case ia64_branch (start + low_u32_offset offset) (bit_position mod 8) instruction of
            Some v \<Rightarrow> write_u48_le bytes i v | None \<Rightarrow> ret bytes))"
  have m: "\<exists>out. ?m t = (Inr out, t) \<and> length out = length bytes" for t :: "'z control_scheme"
  proof -
    obtain v where v: "read_u48_le bytes ?i t = (Inr v, t)" using u48_runs(1) [OF i Cons.prems(2), of t] by (elim exE)
    show ?thesis
    proof -
      have add: "ok_or (checked_add offset (bit_position div 8)) e t = (Inr ?i, t)" for e
        using i Cons.prems(2) by (simp add: plus_run)
      have put: "\<exists>out. (case x of Some w \<Rightarrow> write_u48_le bytes ?i w | None \<Rightarrow> ret bytes) t = (Inr out, t)
          \<and> length out = length bytes" for x
        using u48_runs(2) [OF i Cons.prems(2)] by (cases x) (simp_all add: run)
      have "bind (ok_or (checked_add offset (bit_position div 8)) e)
          (\<lambda>i. bind (read_u48_le bytes i) (\<lambda>w. case g w of Some w \<Rightarrow> write_u48_le bytes i w | None \<Rightarrow> ret bytes)) t
        = (case g v of Some w \<Rightarrow> write_u48_le bytes ?i w | None \<Rightarrow> ret bytes) t" for e g
        by (subst bind_step, rule add, subst bind_step, rule v) (rule refl)
      then show ?thesis using put by (simp add: run)
    qed
  qed
  have rest: "keeps_length bytes (bind ?m (ia64_slots start offset bm slots (bit_position + 41)) t)"
    for t :: "'z control_scheme"
  proof -
    obtain out where out: "?m t = (Inr out, t)" "length out = length bytes" using m [of t] by (elim exE conjE)
    have "keeps_length out (ia64_slots start offset bm slots (bit_position + 41) out t)"
      using Cons.prems out(2) by (intro Cons.IH) simp_all
    then have rest: "keeps_length bytes (ia64_slots start offset bm slots (bit_position + 41) out t)"
      by (simp only: out(2))
    show ?thesis by (rule ends_with_step, rule out(1), rule rest)
  qed
  show ?case
    unfolding ia64_slots.simps by (rule ends_with_skip [OF ends_with_checkpoint]) (rule rest)
qed


lemma ia64_bundle_ends:
  assumes "offset + 16 \<le> length bytes" "length bytes < 2 ^ 32"
  shows "ends_with (\<lambda>_. False) (\<lambda>r. fst r = offset + 16 \<and> length (snd r) = length bytes)
    (ia64_bundle start offset bytes (s :: 'z control_scheme))"
proof -
  have template: "unat ((b::u8) AND 0x1f) < length IA64_BRANCH_TABLE" for b
  proof -
    have "b AND 0x1f \<le> 0x1f" by (rule word_and_le1)
    then show ?thesis by (simp add: word_le_nat_alt IA64_BRANCH_TABLE_def)
  qed
  have slots: "ends_with (\<lambda>_. False) (\<lambda>r. fst r = offset + 16 \<and> length (snd r) = length bytes)
      (bind (ia64_slots start offset bm [0, 1, 2] 5 bytes)
        (\<lambda>bytes. bind (ok_or (checked_add offset 16) e) (\<lambda>offset. ret (offset, bytes))) t)"
    for bm e and t :: "'z control_scheme"
    by (rule ends_with_bind, rule ia64_slots_ends)
      (use assms in \<open>simp_all add: checked_add_def bind_some ends_with_run\<close>)
  show ?thesis
    unfolding ia64_bundle_def
    by (rule ends_with_skip [OF ends_with_checkpoint], rule ends_with_index, use assms in simp,
        rule ends_with_index, rule template, rule slots)
qed

lemma ia64_loop_ends:
  assumes "16 dvd process_bytes" "16 dvd offset" "process_bytes \<le> length bytes" "length bytes < 2 ^ 32"
  shows "keeps_length bytes (ia64_loop start process_bytes offset bytes (s :: 'z control_scheme))"
  using assms
proof (induction "process_bytes - offset" arbitrary: offset bytes s rule: less_induct)
  case less
  show ?case
  proof (cases "offset < process_bytes")
    case False
    then show ?thesis by (subst ia64_loop.simps) (simp add: branch_eq ends_with_run)
  next
    case True
    then have "offset + 16 \<le> process_bytes" using less.prems(1,2) by (auto elim!: dvdE)
    then have i: "offset + 16 \<le> length bytes" using less.prems by simp
    have rest: "keeps_length bytes (ia64_loop start process_bytes (fst r) (snd r) t)"
      if "fst r = offset + 16 \<and> length (snd r) = length bytes" for r and t :: "'z control_scheme"
    proof -
      have "keeps_length (snd r) (ia64_loop start process_bytes (fst r) (snd r) t)"
        by (rule less.hyps) (use that less.prems True in auto)
      then show ?thesis by (simp only: that)
    qed
    show ?thesis
      unfolding ia64_loop.simps [of start process_bytes offset bytes] branch_eq if_P [OF True]
      by (rule ends_with_bind, rule ia64_bundle_ends [OF i less.prems(4)], rule rest)
  qed
qed

lemma decode_ia64_ends:
  assumes "length bytes < 2 ^ 32"
  shows "ends_with property_error (\<lambda>out. length out = length bytes) (decode_ia64 bytes properties s)"
proof -
  have n: "length bytes div 16 * 16 \<le> length bytes" by simp
  have "ends_with property_error (\<lambda>out. length out = length bytes)
      (ia64_loop start (length bytes div 16 * 16) 0 bytes t)" for start t
    by (rule ends_with_mono [OF ia64_loop_ends]) (use assms in simp_all)
  moreover have "length bytes < 2 ^ 64" using assms by simp
  then have "length bytes div 16 * 16 < 2 ^ 64" using n by (rule le_less_trans [rotated])
  ultimately show ?thesis
    by (auto simp: decode_ia64_def Let_def bind_some property_error_def intro!: starting_ends)
qed

lemma riscv_jal_step_runs:
  assumes "offset + 8 \<le> length bytes" "length bytes < 2 ^ 32"
  shows "\<exists>r. riscv_jal_step start offset first bytes s = (Inr r, s) \<and> offset < fst r \<and> length (snd r) = length bytes"
  using assms
  by (simp add: riscv_jal_step_def pure_steps checked_add_def get_range_def)

lemma riscv_auipc_runs:
  assumes "offset + 8 \<le> length bytes" "length bytes < 2 ^ 32"
  shows "\<exists>r. riscv_auipc start offset bytes s = (Inr r, s) \<and> (\<forall>n. r = Inl n \<longrightarrow> 0 < n \<and> n \<le> 6)"
  using assms
  by (simp add: riscv_auipc_def pure_steps checked_add_def Let_def)

lemma riscv_auipc_step_runs:
  assumes "offset + 8 \<le> length bytes" "length bytes < 2 ^ 32"
  shows "\<exists>r. riscv_auipc_step start offset bytes s = (Inr r, s) \<and> offset < fst r \<and> length (snd r) = length bytes"
proof -
  from riscv_auipc_runs [OF assms, of start s] obtain r
    where r: "riscv_auipc start offset bytes s = (Inr r, s)" "\<forall>n. r = Inl n \<longrightarrow> 0 < n \<and> n \<le> 6"
    by (elim exE conjE)
  show ?thesis
    unfolding riscv_auipc_step_def bind_step [where m = "riscv_auipc start offset bytes", OF r(1)]
    using r(2) assms by (cases r) (auto simp: pure_steps checked_add_def split: prod.split)
qed


lemma moves:
  "\<exists>r. x = (Inr r, t) \<and> offset < fst r \<and> length (snd r) = n \<Longrightarrow>
     ends_with (\<lambda>_. False) (\<lambda>r. offset < fst r \<and> length (snd r) = n) x"
  by auto

lemma riscv_step_ends:
  assumes "offset + 8 \<le> length bytes" "length bytes < 2 ^ 32"
  shows "ends_with (\<lambda>_. False) (\<lambda>r. offset < fst r \<and> length (snd r) = length bytes)
    (riscv_step start offset bytes (s :: 'z control_scheme))"
proof -
  have i: "offset < length bytes" "offset + 2 < 2 ^ 64" using assms by simp_all
  show ?thesis
    unfolding riscv_step_def
    apply (rule ends_with_skip [OF ends_with_checkpoint])
    apply (rule ends_with_index [OF i(1)])
    using i
    by (auto simp: checked_add_def bind_some ends_with_run
        intro!: moves riscv_jal_step_runs riscv_auipc_step_runs assms)
qed

lemma riscv_loop_ends:
  assumes "scan_end + 8 = length bytes" "length bytes < 2 ^ 32"
  shows "keeps_length bytes (riscv_loop start scan_end offset bytes (s :: 'z control_scheme))"
  using assms
proof (induction "scan_end + 1 - offset" arbitrary: offset bytes s rule: less_induct)
  case less
  show ?case
  proof (cases "offset \<le> scan_end")
    case False
    then show ?thesis by (subst riscv_loop.simps) (simp add: branch_eq ends_with_run)
  next
    case True
    then have i: "offset + 8 \<le> length bytes" using less.prems by simp
    have rest: "keeps_length bytes (riscv_loop start scan_end (fst r) (snd r) t)"
      if r: "offset < fst r \<and> length (snd r) = length bytes" for r and t :: "'z control_scheme"
    proof -
      have "keeps_length (snd r) (riscv_loop start scan_end (fst r) (snd r) t)"
        by (rule less.hyps) (use r less.prems True in linarith)+
      then show ?thesis by (simp only: r)
    qed
    show ?thesis
      unfolding riscv_loop.simps [of start scan_end offset bytes] branch_eq if_P [OF True]
      by (rule ends_with_bind, rule riscv_step_ends [OF i less.prems(2)], rule rest)
  qed
qed

lemma decode_riscv_ends:
  assumes "length bytes < 2 ^ 32"
  shows "ends_with property_error (\<lambda>out. length out = length bytes) (decode_riscv bytes properties s)"
proof -
  have "ends_with property_error (\<lambda>out. length out = length bytes)
      (riscv_loop start (length bytes - 8) 0 bytes t)" if "8 \<le> length bytes" for start t
    by (rule ends_with_mono [OF riscv_loop_ends]) (use assms that in simp_all)
  then show ?thesis
    by (auto simp: decode_riscv_def Let_def checked_sub_def bind_some property_error_def ends_with_run
        intro!: starting_ends)
qed

section \<open>The word filters\<close>

lemma length_replaced: "length w = 4 \<Longrightarrow> length (replaced order w v) = 4"
  by (simp add: replaced_def split: option.split)

lemma word_loop_length:
  assumes "\<And>offset ip bytes s. offset + 4 \<le> length bytes \<Longrightarrow> length bytes < 2 ^ 64 \<Longrightarrow>
      step offset ip bytes s = (Inr (f ip (take 4 (drop offset bytes))), s)"
    and "length bytes < 2 ^ 32"
  shows "ends_with property_error (\<lambda>out. length out = length bytes) (word_loop step order overflow 0 ip bytes s)"
proof (rule ends_with_mono)
  show "ends_with (\<lambda>_. False) (\<lambda>out. out = take 0 bytes @ word_map (\<lambda>ip w. replaced order w (f ip w)) ip (drop 0 bytes))
      (word_loop step order overflow 0 ip bytes s)"
    using assms by (intro word_loop_map) simp_all
qed (simp_all add: length_word_map length_replaced)

definition arm64_word :: "u32 \<Rightarrow> u8 list \<Rightarrow> u32 option" where
  "arm64_word ip w = (case fst (arm64_step 0 ip w ()) of Inl _ \<Rightarrow> None | Inr v \<Rightarrow> v)"

lemma arm64_step_run:
  assumes "offset + 4 \<le> length bytes" "length bytes < 2 ^ 64"
  shows "arm64_step offset ip bytes s = (Inr (arm64_word ip (take 4 (drop offset bytes))), s)"
  using assms by (simp add: arm64_word_def arm64_step_def filter_words_run run Let_def)

lemma decode_words_end:
  assumes "length bytes < 2 ^ 32"
  shows "ends_with property_error (\<lambda>out. length out = length bytes) (decode_ppc bytes properties s)"
    "ends_with property_error (\<lambda>out. length out = length bytes) (decode_arm bytes properties s)"
    "ends_with property_error (\<lambda>out. length out = length bytes) (decode_arm64 bytes properties s)"
    "ends_with property_error (\<lambda>out. length out = length bytes) (decode_sparc bytes properties s)"
  unfolding decode_ppc_def decode_arm_def decode_arm64_def decode_sparc_def
  by (rule starting_ends, rule word_loop_length, rule ppc_step_run arm_step_run arm64_step_run sparc_step_run,
      assumption, assumption, rule assms, simp add: property_error_def)+


section \<open>Swaps and Delta\<close>

lemma swap_chunks_ends:
  "ends_with E (\<lambda>out. out = concat (map rev pieces)) (swap_chunks width pieces (s :: 'z control_scheme))"
proof (induction pieces arbitrary: s)
  case Nil
  then show ?case by (simp add: ends_with_run)
next
  case (Cons chunk pieces)
  have rest: "ends_with E (\<lambda>out. out = concat (map rev (chunk # pieces)))
      (bind (swap_chunks width pieces) (\<lambda>rest. ret (rev chunk @ rest)) t)" for t :: "'z control_scheme"
    by (rule ends_with_bind, rule Cons.IH) (simp add: ends_with_run)
  show ?case
    unfolding swap_chunks.simps by (rule ends_with_skip [OF ends_with_checkpoint], rule rest)
qed

lemma length_exact_chunks:
  assumes "0 < width"
  shows "length (concat (map rev (exact_chunks width bytes))) \<le> length bytes"
proof -
  have "length (concat (map rev (filter p xs))) \<le> length (concat xs)" for p and xs :: "u8 list list"
    by (induction xs) auto
  from this [of _ "chunks width bytes"] show ?thesis
    using assms by (simp add: exact_chunks_def)
qed

lemma decode_swap_ends:
  assumes "width = 2 \<or> width = 4"
  shows "ends_with property_error (\<lambda>out. length out = length bytes) (decode_swap bytes properties width s)"
proof -
  have swapped: "ends_with property_error (\<lambda>out. length out = length bytes)
      (bind (swap_chunks width (exact_chunks width bytes)) (\<lambda>w. ret (w @ drop (length w) bytes)) t)" for t :: "'a control_scheme"
    by (rule ends_with_bind, rule swap_chunks_ends)
      (use length_exact_chunks [of width bytes] assms in \<open>auto simp: ends_with_run\<close>)
  show ?thesis
    unfolding decode_swap_def
    by (rule ends_with_check, simp add: property_error_def format_error_def, rule ends_with_check,
        use assms in simp, rule swapped)
qed

lemma length_undelta [simp]: "length (undelta d outs bytes) = length bytes"
  by (induction bytes arbitrary: outs) (simp_all add: Let_def)

lemma decode_delta_ends:
  "ends_with property_error (\<lambda>out. length out = length bytes) (decode_delta bytes properties s)"
proof (cases "length properties = 1")
  case False
  then show ?thesis
    by (cases properties) (auto simp: decode_delta_def get_at_def run property_error_def format_error_def)
next
  case True
  then obtain p where p: "properties = [p]" by (auto simp: length_Suc_conv)
  have "ends_with property_error (\<lambda>out. length out = length bytes)
      (delta_loop bytes (unat p + 1) (replicate 256 0) 0 t)" for t :: "'a control_scheme"
  proof (rule ends_with_mono)
    show "ends_with (\<lambda>_. False) (\<lambda>out. out = undelta (unat p + 1) [] bytes)
        (delta_loop bytes (unat p + 1) (replicate 256 0) 0 t)"
      using unat_less_256 [of p] by (intro delta_loop_exact ring_new) simp_all
  qed simp_all
  then show ?thesis
    using unat_less_256 [of p] by (simp add: p decode_delta_def get_at_def checked_add_def run)
qed

section \<open>All filters\<close>

definition filter_methods :: "u8 list set" where
  "filter_methods = {METHOD_DELTA, METHOD_BCJ, METHOD_PPC, METHOD_ARM, METHOD_ARM64, METHOD_SPARC,
     METHOD_IA64, METHOD_ARM_THUMB, METHOD_RISCV, METHOD_SWAP2, METHOD_SWAP4}"

lemma decode_phase5_filter_ends:
  assumes "length bytes < 2 ^ 32"
  shows "ends_with (\<lambda>e. property_error e \<or> e = UnsupportedMethod method_id
      \<and> method_id \<notin> {METHOD_IA64, METHOD_ARM_THUMB, METHOD_RISCV, METHOD_SWAP2, METHOD_SWAP4})
    (\<lambda>out. length out = length bytes) (decode_phase5_filter method_id properties bytes s)"
  using decode_ia64_ends [OF assms] decode_arm_thumb_ends [OF assms] decode_riscv_ends [OF assms]
    decode_swap_ends [of 2] decode_swap_ends [of 4]
  unfolding decode_phase5_filter_def by (auto simp: ends_with_run elim!: ends_with_mono)

text \<open>C18: Every size-preserving filter terminates and keeps the length of its buffer. The only errors
  of \<open>decode_filter\<close> are malformed filter properties and an identifier that names no filter;
  none of the checks on indices, words, positions or shifts can fail for a buffer below four
  gigabytes, whatever its bytes.\<close>

theorem decode_filter_ends:
  assumes "length bytes < 2 ^ 32"
  shows "ends_with (\<lambda>e. property_error e \<or> e = UnsupportedMethod method_id \<and> method_id \<notin> filter_methods)
    (\<lambda>out. length out = length bytes) (decode_filter method_id properties bytes s)"
  using decode_delta_ends [of bytes properties s] decode_x86_bcj_ends [OF assms, of properties s]
    decode_words_end [OF assms, of properties s] decode_phase5_filter_ends [OF assms, of method_id properties s]
  unfolding decode_filter_def by (auto simp: filter_methods_def elim!: ends_with_mono)

theorem decode_filter_ends_witness:
  "ends_with (\<lambda>e. property_error e \<or> e = UnsupportedMethod METHOD_BCJ \<and> METHOD_BCJ \<notin> filter_methods)
    (\<lambda>out. length out = length [0xe8, 5, 0, 0, 0, 0x90 :: u8])
    (decode_filter METHOD_BCJ [] [0xe8, 5, 0, 0, 0, 0x90] unlimited)"
  by (rule decode_filter_ends) simp

end
