(* ===== verification/Bcj2Facts.thy ===== *)
theory Bcj2Facts
  imports Bcj2 FilterEnds
begin

unbundle bit_operations_syntax

text \<open>
  BCJ2 decodes safely: the probabilities of its range decoder stay between 31 and 2017 of 2048, so
  the range never gets too small and no checked operation on 32-bit words can fail; the output
  never exceeds its limit, and it has the declared size.
\<close>

section \<open>The range decoder\<close>

definition fair :: "u32 \<Rightarrow> bool" where
  "fair p \<longleftrightarrow> 31 \<le> unat p \<and> unat p \<le> 2017"

definition range_ok :: "bcj2_range \<Rightarrow> bool" where
  "range_ok r \<longleftrightarrow> length (br_probabilities r) = 258 \<and> (\<forall>p\<in>set (br_probabilities r). fair p)
     \<and> 2 ^ 24 \<le> unat (br_range r)"

lemma unat_u32_less: "unat (w::u32) < 4294967296"
proof -
  have "unat w < 2 ^ LENGTH(32)" by (rule unsigned_less)
  then show ?thesis by simp
qed

lemma unat_drop: "unat (drop_bit n (w::u32)) = unat w div 2 ^ n"
proof -
  have "take_bit 32 (unat w) = unat w" using unat_u32_less [of w] by (simp add: take_bit_nat_eq_self_iff)
  then show ?thesis by (simp add: unsigned_drop_bit_eq drop_bit_eq_div [where 'a = nat])
qed

lemma bcj2_choose_runs:
  assumes p: "fair p" and r: "2 ^ 24 \<le> unat rng"
  shows "\<exists>b rng' c' p'. bcj2_choose p rng code s = (Inr (b, rng', c', p'), s) \<and> fair p' \<and> 31 * 2 ^ 13 \<le> unat rng'"
proof -
  let ?q = "unat rng div 2048" and ?p = "unat p"
  have p: "31 \<le> ?p" "?p \<le> 2017" using p by (simp_all add: fair_def)
  have q: "2 ^ 13 \<le> ?q" "?q < 2 ^ 21" using r unat_u32_less [of rng] by simp_all
  have low: "31 * 2 ^ 13 \<le> ?q * ?p" using mult_le_mono [OF q(1) p(1)] by simp
  have "?q * ?p \<le> ?q * 2017" by (rule mult_le_mono2 [OF p(2)])
  moreover have "?q * 2048 \<le> unat rng" by simp
  ultimately have room: "?q * ?p + 31 * ?q \<le> unat rng" by linarith
  then have high: "31 * 2 ^ 13 \<le> unat rng - ?q * ?p" using q(1) by simp
  have small: "?q * ?p < 4294967296" using room unat_u32_less [of rng] by simp
  let ?b = "drop_bit 11 rng * p"
  have bound: "unat ?b = ?q * ?p" using small by (simp add: unat_word_ariths unat_drop)
  have mul: "checked_mul32 (drop_bit 11 rng) p = Some ?b" using small by (simp add: checked_mul32_def unat_drop)
  have le: "?b \<le> rng" using room by (simp add: word_le_nat_alt bound)
  show ?thesis
  proof (cases "code < ?b")
    case True
    let ?d = "drop_bit 5 (saturating_sub32 2048 p)"
    have le2048: "p \<le> 2048" using p by (simp add: word_le_nat_alt)
    have d: "unat ?d = (2048 - ?p) div 32"
      using le2048 by (simp add: saturating_sub32_def unat_drop unat_sub)
    have add: "checked_add32 p ?d = Some (p + ?d)" using p by (simp add: checked_add32_def d)
    have "unat (p + ?d) = ?p + (2048 - ?p) div 32" using p by (simp add: unat_word_ariths d)
    then have "fair (p + ?d)" using p by (simp add: fair_def)
    then show ?thesis
      using True low by (simp add: bcj2_choose_def mul add run bound) (rule exI [of _ False], simp)
  next
    case False
    have "unat (p - drop_bit 5 p) = ?p - ?p div 32"
      by (subst unat_sub) (simp_all add: word_le_nat_alt unat_drop)
    then have "fair (p - drop_bit 5 p)" unfolding fair_def using p by arith
    moreover have "drop_bit 5 p \<le> p" by (simp add: word_le_nat_alt unat_drop)
    moreover have "unat (rng - ?b) = unat rng - ?q * ?p" using le by (simp add: unat_sub bound)
    ultimately show ?thesis
      using False le high by (simp add: bcj2_choose_def mul checked_sub32_def run) (auto simp: not_less)
  qed
qed

section \<open>Cursors\<close>

text \<open>The errors BCJ2 may end with: missing or left-over input, or output beyond its limit or declaration.\<close>

definition bcj2_error :: "error \<Rightarrow> bool" where
  "bcj2_error e \<longleftrightarrow> e \<in> Format ` {''truncated BCJ2 input stream'', ''BCJ2 properties must be empty'',
       ''BCJ2 main stream is missing'', ''BCJ2 call stream is missing'', ''BCJ2 jump stream is missing'',
       ''BCJ2 range stream is missing'', ''BCJ2 requires exactly four input streams'',
       ''BCJ2 side streams were not consumed exactly'', ''BCJ2 output size does not match its declaration''}
     \<or> (\<exists>v m. e = LimitExceeded TotalOutputBytes v m)"

definition cursor_ok :: "bcj2_cursor \<Rightarrow> bool" where
  "cursor_ok c \<longleftrightarrow> cu_position c \<le> length (cu_bytes c) \<and> length (cu_bytes c) < 2 ^ 64"

text \<open>The cursor \<open>d\<close> is \<open>c\<close> after \<open>n\<close> bytes.\<close>

definition advanced :: "nat \<Rightarrow> bcj2_cursor \<Rightarrow> bcj2_cursor \<Rightarrow> bool" where
  "advanced n c d \<longleftrightarrow> cu_bytes d = cu_bytes c \<and> cu_position d = cu_position c + n \<and> cursor_ok d"

lemma advanced_trans: "advanced m c d \<Longrightarrow> advanced n d e \<Longrightarrow> advanced (m + n) c e"
  by (simp add: advanced_def)

lemma cursor_read_byte_ends:
  assumes "cursor_ok c"
  shows "ends_with bcj2_error (\<lambda>r. advanced 1 c (snd r)) (cursor_read_byte c s)"
proof (cases "cu_position c < length (cu_bytes c)")
  case True
  show ?thesis
    unfolding cursor_read_byte_def
    by (rule ends_with_skip [OF ends_with_checkpoint], rule ends_with_index [OF True], rule ends_with_plus)
      (use True assms in \<open>simp_all add: cursor_ok_def advanced_def ends_with_run\<close>)
next
  case False
  show ?thesis
    unfolding cursor_read_byte_def
    by (rule ends_with_skip [OF ends_with_checkpoint])
      (use False in \<open>simp add: get_at_def run bcj2_error_def format_error_def\<close>)
qed

lemma bind_cursor:
  assumes "cursor_ok c" "\<And>x d t. advanced 1 c d \<Longrightarrow> cursor_ok d \<Longrightarrow> ends_with bcj2_error P (f (x, d) t)"
  shows "ends_with bcj2_error P (bind (cursor_read_byte c) f s)"
  by (rule ends_with_bind, rule cursor_read_byte_ends [OF assms(1)])
    (use assms(2) in \<open>auto simp: advanced_def\<close>)

lemma cursor_read_u32_be_ends:
  assumes "cursor_ok c"
  shows "ends_with bcj2_error (\<lambda>r. advanced 4 c (snd r)) (cursor_read_u32_be c s)"
  unfolding cursor_read_u32_be_def
  by (rule bind_cursor [OF assms], simp, rule bind_cursor, assumption, simp, rule bind_cursor, assumption, simp,
      rule bind_cursor, assumption, simp add: ends_with_run advanced_def)

lemma code_bytes_ends:
  assumes "cursor_ok c"
  shows "ends_with bcj2_error (\<lambda>r. advanced n c (snd r)) (code_bytes n code c s)"
  using assms
proof (induction n arbitrary: code c s)
  case 0
  then show ?case by (simp add: ends_with_run advanced_def)
next
  case (Suc n)
  show ?case
    unfolding code_bytes.simps
  proof (rule bind_cursor [OF Suc.prems])
    fix x d and t :: "'a control_scheme"
    assume a: "advanced 1 c d" "cursor_ok d"
    show "ends_with bcj2_error (\<lambda>r. advanced (Suc n) c (snd r))
        ((case (x, d) of (byte, input) \<Rightarrow> code_bytes n (push_bit 8 code OR ucast byte) input) t)"
      unfolding prod.case
      by (rule ends_with_mono, rule Suc.IH [OF a(2)]) (use advanced_trans [OF a(1)] in auto)
  qed
qed

lemma range_new_ends:
  assumes "length bytes < 2 ^ 64"
  shows "ends_with bcj2_error (\<lambda>r. range_ok r \<and> cursor_ok (br_input r)) (range_new bytes s)"
  unfolding range_new_def
proof (rule ends_with_bind, rule code_bytes_ends)
  show "cursor_ok (cursor_new bytes)" using assms by (simp add: cursor_ok_def cursor_new_def)
next
  fix x :: "u32 \<times> bcj2_cursor" and t :: "'a control_scheme"
  assume "advanced 5 (cursor_new bytes) (snd x)"
  then show "ends_with bcj2_error (\<lambda>r. range_ok r \<and> cursor_ok (br_input r))
      ((case x of (code, input) \<Rightarrow> ret \<lparr>br_input = input, br_range = - 1, br_code = code,
         br_probabilities = replicate 258 (push_bit 10 1)\<rparr>) t)"
    by (cases x) (simp add: ends_with_run range_ok_def fair_def advanced_def unsigned_minus_1_eq_mask mask_eq_exp_minus_1)
qed

lemma range_decode_ends:
  assumes "range_ok r" "cursor_ok (br_input r)" "index < 258"
  shows "ends_with bcj2_error (\<lambda>x. range_ok (snd x) \<and> cursor_ok (br_input (snd x))) (range_decode index r s)"
proof -
  let ?p = "br_probabilities r ! index"
  have i: "index < length (br_probabilities r)" and p: "fair ?p" and rng: "2 ^ 24 \<le> unat (br_range r)"
    using assms by (auto simp: range_ok_def)
  obtain b rng' c' p' where c: "bcj2_choose ?p (br_range r) (br_code r) s = (Inr (b, rng', c', p'), s)"
    and p': "fair p'" and rng': "31 * 2 ^ 13 \<le> unat rng'"
    using bcj2_choose_runs [OF p rng, of "br_code r" s] by (elim exE conjE)
  have probs: "length ((br_probabilities r)[index := p']) = 258"
    "\<forall>q\<in>set ((br_probabilities r)[index := p']). fair q"
    using assms p' by (auto simp: range_ok_def dest!: set_update_subset_insert [THEN subsetD])
  have shifted: "2 ^ 24 \<le> unat (push_bit 8 rng')" if "rng' < push_bit 24 1"
  proof -
    have "unat rng' < 2 ^ 24" using that by (simp add: word_less_nat_alt)
    then show ?thesis using rng' by (simp add: push_bit_eq_mult unat_word_ariths)
  qed
  have big: "2 ^ 24 \<le> unat rng'" if "\<not> rng' < push_bit 24 1"
    using that by (simp add: word_less_nat_alt)
  show ?thesis
    unfolding range_decode_def
    apply (rule ends_with_index [OF i])
    apply (rule ends_with_step, rule c)
    unfolding prod.case Let_def
    apply (cases "rng' < push_bit 24 1")
    subgoal
      apply (simp only: if_True)
      apply (rule bind_cursor)
      using assms(2) apply simp
      using shifted probs by (simp add: ends_with_run range_ok_def)
    subgoal
      using big probs assms(2) by (simp add: ends_with_run range_ok_def)
    done
qed

section \<open>The merge\<close>

definition merge_ok :: "nat \<Rightarrow> bcj2_state \<Rightarrow> bool" where
  "merge_ok maximum st \<longleftrightarrow> cursor_ok (b2_main st) \<and> cursor_ok (b2_call st) \<and> cursor_ok (b2_jump st)
     \<and> range_ok (b2_range st) \<and> cursor_ok (br_input (b2_range st)) \<and> length (b2_output st) \<le> maximum
     \<and> length (b2_output st)
       = cu_position (b2_main st) + cu_position (b2_call st) + cu_position (b2_jump st)"

definition same_streams :: "bcj2_state \<Rightarrow> bcj2_state \<Rightarrow> bool" where
  "same_streams st st' \<longleftrightarrow> cu_bytes (b2_main st') = cu_bytes (b2_main st)
     \<and> cu_bytes (b2_call st') = cu_bytes (b2_call st) \<and> cu_bytes (b2_jump st') = cu_bytes (b2_jump st)"

lemma reserve_output_ends:
  assumes "length out + n < 2 ^ 64"
    and "\<And>t. length out + n \<le> maximum \<Longrightarrow> ends_with bcj2_error P (f () t)"
  shows "ends_with bcj2_error P (bind (reserve_output out n maximum) f s)"
proof (rule ends_with_bind)
  have reserve: "ends_with E (\<lambda>_. True) (reserve_with m k t)" for E m k and t :: "'a control_scheme"
    by (auto simp: ends_with_def split: prod.split sum.split dest: reserve_with_Inl)
  show "ends_with bcj2_error (\<lambda>_. length out + n \<le> maximum) (reserve_output out n maximum s)"
    using assms(1)
    by (auto simp: reserve_output_def checked_add_def bind_some usize_to_u64_def check_limit_def run
        bcj2_error_def intro: ends_with_mono [OF reserve])
qed (use assms(2) in auto)

lemma bcj2_destination_ends:
  assumes "merge_ok maximum st0" "st0 = st\<lparr>b2_previous := 0\<rparr>" "maximum + 5 < 2 ^ 64"
  shows "ends_with bcj2_error (\<lambda>st'. merge_ok maximum st' \<and> same_streams st st' \<and> b2_main st' = b2_main st)
    (bcj2_destination maximum byte st s)"
proof -
  let ?P = "\<lambda>st'. merge_ok maximum st' \<and> same_streams st st' \<and> b2_main st' = b2_main st"
  note ok = assms(1)[unfolded assms(2) merge_ok_def, simplified]
  have word: "ends_with bcj2_error (\<lambda>r. advanced 4 c (snd r)) (cursor_read_u32_be c t)" if "cursor_ok c"
    for c and t :: "'a control_scheme" using that by (rule cursor_read_u32_be_ends)
  have rest: "ends_with bcj2_error ?P
      (bind (reserve_output (b2_output st) 4 maximum) (\<lambda>_.
        ret (st1\<lparr>b2_output := b2_output st @ to_le_bytes d, b2_previous := p, b2_written := w\<rparr>)) t)"
    if "cursor_ok (b2_call st1)" "cursor_ok (b2_jump st1)" "b2_main st1 = b2_main st" "b2_range st1 = b2_range st"
      "b2_output st1 = b2_output st" "same_streams st st1"
      "cu_position (b2_call st1) + cu_position (b2_jump st1) = cu_position (b2_call st) + cu_position (b2_jump st) + 4"
    for st1 d p w and t :: "'a control_scheme"
    by (rule reserve_output_ends)
      (use that ok assms(3) in \<open>simp_all add: ends_with_run merge_ok_def same_streams_def\<close>)
  show ?thesis
  proof (cases "byte = 0xe8")
    case True
    have "ends_with bcj2_error (\<lambda>(e, st1). \<exists>c. advanced 4 (b2_call st) c \<and> st1 = st\<lparr>b2_call := c\<rparr>)
        (bind (cursor_read_u32_be (b2_call st)) (\<lambda>(encoded, c). ret (encoded, st\<lparr>b2_call := c\<rparr>)) t)"
      for t :: "'a control_scheme"
      by (rule ends_with_bind, rule word) (use ok in \<open>auto simp: ends_with_run split: prod.split\<close>)
    then show ?thesis
      unfolding bcj2_destination_def if_P [OF True]
      by (rule ends_with_bind)
        (clarsimp simp: Let_def split: prod.splits, rule rest,
         use ok in \<open>simp_all add: advanced_def same_streams_def\<close>)
  next
    case False
    have "ends_with bcj2_error (\<lambda>(e, st1). \<exists>c. advanced 4 (b2_jump st) c \<and> st1 = st\<lparr>b2_jump := c\<rparr>)
        (bind (cursor_read_u32_be (b2_jump st)) (\<lambda>(encoded, c). ret (encoded, st\<lparr>b2_jump := c\<rparr>)) t)"
      for t :: "'a control_scheme"
      by (rule ends_with_bind, rule word) (use ok in \<open>auto simp: ends_with_run split: prod.split\<close>)
    then show ?thesis
      unfolding bcj2_destination_def if_not_P [OF False]
      by (rule ends_with_bind)
        (clarsimp simp: Let_def split: prod.splits, rule rest,
         use ok in \<open>simp_all add: advanced_def same_streams_def\<close>)
  qed
qed

lemma probability_index: "bcj2_probability_index previous current < 258"
  using unat_less_256 [of previous] by (simp add: bcj2_probability_index_def)

lemma bcj2_step_ends:
  assumes ok: "merge_ok maximum st" and maximum: "maximum + 5 < 2 ^ 64"
  shows "ends_with bcj2_error (\<lambda>st'. merge_ok maximum st' \<and> same_streams st st'
      \<and> cu_position (b2_main st') = cu_position (b2_main st) + 1) (bcj2_step maximum st s)"
proof -
  note inv = ok[unfolded merge_ok_def]
  show ?thesis
    unfolding bcj2_step_def
  proof (rule bind_cursor)
    show "cursor_ok (b2_main st)" using inv by simp
    fix byte main and t :: "'a control_scheme"
    assume main: "advanced 1 (b2_main st) main" "cursor_ok main"
    let ?st1 = "st\<lparr>b2_main := main\<rparr>"
    let ?st = "st\<lparr>b2_main := main, b2_output := b2_output st @ [byte], b2_written := b2_written st + 1\<rparr>"
    let ?P = "\<lambda>st'. merge_ok maximum st' \<and> same_streams st st' \<and> cu_position (b2_main st') = cu_position (b2_main st) + 1"
    have after: "merge_ok maximum (?st\<lparr>b2_range := r, b2_previous := p\<rparr>) \<and> same_streams st ?st"
      if "length (b2_output st) + 1 \<le> maximum" "range_ok r" "cursor_ok (br_input r)" for r p
      using that main inv by (simp add: merge_ok_def same_streams_def advanced_def)
    have finished: "?P (?st\<lparr>b2_range := r, b2_previous := p\<rparr>)" "?P (?st\<lparr>b2_previous := p\<rparr>)"
      if "length (b2_output st) + 1 \<le> maximum" "range_ok r" "cursor_ok (br_input r)" for r p
      using that main inv by (simp_all add: merge_ok_def same_streams_def advanced_def)
    have branch: "ends_with bcj2_error ?P (bcj2_destination maximum byte (?st\<lparr>b2_range := r\<rparr>) u)"
      if "length (b2_output st) + 1 \<le> maximum" "range_ok r" "cursor_ok (br_input r)" for r and u :: "'a control_scheme"
    proof (rule ends_with_mono)
      show "ends_with bcj2_error (\<lambda>st'. merge_ok maximum st' \<and> same_streams (?st\<lparr>b2_range := r\<rparr>) st'
          \<and> b2_main st' = b2_main (?st\<lparr>b2_range := r\<rparr>)) (bcj2_destination maximum byte (?st\<lparr>b2_range := r\<rparr>) u)"
        by (rule bcj2_destination_ends [OF _ refl maximum]) (use after [OF that, of 0] in simp)
    qed (use main in \<open>auto simp: same_streams_def advanced_def\<close>)
    have selected: "ends_with bcj2_error ?P
        (bind (range_decode (bcj2_probability_index (b2_previous st) byte) (b2_range st))
          (\<lambda>(selected, r). if selected then bcj2_destination maximum byte (?st\<lparr>b2_range := r\<rparr>)
             else ret (?st\<lparr>b2_range := r, b2_previous := byte\<rparr>)) u)"
      if "length (b2_output st) + 1 \<le> maximum" for u :: "'a control_scheme"
      by (rule ends_with_bind, rule range_decode_ends [OF _ _ probability_index])
        (use inv branch [OF that] finished(1) [OF that] in \<open>auto simp: ends_with_run split: prod.split\<close>)
    have plain: "?P (?st\<lparr>b2_previous := byte\<rparr>)" if "length (b2_output st) + 1 \<le> maximum"
      using finished(2) [OF that, of "b2_range st" byte] inv by simp
    show "ends_with bcj2_error ?P
        ((case (byte, main) of (byte, main) \<Rightarrow> let st = st\<lparr>b2_main := main\<rparr> in
          bind (reserve_output (b2_output st) 1 maximum) (\<lambda>_.
            let st = st\<lparr>b2_output := b2_output st @ [byte], b2_written := b2_written st + 1\<rparr> in
            if \<not> is_bcj2_branch (b2_previous st) byte then ret (st\<lparr>b2_previous := byte\<rparr>)
            else bind (range_decode (bcj2_probability_index (b2_previous st) byte) (b2_range st)) (\<lambda>(selected, r).
              let st = st\<lparr>b2_range := r\<rparr> in
              if selected then bcj2_destination maximum byte st else ret (st\<lparr>b2_previous := byte\<rparr>)))) t)"
      unfolding prod.case Let_def
      by (rule reserve_output_ends) (use inv maximum selected plain in \<open>simp_all add: ends_with_run cong del: if_weak_cong\<close>)
  qed
qed

lemma bcj2_loop_ends:
  assumes "merge_ok maximum st" "maximum + 5 < 2 ^ 64"
  shows "ends_with bcj2_error (\<lambda>st'. merge_ok maximum st' \<and> same_streams st st' \<and> cursor_is_finished (b2_main st'))
    (bcj2_loop maximum st (s :: 'z control_scheme))"
  using assms(1)
proof (induction "length (cu_bytes (b2_main st)) - cu_position (b2_main st)" arbitrary: st s rule: less_induct)
  case less
  show ?case
  proof (cases "cursor_is_finished (b2_main st)")
    case True
    then show ?thesis
      using less.prems by (subst bcj2_loop.simps) (simp add: branch_eq ends_with_run same_streams_def)
  next
    case False
    have rest: "ends_with bcj2_error (\<lambda>st'. merge_ok maximum st' \<and> same_streams st st' \<and> cursor_is_finished (b2_main st'))
        (bcj2_loop maximum st1 t)"
      if st1: "merge_ok maximum st1 \<and> same_streams st st1 \<and> cu_position (b2_main st1) = cu_position (b2_main st) + 1"
      for st1 and t :: "'z control_scheme"
    proof (rule ends_with_mono)
      show "ends_with bcj2_error (\<lambda>st'. merge_ok maximum st' \<and> same_streams st1 st' \<and> cursor_is_finished (b2_main st'))
          (bcj2_loop maximum st1 t)"
      proof (rule less.hyps)
        have "cu_position (b2_main st) < length (cu_bytes (b2_main st))"
          using False less.prems by (simp add: cursor_is_finished_def merge_ok_def cursor_ok_def)
        then show "length (cu_bytes (b2_main st1)) - cu_position (b2_main st1)
            < length (cu_bytes (b2_main st)) - cu_position (b2_main st)"
          using st1 by (simp add: same_streams_def)
      qed (use st1 in simp)
    qed (use st1 in \<open>auto simp: same_streams_def\<close>)
    show ?thesis
      unfolding bcj2_loop.simps [of maximum st] branch_eq if_P [OF False]
      by (rule ends_with_bind, rule bcj2_step_ends [OF less.prems assms(2)], rule rest)
  qed
qed

section \<open>The filter\<close>

lemma ends_with_reserve_option:
  assumes "\<And>t. ends_with E P (f () t)" "\<And>n. v = Some n \<Longrightarrow> n < 2 ^ 64"
  shows "ends_with E P (bind (case v of Some n \<Rightarrow> bind (u64_to_usize n d) try_reserve | None \<Rightarrow> ret ()) f s)"
proof (rule ends_with_bind [where P = "\<lambda>_. True"])
  show "ends_with E (\<lambda>_. True) ((case v of Some n \<Rightarrow> bind (u64_to_usize n d) try_reserve | None \<Rightarrow> ret ()) s)"
  proof (cases v)
    case None
    then show ?thesis by (simp add: ends_with_run)
  next
    case (Some n)
    have "u64_to_usize n d s = (Inr n, s)" using assms(2) [OF Some] by (simp add: u64_to_usize_def run)
    then have "bind (u64_to_usize n d) try_reserve s = try_reserve n s" by (rule bind_step)
    then show ?thesis using Some by (simp add: ends_with_reserve)
  qed
qed (simp add: assms(1))

lemma ends_with_option:
  assumes "\<And>x. v = Some x \<Longrightarrow> ends_with E P (f x s)" "v = None \<Longrightarrow> E e"
  shows "ends_with E P (bind (ok_or v e) f s)"
  using assms by (cases v) (simp_all add: run)

lemma decode_bcj2_arity:
  assumes "\<not> (properties = [] \<and> length inputs = 4)"
  shows "ends_with bcj2_error P (decode_bcj2 inputs properties expected maximum s)"
  unfolding decode_bcj2_def
  by (intro ends_with_check ends_with_option)
    (use assms in \<open>simp_all add: bcj2_error_def format_error_def\<close>)

text \<open>C13: The four-stream filter BCJ2 is total and exact about sizes: on any four streams it ends with
  an output that stays within the limit, has the declared size and holds exactly one byte for every
  byte of the main, call and jump streams; or it reports missing or left-over input, the wrong number
  of streams, or a size beyond the limit or unlike the declaration. The probabilities of the range
  decoder never leave their bounds, so its checked arithmetic never fails. The streams, the
  declared size and the limit with the five bytes a written branch may pass it by are
  representable as 64-bit counts.\<close>

theorem decode_bcj2_ends:
  assumes "\<forall>bytes\<in>set inputs. length bytes < 2 ^ 64" "maximum + 5 < 2 ^ 64" "\<forall>n\<in>set_option expected. n < 2 ^ 64"
  shows "ends_with bcj2_error (\<lambda>out. length out = length (concat (take 3 inputs)) \<and> length out \<le> maximum
      \<and> (\<forall>n\<in>set_option expected. length out = n)) (decode_bcj2 inputs properties expected maximum s)"
proof (cases "properties = [] \<and> length inputs = 4")
  case False
  then show ?thesis by (rule decode_bcj2_arity)
next
  case True
  then obtain main call jump rng where inputs: "inputs = [main, call, jump, rng]"
    by (auto simp: numeral_eq_Suc length_Suc_conv)
  let ?P = "\<lambda>out. length out = length (concat (take 3 inputs)) \<and> length out \<le> maximum
      \<and> (\<forall>n\<in>set_option expected. length out = n)"
  let ?start = "\<lambda>r. \<lparr>b2_main = cursor_new main, b2_call = cursor_new call, b2_jump = cursor_new jump,
      b2_range = r, b2_previous = 0, b2_written = 0, b2_output = []\<rparr>"
  have start: "merge_ok maximum (?start r)" if "range_ok r \<and> cursor_ok (br_input r)" for r
    using that assms(1) by (simp add: merge_ok_def cursor_new_def cursor_ok_def inputs)
  have finish: "ends_with bcj2_error ?P
      (bind (guard (cursor_is_finished (b2_call st) \<and> cursor_is_finished (b2_jump st))
         (format_error ''BCJ2 side streams were not consumed exactly'')) (\<lambda>_.
       bind (case expected of
             Some n \<Rightarrow>
               bind (usize_to_u64 (length (b2_output st))
                       ''BCJ2 output size is not representable as u64'') (\<lambda>size.
               guard (size = n) (format_error ''BCJ2 output size does not match its declaration''))
           | None \<Rightarrow> ret ()) (\<lambda>_. ret (b2_output st))) t)"
    if st: "merge_ok maximum st \<and> same_streams (?start r) st \<and> cursor_is_finished (b2_main st)"
    for st r and t :: "'a control_scheme"
    using st assms(2)
    by (cases expected)
      (auto simp: ends_with_run run usize_to_u64_def guard_def bcj2_error_def format_error_def merge_ok_def
        same_streams_def cursor_is_finished_def cursor_new_def inputs)
  have body: "ends_with bcj2_error ?P
      (bind (range_new rng) (\<lambda>r. bind (bcj2_loop maximum (?start r)) (\<lambda>st.
       bind (guard (cursor_is_finished (b2_call st) \<and> cursor_is_finished (b2_jump st))
         (format_error ''BCJ2 side streams were not consumed exactly'')) (\<lambda>_.
       bind (case expected of
             Some n \<Rightarrow>
               bind (usize_to_u64 (length (b2_output st))
                       ''BCJ2 output size is not representable as u64'') (\<lambda>size.
               guard (size = n) (format_error ''BCJ2 output size does not match its declaration''))
           | None \<Rightarrow> ret ()) (\<lambda>_. ret (b2_output st))))) t)" for t :: "'a control_scheme"
    apply (rule ends_with_bind)
     apply (rule range_new_ends)
    using assms(1) apply (simp add: inputs)
    apply (rule ends_with_bind)
     apply (rule bcj2_loop_ends [OF start assms(2)], assumption)
    apply (rule finish)
    by assumption
  have inputs_at: "get_at inputs 0 = Some main" "get_at inputs 1 = Some call" "get_at inputs 2 = Some jump"
    "get_at inputs 3 = Some rng"
    by (simp_all add: inputs get_at_def)
  show ?thesis
    unfolding decode_bcj2_def inputs_at
    using True body assms(3)
    by (auto simp: bind_some bcj2_error_def intro!: ends_with_check ends_with_limit ends_with_reserve_option)
qed

theorem decode_bcj2_ends_witness:
  "ends_with bcj2_error (\<lambda>out. length out = length (concat (take 3 [[0x90, 0xe8 :: u8], [], [], [0, 0, 0, 0, 0]]))
      \<and> length out \<le> 10 \<and> (\<forall>n\<in>set_option (Some 2). length out = n))
    (decode_bcj2 [[0x90, 0xe8], [], [], [0, 0, 0, 0, 0]] [] (Some 2) 10 unlimited)"
  by (rule decode_bcj2_ends) simp_all

end
