(* ===== verification/LzmaRangeFacts.thy ===== *)
theory LzmaRangeFacts
  imports Lzma Bcj2Facts
begin

unbundle bit_operations_syntax

text \<open>
  The entropy decoder of LZMA is safe: every probability stays between 31 and 2017 of 2048, the range
  stays at or above \<open>2 ^ 24\<close>, every tree and array is indexed within its length, and symbols, lengths
  and distances stay below their bounds. So an operation is decoded, or the input is truncated.
\<close>

section \<open>Errors\<close>

definition lzma_input_error :: "error \<Rightarrow> bool" where
  "lzma_input_error e \<longleftrightarrow> e = Format ''truncated LZMA range stream''"

section \<open>The range\<close>

definition fair16 :: "u16 \<Rightarrow> bool" where
  "fair16 p \<longleftrightarrow> 31 \<le> unat p \<and> unat p \<le> 2017"

definition fairs :: "nat \<Rightarrow> u16 list \<Rightarrow> bool" where
  "fairs n ps \<longleftrightarrow> length ps = n \<and> (\<forall>p\<in>set ps. fair16 p)"

definition input_ok :: "lzma_range \<Rightarrow> bool" where
  "input_ok r \<longleftrightarrow> lr_cursor r \<le> length (lr_input r) \<and> length (lr_input r) < 2 ^ 64"

definition lzma_range_ok :: "lzma_range \<Rightarrow> bool" where
  "lzma_range_ok r \<longleftrightarrow> input_ok r \<and> 2 ^ 24 \<le> unat (lr_range r)"

lemma lzma_read_byte_ends:
  assumes "input_ok r"
  shows "ends_with lzma_input_error (\<lambda>x. input_ok (snd x) \<and> lr_range (snd x) = lr_range r) (lzma_read_byte r s)"
proof (cases "lr_cursor r < length (lr_input r)")
  case True
  show ?thesis
    unfolding lzma_read_byte_def
    by (rule ends_with_skip [OF ends_with_checkpoint], rule ends_with_index [OF True], rule ends_with_plus)
      (use True assms in \<open>simp_all add: input_ok_def ends_with_run\<close>)
next
  case False
  show ?thesis
    unfolding lzma_read_byte_def
    by (rule ends_with_skip [OF ends_with_checkpoint])
      (use False in \<open>simp add: get_at_def run lzma_input_error_def format_error_def\<close>)
qed

lemma unat_u16_less: "unat (w::u16) < 65536"
proof -
  have "unat w < 2 ^ LENGTH(16)" by (rule unsigned_less)
  then show ?thesis by simp
qed

lemma unat_drop16: "unat (drop_bit n (w::u16)) = unat w div 2 ^ n"
proof -
  have "take_bit 16 (unat w) = unat w" using unat_u16_less [of w] by (simp add: take_bit_nat_eq_self_iff)
  then show ?thesis by (simp add: unsigned_drop_bit_eq drop_bit_eq_div [where 'a = nat])
qed

lemma unat_ucast16: "unat (ucast (p::u16) :: u32) = unat p"
  using unat_u16_less [of p] by (simp add: unsigned_ucast_eq take_bit_nat_eq_self_iff)

lemma TOP_VALUE_unat: "unat TOP_VALUE = 2 ^ 24"
  by (simp add: TOP_VALUE_def)

lemma shifted_range: "2 ^ 24 \<le> unat (push_bit 8 w)" if "unat (w::u32) < 2 ^ 24" "2 ^ 16 \<le> unat w"
  using that by (simp add: push_bit_eq_mult unat_word_ariths)

lemma lzma_normalize_ends:
  assumes "input_ok r" "2 ^ 16 \<le> unat (lr_range r)"
  shows "ends_with lzma_input_error lzma_range_ok (lzma_normalize r s)"
proof (cases "lr_range r \<ge> TOP_VALUE")
  case True
  then show ?thesis
    using assms by (simp add: lzma_normalize_def ends_with_run lzma_range_ok_def word_le_nat_alt TOP_VALUE_unat)
next
  case False
  then have small: "unat (lr_range r) < 2 ^ 24" by (simp add: word_le_nat_alt TOP_VALUE_unat)
  show ?thesis
    unfolding lzma_normalize_def if_not_P [OF False]
  proof (rule ends_with_bind, rule lzma_read_byte_ends)
    show "input_ok (r\<lparr>lr_range := push_bit 8 (lr_range r)\<rparr>)" using assms by (simp add: input_ok_def)
  qed (use shifted_range [OF small assms(2)] in \<open>auto simp: ends_with_run lzma_range_ok_def input_ok_def\<close>)
qed

lemma probability_choose_runs:
  assumes p: "fair16 p" and r: "lzma_range_ok r"
  shows "\<exists>b p' r'. probability_choose p r s = (Inr (b, p', r'), s) \<and> unat b < 2 \<and> fair16 p' \<and> input_ok r'
    \<and> 2 ^ 16 \<le> unat (lr_range r')"
proof -
  let ?rng = "lr_range r" let ?q = "unat ?rng div 2048" and ?p = "unat p"
  have ok: "input_ok r" and rng: "2 ^ 24 \<le> unat ?rng" using r by (simp_all add: lzma_range_ok_def)
  have p: "31 \<le> ?p" "?p \<le> 2017" using p by (simp_all add: fair16_def)
  have q: "2 ^ 13 \<le> ?q" using rng by simp
  have low: "31 * 2 ^ 13 \<le> ?q * ?p" using mult_le_mono [OF q p(1)] by simp
  have "?q * ?p \<le> ?q * 2017" by (rule mult_le_mono2 [OF p(2)])
  moreover have "?q * 2048 \<le> unat ?rng" by simp
  ultimately have room: "?q * ?p + 31 * ?q \<le> unat ?rng" by linarith
  then have high: "31 * 2 ^ 13 \<le> unat ?rng - ?q * ?p" using q by simp
  have small: "?q * ?p < 4294967296" using room unat_u32_less [of ?rng] by simp
  let ?b = "drop_bit 11 ?rng * ucast p"
  have bound: "unat ?b = ?q * ?p" using small by (simp add: unat_word_ariths unat_drop unat_ucast16)
  have mul: "checked_mul32 (drop_bit PROB_BITS ?rng) (ucast p) = Some ?b"
    using small by (simp add: checked_mul32_def unat_drop unat_ucast16 PROB_BITS_def)
  have le: "?b \<le> ?rng" using room by (simp add: word_le_nat_alt bound)
  show ?thesis
  proof (cases "lr_code r < ?b")
    case True
    have total: "unat PROB_TOTAL = 2048" by (simp add: PROB_TOTAL_def PROB_BITS_def)
    let ?d = "drop_bit 5 (PROB_TOTAL - p)"
    have sub: "checked_sub16 PROB_TOTAL p = Some (PROB_TOTAL - p)" and le': "p \<le> PROB_TOTAL"
      using p by (simp_all add: checked_sub16_def word_le_nat_alt total)
    have d: "unat ?d = (2048 - ?p) div 32" using le' by (simp add: unat_drop16 unat_sub total)
    have add: "checked_add16 p (drop_bit MOVE_BITS (PROB_TOTAL - p)) = Some (p + ?d)"
      using p by (simp add: checked_add16_def d MOVE_BITS_def)
    have "unat (p + ?d) = ?p + (2048 - ?p) div 32" using p by (simp add: unat_word_ariths d)
    then have "fair16 (p + ?d)" using p by (simp add: fair16_def)
    then show ?thesis
      using True low ok by (simp add: probability_choose_def mul add sub run bound input_ok_def)
  next
    case False
    have "unat (p - drop_bit 5 p) = ?p - ?p div 32"
      by (subst unat_sub) (simp_all add: word_le_nat_alt unat_drop16)
    then have "fair16 (p - drop_bit 5 p)" unfolding fair16_def using p by arith
    moreover have "drop_bit 5 p \<le> p" by (simp add: word_le_nat_alt unat_drop16)
    moreover have "unat (?rng - ?b) = unat ?rng - ?q * ?p" using le by (simp add: unat_sub bound)
    ultimately show ?thesis
      using False le high ok
      by (simp add: probability_choose_def mul checked_sub32_def checked_sub16_def MOVE_BITS_def run input_ok_def)
  qed
qed

lemma probability_decode_ends:
  assumes "fair16 p" "lzma_range_ok r"
  shows "ends_with lzma_input_error (\<lambda>(b, p', r'). unat b < 2 \<and> fair16 p' \<and> lzma_range_ok r') (probability_decode p r s)"
proof -
  obtain b p' r' where c: "probability_choose p r s = (Inr (b, p', r'), s)"
    and post: "unat b < 2" "fair16 p'" "input_ok r'" "2 ^ 16 \<le> unat (lr_range r')"
    using probability_choose_runs [OF assms, of s] by (elim exE conjE)
  show ?thesis
    unfolding probability_decode_def
    apply (rule ends_with_step, rule c)
    unfolding prod.case
    by (rule ends_with_bind, rule lzma_normalize_ends) (use post in \<open>simp_all add: ends_with_run\<close>)
qed

lemma bind_decode_at:
  assumes "fairs n ps" "i < n" "lzma_range_ok r"
    and "\<And>b ps' r' t. unat b < 2 \<Longrightarrow> fairs n ps' \<Longrightarrow> lzma_range_ok r' \<Longrightarrow> ends_with E P (f (b, ps', r') t)"
    and "\<And>e. lzma_input_error e \<Longrightarrow> E e"
  shows "ends_with E P (bind (decode_at detail ps i r) f s)"
proof (rule ends_with_bind_mono)
  have i: "i < length ps" and p: "fair16 (ps ! i)" using assms(1,2) by (simp_all add: fairs_def)
  have upd: "fairs n (ps[i := p'])" if "fair16 p'" for p'
    using that assms(1) by (auto simp: fairs_def dest!: set_update_subset_insert [THEN subsetD])
  show "ends_with lzma_input_error (\<lambda>(b, ps', r'). unat b < 2 \<and> fairs n ps' \<and> lzma_range_ok r') (decode_at detail ps i r s)"
    unfolding decode_at_def
    by (rule ends_with_index [OF i], rule ends_with_bind, rule probability_decode_ends [OF p assms(3)])
      (use upd in \<open>auto simp: ends_with_run split: prod.splits\<close>)
qed (use assms(4,5) in auto)

section \<open>Trees\<close>

definition tree_ok :: "probability_tree \<Rightarrow> bool" where
  "tree_ok t \<longleftrightarrow> 1 \<le> pt_bits t \<and> pt_bits t \<le> 8 \<and> fairs (2 ^ pt_bits t) (pt_probabilities t)"

lemma child_node_run:
  assumes "node < 2 ^ 8" "unat b < 2"
  shows "child_node detail node b = ret (2 * node + unat b)"
  using assms by (simp add: child_node_def checked_mul_def checked_add_def mult.commute)

lemma tree_walk_ends:
  assumes "fairs (2 ^ bits) ps" "bits \<le> 8" "k + n = bits" "2 ^ k \<le> node" "node < 2 ^ Suc k" "lzma_range_ok r"
  shows "ends_with lzma_input_error
    (\<lambda>(node', ps', r'). 2 ^ bits \<le> node' \<and> node' < 2 ^ Suc bits \<and> fairs (2 ^ bits) ps' \<and> lzma_range_ok r')
    (tree_walk n node ps r s)"
  using assms
proof (induction n arbitrary: k node ps r s)
  case 0
  then show ?case by (simp add: ends_with_run)
next
  case (Suc n)
  have "(2::nat) ^ Suc k \<le> 2 ^ bits" using Suc.prems by (intro power_increasing) simp_all
  then have i: "node < 2 ^ bits" using Suc.prems by linarith
  have "(2::nat) ^ bits \<le> 2 ^ 8" using assms(2) by (intro power_increasing) simp_all
  then have small: "node < 2 ^ 8" using i by linarith
  show ?case
    unfolding tree_walk.simps
  proof (rule bind_decode_at [OF Suc.prems(1) i Suc.prems(6)])
    fix b :: u32 and ps' r' and t :: "'a control_scheme"
    assume post: "unat b < 2" "fairs (2 ^ bits) ps'" "lzma_range_ok r'"
    have "ends_with lzma_input_error
        (\<lambda>(node', ps', r'). 2 ^ bits \<le> node' \<and> node' < 2 ^ Suc bits \<and> fairs (2 ^ bits) ps' \<and> lzma_range_ok r')
        (tree_walk n (2 * node + unat b) ps' r' t)"
      using post Suc.prems by (intro Suc.IH [where k = "Suc k"]) simp_all
    then show "ends_with lzma_input_error
        (\<lambda>(node', ps', r'). 2 ^ bits \<le> node' \<and> node' < 2 ^ Suc bits \<and> fairs (2 ^ bits) ps' \<and> lzma_range_ok r')
        ((case (b, ps', r') of (b, probabilities, r) \<Rightarrow>
          bind (child_node ''LZMA probability-tree index overflows'' node b)
            (\<lambda>node. tree_walk n node probabilities r)) t)"
      by (simp add: child_node_run [OF small post(1)])
  qed assumption
qed

lemma tree_decode_ends:
  assumes "tree_ok t" "lzma_range_ok r"
  shows "ends_with lzma_input_error
    (\<lambda>(v, t', r'). unat v < 2 ^ pt_bits t \<and> tree_ok t' \<and> pt_bits t' = pt_bits t \<and> lzma_range_ok r') (tree_decode t r s)"
proof -
  let ?n = "pt_bits t"
  have t: "?n \<le> 8" "fairs (2 ^ ?n) (pt_probabilities t)" using assms(1) by (simp_all add: tree_ok_def)
  have pow: "(2::nat) ^ ?n \<le> 2 ^ 8" using t by (intro power_increasing) simp_all
  show ?thesis
    unfolding tree_decode_def
  proof (rule ends_with_bind, rule tree_walk_ends [OF t(2) t(1), of 0])
    fix x :: "nat \<times> u16 list \<times> lzma_range" and u :: "'a control_scheme"
    assume x: "case x of (node', ps', r') \<Rightarrow>
      2 ^ ?n \<le> node' \<and> node' < 2 ^ Suc ?n \<and> fairs (2 ^ ?n) ps' \<and> lzma_range_ok r'"
    obtain node ps r' where xe: "x = (node, ps, r')" by (cases x)
    have v: "node - 2 ^ ?n < 2 ^ ?n" and le: "2 ^ ?n \<le> node" using x by (auto simp: xe)
    have "node - 2 ^ ?n < 2 ^ 8" using v pow by linarith
    then have u32: "node - 2 ^ ?n < 2 ^ 32" by simp
    have "unat (of_nat (node - 2 ^ ?n) :: u32) = node - 2 ^ ?n"
      using u32 by (simp add: unat_of_nat take_bit_nat_eq_self_iff)
    then show "ends_with lzma_input_error
        (\<lambda>(v, t', r'). unat v < 2 ^ ?n \<and> tree_ok t' \<and> pt_bits t' = ?n \<and> lzma_range_ok r')
        ((case x of (node, probabilities, r) \<Rightarrow>
          bind (ok_or (checked_sub node (2 ^ ?n)) (format_error ''LZMA probability-tree value underflows'')) (\<lambda>v.
          bind (u32_of v ''LZMA tree value is not representable'') (\<lambda>v.
          ret (v, t\<lparr>pt_probabilities := probabilities\<rparr>, r)))) u)"
      using x v le u32 assms(1)
      by (simp add: xe checked_sub_def bind_some u32_of_def ends_with_run tree_ok_def)
  qed (use assms(2) in simp_all)
qed

lemma or_shift_bit:
  assumes "unat (v::u32) < 2 ^ k" "unat b < 2" "k < 32"
  shows "unat (v OR push_bit k b) < 2 ^ Suc k"
proof -
  have take: "unat w < 2 ^ n \<longleftrightarrow> take_bit n w = w" if "n < 33" for w :: u32 and n
  proof -
    have "take_bit n w = w \<longleftrightarrow> take_bit n (unat w) = unat w"
      by (metis unsigned_take_bit_eq word_unat_eq_iff)
    then show ?thesis by (simp add: take_bit_nat_eq_self_iff)
  qed
  have v: "take_bit k v = v" using take [of k v] assms by simp
  have b: "take_bit 1 b = b" using take [of 1 b] assms by simp
  have "take_bit (Suc k) (v OR push_bit k b) = v OR push_bit k b"
  proof -
    have "take_bit (Suc k) v = v" using v by (metis Suc_leD min_absorb2 order_refl take_bit_take_bit le_SucI min.absorb1)
    moreover have "take_bit (Suc k) (push_bit k b) = push_bit k b"
      using b by (simp add: take_bit_push_bit)
    ultimately show ?thesis by simp
  qed
  then show ?thesis using take [of "Suc k" "v OR push_bit k b"] assms(3) by simp
qed

lemma tree_walk_reverse_ends:
  assumes "fairs (2 ^ bits) ps" "bits \<le> 8" "k \<le> bits" "2 ^ k \<le> node" "node < 2 ^ Suc k" "unat v < 2 ^ k"
    and "lzma_range_ok r"
  shows "ends_with lzma_input_error
    (\<lambda>(v', ps', r'). unat v' < 2 ^ bits \<and> fairs (2 ^ bits) ps' \<and> lzma_range_ok r')
    (tree_walk_reverse [k..<bits] node v ps r s)"
  using assms
proof (induction "bits - k" arbitrary: k node v ps r s)
  case 0
  then show ?case by (simp add: ends_with_run)
next
  case (Suc n)
  then have k: "k < bits" "[k..<bits] = k # [Suc k..<bits]" by (simp_all add: upt_conv_Cons)
  have "(2::nat) ^ Suc k \<le> 2 ^ bits" using k by (intro power_increasing) simp_all
  then have i: "node < 2 ^ bits" using Suc.prems by linarith
  have "(2::nat) ^ bits \<le> 2 ^ 8" using assms(2) by (intro power_increasing) simp_all
  then have small: "node < 2 ^ 8" using i by linarith
  show ?case
    unfolding k(2) tree_walk_reverse.simps
  proof (rule bind_decode_at [OF Suc.prems(1) i Suc.prems(7)])
    fix b :: u32 and ps' r' and t :: "'a control_scheme"
    assume post: "unat b < 2" "fairs (2 ^ bits) ps'" "lzma_range_ok r'"
    have "ends_with lzma_input_error (\<lambda>(v', ps', r'). unat v' < 2 ^ bits \<and> fairs (2 ^ bits) ps' \<and> lzma_range_ok r')
        (tree_walk_reverse [Suc k..<bits] (2 * node + unat b) (v OR push_bit k b) ps' r' t)"
    proof (rule Suc.hyps(1))
      show "unat (v OR push_bit k b) < 2 ^ Suc k"
        using Suc.prems k post by (intro or_shift_bit) simp_all
    qed (use Suc.hyps(2) Suc.prems k post in simp_all)
    then show "ends_with lzma_input_error (\<lambda>(v', ps', r'). unat v' < 2 ^ bits \<and> fairs (2 ^ bits) ps' \<and> lzma_range_ok r')
        ((case (b, ps', r') of (b, probabilities, r) \<Rightarrow>
          bind (ok_or (if k < 32 then Some (push_bit k b) else None) (format_error ''LZMA reverse-tree value overflows''))
            (\<lambda>shifted. bind (child_node ''LZMA reverse-tree index overflows'' node b)
              (\<lambda>node. tree_walk_reverse [Suc k..<bits] node (v OR shifted) probabilities r))) t)"
      using k assms(2) by (simp add: child_node_run [OF small post(1)] bind_some)
  qed assumption
qed

lemma tree_decode_reverse_ends:
  assumes "tree_ok t" "lzma_range_ok r"
  shows "ends_with lzma_input_error
    (\<lambda>(v, t', r'). unat v < 2 ^ pt_bits t \<and> tree_ok t' \<and> pt_bits t' = pt_bits t \<and> lzma_range_ok r')
    (tree_decode_reverse t r s)"
  unfolding tree_decode_reverse_def
  by (rule ends_with_bind, rule tree_walk_reverse_ends [where k = 0])
    (use assms in \<open>auto simp: tree_ok_def ends_with_run split: prod.splits\<close>)

text \<open>An array of trees with the given widths.\<close>

definition trees_ok :: "nat list \<Rightarrow> probability_tree list \<Rightarrow> bool" where
  "trees_ok widths trees \<longleftrightarrow> list_all2 (\<lambda>w t. tree_ok t \<and> pt_bits t = w) widths trees"

lemma bind_tree_at:
  assumes "trees_ok widths trees" "i < length widths" "lzma_range_ok r"
    and decode: "\<And>t r s. tree_ok t \<Longrightarrow> lzma_range_ok r \<Longrightarrow> ends_with lzma_input_error
      (\<lambda>(v, t', r'). unat v < 2 ^ pt_bits t \<and> tree_ok t' \<and> pt_bits t' = pt_bits t \<and> lzma_range_ok r') (decode t r s)"
    and "\<And>v ts r' t. unat v < 2 ^ (widths ! i) \<Longrightarrow> trees_ok widths ts \<Longrightarrow> lzma_range_ok r'
      \<Longrightarrow> ends_with E P (f (v, ts, r') t)"
    and "\<And>e. lzma_input_error e \<Longrightarrow> E e"
  shows "ends_with E P (bind (tree_at decode detail trees i r) f s)"
proof (rule ends_with_bind_mono)
  have i: "i < length trees" and t: "tree_ok (trees ! i)" "pt_bits (trees ! i) = widths ! i"
    using assms(1,2) by (auto simp: trees_ok_def list_all2_conv_all_nth)
  have upd: "trees_ok widths (trees[i := t'])" if "tree_ok t'" "pt_bits t' = widths ! i" for t'
    using that assms(1,2) by (auto simp: trees_ok_def list_all2_conv_all_nth nth_list_update)
  show "ends_with lzma_input_error (\<lambda>(v, ts, r'). unat v < 2 ^ (widths ! i) \<and> trees_ok widths ts \<and> lzma_range_ok r')
      (tree_at decode detail trees i r s)"
    unfolding tree_at_def
    by (rule ends_with_index [OF i], rule ends_with_bind, rule decode [OF t(1) assms(3)])
      (use upd t in \<open>auto simp: ends_with_run split: prod.splits\<close>)
qed (use assms(5,6) in auto)

section \<open>Lengths and distances\<close>

definition length_ok :: "length_decoder \<Rightarrow> bool" where
  "length_ok d \<longleftrightarrow> fairs 2 (ld_choice d) \<and> trees_ok (replicate 16 3) (ld_low d)
     \<and> trees_ok (replicate 16 3) (ld_middle d) \<and> tree_ok (ld_high d) \<and> pt_bits (ld_high d) = 8"

lemma plus32_run: "unat a + unat b < 2 ^ 32 \<Longrightarrow> checked_add32 a b = Some (a + b)"
  by (simp add: checked_add32_def)

lemma plus32_unat: "unat a + unat b < 2 ^ 32 \<Longrightarrow> unat (a + b :: u32) = unat a + unat b"
  by (simp add: unat_word_ariths)

lemma length_decode_ends:
  assumes d: "length_ok d" and r: "lzma_range_ok r" and i: "i < 16"
  shows "ends_with lzma_input_error (\<lambda>(v, d', r'). unat v < 272 \<and> length_ok d' \<and> lzma_range_ok r')
    (length_decode d r i s)"
proof -
  have choice: "fairs 2 (ld_choice d)" "trees_ok (replicate 16 3) (ld_low d)" "trees_ok (replicate 16 3) (ld_middle d)"
    "tree_ok (ld_high d)" "pt_bits (ld_high d) = 8"
    using d by (simp_all add: length_ok_def)
  have len: "i < length (replicate 16 (3::nat))" using i by simp
  have two: "(0::nat) < 2" "(1::nat) < 2" by simp_all
  define P where "P = (\<lambda>(v :: u32, d', r'). unat v < 272 \<and> length_ok d' \<and> lzma_range_ok r')"
  have low: "ends_with lzma_input_error P
      (bind (tree_at tree_decode detail (ld_low d) i r') (\<lambda>(v, low, r). ret (v, d\<lparr>ld_choice := c, ld_low := low\<rparr>, r)) t)"
    if "fairs 2 c" "lzma_range_ok r'" for detail c r' and t :: "'a control_scheme"
    by (rule bind_tree_at [OF choice(2) len that(2) tree_decode_ends])
      (use that choice i in \<open>simp_all add: ends_with_run P_def length_ok_def\<close>)
  have middle: "ends_with lzma_input_error P
      (bind (tree_at tree_decode detail (ld_middle d) i r') (\<lambda>(v, middle, r).
        bind (ok_or (checked_add32 v 8) e) (\<lambda>v. ret (v, d\<lparr>ld_choice := c, ld_middle := middle\<rparr>, r))) t)"
    if "fairs 2 c" "lzma_range_ok r'" for detail c r' e and t :: "'a control_scheme"
    by (rule bind_tree_at [OF choice(3) len that(2) tree_decode_ends])
      (use that choice i in \<open>simp_all add: ends_with_run P_def length_ok_def plus32_run plus32_unat bind_some\<close>)
  have high: "ends_with lzma_input_error P
      (bind (tree_decode (ld_high d) r') (\<lambda>(v, high, r).
        bind (ok_or (checked_add32 v 16) e) (\<lambda>v. ret (v, d\<lparr>ld_choice := c, ld_high := high\<rparr>, r))) t)"
    if "fairs 2 c" "lzma_range_ok r'" for c r' e and t :: "'a control_scheme"
    by (rule ends_with_bind, rule tree_decode_ends [OF choice(4) that(2)])
      (use that choice in \<open>auto simp: ends_with_run P_def length_ok_def plus32_run plus32_unat bind_some\<close>)
  have second: "ends_with lzma_input_error P
      (bind (decode_at detail c 1 r') (\<lambda>(b, c, r). if b = 0
        then bind (tree_at tree_decode detail2 (ld_middle d) i r) (\<lambda>(v, middle, r).
          bind (ok_or (checked_add32 v 8) e) (\<lambda>v. ret (v, d\<lparr>ld_choice := c, ld_middle := middle\<rparr>, r)))
        else bind (tree_decode (ld_high d) r) (\<lambda>(v, high, r).
          bind (ok_or (checked_add32 v 16) e) (\<lambda>v. ret (v, d\<lparr>ld_choice := c, ld_high := high\<rparr>, r)))) t)"
    if "fairs 2 c" "lzma_range_ok r'" for detail detail2 c r' e and t :: "'a control_scheme"
    by (rule bind_decode_at [OF that(1) two(2) that(2)]) (auto intro!: middle high)
  have first: "ends_with lzma_input_error P
      (bind (decode_at detail (ld_choice d) 0 r) (\<lambda>(b, c, r). if b = 0
        then bind (tree_at tree_decode detail3 (ld_low d) i r) (\<lambda>(v, low, r). ret (v, d\<lparr>ld_choice := c, ld_low := low\<rparr>, r))
        else bind (decode_at detail c 1 r) (\<lambda>(b, c, r). if b = 0
          then bind (tree_at tree_decode detail2 (ld_middle d) i r) (\<lambda>(v, middle, r).
            bind (ok_or (checked_add32 v 8) e) (\<lambda>v. ret (v, d\<lparr>ld_choice := c, ld_middle := middle\<rparr>, r)))
          else bind (tree_decode (ld_high d) r) (\<lambda>(v, high, r).
            bind (ok_or (checked_add32 v 16) e) (\<lambda>v. ret (v, d\<lparr>ld_choice := c, ld_high := high\<rparr>, r))))) s)"
    for detail detail2 detail3 e
    by (rule bind_decode_at [OF choice(1) two(1) r]) (auto intro!: low second simp del: One_nat_def)
  show ?thesis
    using first unfolding P_def by (simp add: length_decode_def Let_def cong del: if_weak_cong del: One_nat_def)
qed

definition model_widths :: "nat list" where
  "model_widths = [1, 1, 2, 2, 3, 3, 4, 4, 5, 5]"

definition distance_ok :: "distance_decoder \<Rightarrow> bool" where
  "distance_ok d \<longleftrightarrow> trees_ok (replicate 4 6) (dd_position_slots d) \<and> trees_ok model_widths (dd_position_models d)
     \<and> tree_ok (dd_alignment d) \<and> pt_bits (dd_alignment d) = 4"

lemma decode_direct_bit_ends:
  assumes "lzma_range_ok r"
  shows "ends_with lzma_input_error (\<lambda>(b, r'). unat b < 2 \<and> lzma_range_ok r') (decode_direct_bit r s)"
proof -
  let ?h = "drop_bit 1 (lr_range r)"
  have half: "2 ^ 16 \<le> unat ?h" using assms unat_drop [of 1 "lr_range r"] by (auto simp: lzma_range_ok_def)
  have ok: "input_ok r" using assms by (simp add: lzma_range_ok_def)
  have norm: "ends_with lzma_input_error (\<lambda>(b, r'). unat b < 2 \<and> lzma_range_ok r')
      (bind (lzma_normalize (r\<lparr>lr_range := ?h, lr_code := c\<rparr>)) (\<lambda>r. ret (b, r)) t)"
    if "unat b < 2" for b :: u32 and c and t :: "'a control_scheme"
    by (rule ends_with_bind, rule lzma_normalize_ends) (use half ok that in \<open>simp_all add: input_ok_def ends_with_run\<close>)
  show ?thesis
    using norm [of 0 "lr_code r" s] norm [of 1 "lr_code r - ?h" s]
    by (cases "?h \<le> lr_code r") (simp_all add: decode_direct_bit_def checked_sub32_def)
qed

lemma direct_bits_loop_ends:
  assumes "k + n \<le> 26" "unat direct < 2 ^ k" "lzma_range_ok r"
  shows "ends_with lzma_input_error (\<lambda>(v, r'). unat v < 2 ^ (k + n) \<and> lzma_range_ok r') (direct_bits_loop n direct r s)"
  using assms
proof (induction n arbitrary: k direct r s)
  case 0
  then show ?case by (simp add: ends_with_run)
next
  case (Suc n)
  have "(2::nat) ^ k \<le> 2 ^ 25" using Suc.prems by (intro power_increasing) simp_all
  then have small: "unat direct < 2 ^ 25" using Suc.prems by linarith
  have double: "unat (push_bit 1 direct) = 2 * unat direct"
    using small by (simp add: push_bit_eq_mult unat_word_ariths)
  show ?case
    unfolding direct_bits_loop.simps
  proof (rule ends_with_bind, rule decode_direct_bit_ends [OF Suc.prems(3)])
    fix x :: "u32 \<times> lzma_range" and t :: "'a control_scheme"
    assume x: "case x of (b, r') \<Rightarrow> unat b < 2 \<and> lzma_range_ok r'"
    obtain b r' where xe: "x = (b, r')" by (cases x)
    have sum: "unat (push_bit 1 direct) + unat b < 2 ^ 32" using double small x by (simp add: xe)
    have "ends_with lzma_input_error (\<lambda>(v, r'). unat v < 2 ^ (Suc k + n) \<and> lzma_range_ok r')
        (direct_bits_loop n (push_bit 1 direct + b) r' t)"
    proof (rule Suc.IH)
      show "unat (push_bit 1 direct + b) < 2 ^ Suc k"
        using plus32_unat [OF sum] double Suc.prems(2) x by (simp add: xe)
    qed (use Suc.prems x in \<open>simp_all add: xe\<close>)
    then show "ends_with lzma_input_error (\<lambda>(v, r'). unat v < 2 ^ (k + Suc n) \<and> lzma_range_ok r')
        ((case x of (b, r) \<Rightarrow> bind (ok_or (checked_add32 (push_bit 1 direct) b)
            (format_error ''LZMA direct distance overflows'')) (\<lambda>direct. direct_bits_loop n direct r)) t)"
      unfolding xe prod.case plus32_run [OF sum] bind_some by simp
  qed
qed

lemma distance_far_ends:
  assumes d: "distance_ok d" and r: "lzma_range_ok r" and bits: "6 \<le> bits" "bits \<le> 30"
    and base: "unat base = q * 2 ^ bits" "q \<le> 3"
  shows "ends_with lzma_input_error (\<lambda>(v, d', r'). distance_ok d' \<and> lzma_range_ok r') (distance_far d r bits base s)"
proof -
  have align: "tree_ok (dd_alignment d)" "pt_bits (dd_alignment d) = 4" using d by (simp_all add: distance_ok_def)
  have four: "checked_sub bits ALIGN_BITS = Some (bits - 4)" using bits by (simp add: checked_sub_def ALIGN_BITS_def)
  have room: "unat base + 2 ^ bits \<le> 2 ^ 32"
  proof -
    have "(2::nat) ^ bits \<le> 2 ^ 30" using bits by (intro power_increasing) simp_all
    have "unat base \<le> 3 * 2 ^ bits" unfolding base(1) by (rule mult_le_mono1 [OF base(2)])
    then have "unat base + 2 ^ bits \<le> 3 * 2 ^ bits + 2 ^ bits" by simp
    also have "\<dots> \<le> 2 ^ 32" using \<open>(2::nat) ^ bits \<le> 2 ^ 30\<close> by simp
    finally show ?thesis .
  qed
  have final: "ends_with lzma_input_error (\<lambda>(v, d', r'). distance_ok d' \<and> lzma_range_ok r')
      (bind (tree_decode_reverse (dd_alignment d) r') (\<lambda>(alignment, tree, r).
        bind (ok_or (case checked_add32 base (push_bit ALIGN_BITS direct) of None \<Rightarrow> None | Some v \<Rightarrow> checked_add32 v alignment) e)
          (\<lambda>v. ret (v, d\<lparr>dd_alignment := tree\<rparr>, r))) t)"
    if direct: "unat direct < 2 ^ (bits - 4)" and r': "lzma_range_ok r'" for direct r' e and t :: "'a control_scheme"
  proof (rule ends_with_bind, rule tree_decode_reverse_ends [OF align(1) r'])
    fix x :: "u32 \<times> probability_tree \<times> lzma_range" and u :: "'a control_scheme"
    assume x: "case x of (v, t', r') \<Rightarrow> unat v < 2 ^ pt_bits (dd_alignment d) \<and> tree_ok t' \<and> pt_bits t' = pt_bits (dd_alignment d)
      \<and> lzma_range_ok r'"
    obtain v t' r'' where xe: "x = (v, t', r'')" by (cases x)
    have v: "unat v < 16" using x align by (simp add: xe)
    have pow: "(2::nat) ^ bits = 2 ^ (bits - 4) * 16" 
    proof -
      have "(2::nat) ^ bits = 2 ^ (bits - 4 + 4)" using bits by simp
      also have "\<dots> = 2 ^ (bits - 4) * 16" by (simp only: power_add) simp
      finally show ?thesis .
    qed
    have "unat direct * 16 + 16 \<le> 2 ^ bits" using direct pow by simp
    moreover have "(2::nat) ^ bits \<le> 2 ^ 30" using bits by (intro power_increasing) simp_all
    ultimately have d16: "unat (push_bit 4 direct) = unat direct * 16" and le: "unat direct * 16 + 16 \<le> 2 ^ bits"
      by (simp_all add: push_bit_eq_mult unat_word_ariths mult.commute)
    have one: "unat base + unat (push_bit 4 direct) < 2 ^ 32" using room le d16 by simp
    have two: "unat (base + push_bit 4 direct) + unat v < 2 ^ 32"
      using plus32_unat [OF one] room le d16 v by simp
    show "ends_with lzma_input_error (\<lambda>(v, d', r'). distance_ok d' \<and> lzma_range_ok r')
        ((case x of (alignment, tree, r) \<Rightarrow>
          bind (ok_or (case checked_add32 base (push_bit ALIGN_BITS direct) of None \<Rightarrow> None | Some v \<Rightarrow> checked_add32 v alignment) e)
          (\<lambda>v. ret (v, d\<lparr>dd_alignment := tree\<rparr>, r))) u)"
      using x d by (simp add: xe ALIGN_BITS_def plus32_run [OF one] plus32_run [OF two] bind_some ends_with_run distance_ok_def)
  qed
  show ?thesis
    unfolding distance_far_def four bind_some
  proof (rule ends_with_bind, rule direct_bits_loop_ends [where k = 0])
    fix x :: "u32 \<times> lzma_range" and t :: "'a control_scheme"
    assume "case x of (v, r') \<Rightarrow> unat v < 2 ^ (0 + (bits - 4)) \<and> lzma_range_ok r'"
    then show "ends_with lzma_input_error (\<lambda>(v, d', r'). distance_ok d' \<and> lzma_range_ok r')
      ((case x of (direct, r) \<Rightarrow> let direct = push_bit ALIGN_BITS direct in
          bind (tree_decode_reverse (dd_alignment d) r) (\<lambda>(alignment, tree, r).
          bind (ok_or (case checked_add32 base direct of None \<Rightarrow> None | Some v \<Rightarrow> checked_add32 v alignment)
             (format_error ''LZMA distance overflows'')) (\<lambda>v. ret (v, d\<lparr>dd_alignment := tree\<rparr>, r)))) t)"
      using final by (cases x) (simp add: Let_def)
  qed (use bits r in simp_all)
qed

lemma model_width: "i < 10 \<Longrightarrow> model_widths ! i = (i + 4) div 2 - 1" "length model_widths = 10"
proof -
  assume "i < 10"
  then have "i \<in> {0, 1, 2, 3, 4, 5, 6, 7, 8, 9}" by auto
  then show "model_widths ! i = (i + 4) div 2 - 1" by (auto simp: model_widths_def)
qed (simp add: model_widths_def)

text \<open>The base of a slot: two or three, shifted by the number of bits below it.\<close>

lemma slot_base:
  fixes slot :: u32
  assumes "4 \<le> unat slot" "unat slot < 64"
  defines "bits \<equiv> drop_bit 1 slot - 1" and "base \<equiv> push_bit (unat (drop_bit 1 slot - 1)) (2 OR (slot AND 1))"
  shows "unat bits = unat slot div 2 - 1" "checked_sub32 (drop_bit 1 slot) 1 = Some bits"
    "unat base = (2 + unat slot mod 2) * 2 ^ unat bits"
proof -
  have half: "unat (drop_bit 1 slot) = unat slot div 2" by (simp add: unat_drop)
  then have le: "1 \<le> drop_bit 1 slot" using assms(1) by (simp add: word_le_nat_alt)
  show bits: "unat bits = unat slot div 2 - 1" using le half by (simp add: bits_def unat_sub)
  show "checked_sub32 (drop_bit 1 slot) 1 = Some bits" using le by (simp add: checked_sub32_def bits_def)
  have low: "unat (slot AND 1) = unat slot mod 2"
    by (simp add: and_one_eq unat_mod)
  have "2 OR (slot AND 1) = 2 + (slot AND 1)"
    by (simp add: and_one_eq mod2_eq_if)
  then have head: "unat (2 OR (slot AND 1)) = 2 + unat slot mod 2"
    by (simp add: unat_word_ariths low)
  have "unat bits \<le> 30" using bits assms(2) by simp
  then have "(2::nat) ^ unat bits \<le> 2 ^ 30" by (intro power_increasing) simp_all
  moreover have "2 + unat slot mod 2 \<le> 3" by arith
  ultimately have "(2 + unat slot mod 2) * 2 ^ unat bits \<le> 3 * 2 ^ 30" by (rule mult_le_mono [rotated])
  then have "(2 + unat slot mod 2) * 2 ^ unat bits < 2 ^ 32" by (rule le_less_trans) simp
  moreover have two: "unat (2 ^ unat bits :: u32) = 2 ^ unat bits"
  proof -
    have "(2 ^ unat bits :: u32) = of_nat (2 ^ unat bits)" by simp
    moreover have "(2::nat) ^ unat bits < 2 ^ LENGTH(32)"
      using \<open>(2::nat) ^ unat bits \<le> 2 ^ 30\<close> by (rule le_less_trans) simp
    ultimately show ?thesis by (simp only: unat_of_nat mod_less)
  qed
  moreover have "base = (2 OR (slot AND 1)) * 2 ^ unat bits"
    by (simp add: base_def bits_def push_bit_eq_mult)
  ultimately show "unat base = (2 + unat slot mod 2) * 2 ^ unat bits"
    using two by (simp add: unat_word_ariths head)
qed

lemma distance_decode_ends:
  assumes d: "distance_ok d" and r: "lzma_range_ok r"
  shows "ends_with lzma_input_error (\<lambda>(v, d', r'). distance_ok d' \<and> lzma_range_ok r') (distance_decode d r len s)"
proof -
  define P where "P = (\<lambda>(v :: u32, d', r'). distance_ok d' \<and> lzma_range_ok r')"
  have ok: "trees_ok (replicate 4 6) (dd_position_slots d)" "trees_ok model_widths (dd_position_models d)"
    "tree_ok (dd_alignment d)" "pt_bits (dd_alignment d) = 4"
    using d by (simp_all add: distance_ok_def)
  have i: "unat (min len (saturating_sub32 LENGTH_STATES 1)) < length (replicate 4 (6::nat))"
    by (simp add: saturating_sub32_def LENGTH_STATES_def min_def word_le_nat_alt)
  have slots: "distance_ok (d\<lparr>dd_position_slots := ts\<rparr>)" if "trees_ok (replicate 4 6) ts" for ts
    using that ok by (simp add: distance_ok_def)
  have near: "ends_with lzma_input_error P
      (bind (tree_at tree_decode_reverse detail (dd_position_models d1) (unat (slot - 4)) r') (\<lambda>(suffix, models, r).
        bind (ok_or (checked_add32 base suffix) e) (\<lambda>v. ret (v, d1\<lparr>dd_position_models := models\<rparr>, r))) t)"
    if "4 \<le> unat slot" "unat slot < 14" "distance_ok d1" "lzma_range_ok r'"
      "unat base = (2 + unat slot mod 2) * 2 ^ (unat slot div 2 - 1)" for slot :: u32 and detail d1 base e r' and t :: "'a control_scheme"
  proof (rule bind_tree_at [OF _ _ that(4) tree_decode_reverse_ends])
    have sub: "unat (slot - 4) = unat slot - 4" using that(1) by (simp add: unat_sub word_le_nat_alt)
    show "trees_ok model_widths (dd_position_models d1)" using that(3) by (simp add: distance_ok_def)
    show "unat (slot - 4) < length model_widths" using sub that by (simp add: model_width)
    have width: "model_widths ! unat (slot - 4) \<le> 5"
    proof -
      have "(unat slot - 4 + 4) div 2 - 1 \<le> 5" using that(2) by arith
      moreover have "unat slot - 4 < 10" using that by arith
      ultimately show ?thesis using model_width(1) [of "unat slot - 4"] by (simp only: sub)
    qed
    fix v :: u32 and ts r'' and u :: "'a control_scheme"
    assume post: "unat v < 2 ^ (model_widths ! unat (slot - 4))" "trees_ok model_widths ts" "lzma_range_ok r''"
    have "(2::nat) ^ (model_widths ! unat (slot - 4)) \<le> 2 ^ 5" using width by (intro power_increasing) simp_all
    then have "unat v < 32" using post(1) by simp
    moreover have "unat base \<le> 3 * 2 ^ 5"
    proof -
      have "unat slot div 2 - 1 \<le> 5" using that(2) by arith
      then have "(2::nat) ^ (unat slot div 2 - 1) \<le> 2 ^ 5" by (intro power_increasing) simp_all
      moreover have "2 + unat slot mod 2 \<le> 3" by arith
      ultimately show ?thesis unfolding that(5) by (rule mult_le_mono [rotated])
    qed
    ultimately have "unat base + unat v < 2 ^ 32" by simp
    then show "ends_with lzma_input_error P
        ((case (v, ts, r'') of (suffix, models, r) \<Rightarrow>
          bind (ok_or (checked_add32 base suffix) e) (\<lambda>v. ret (v, d1\<lparr>dd_position_models := models\<rparr>, r))) u)"
      using post that(3) by (simp add: plus32_run bind_some ends_with_run P_def distance_ok_def)
  qed simp_all
  have far: "ends_with lzma_input_error P (distance_far d1 r' (unat slot div 2 - 1) base t)"
    if "14 \<le> unat slot" "unat slot < 64" "distance_ok d1" "lzma_range_ok r'"
      "unat base = (2 + unat slot mod 2) * 2 ^ (unat slot div 2 - 1)" for slot :: u32 and d1 base r' and t :: "'a control_scheme"
    unfolding P_def
  proof (rule distance_far_ends [OF that(3,4)])
    show "2 + unat slot mod 2 \<le> 3" by arith
    show "6 \<le> unat slot div 2 - 1" "unat slot div 2 - 1 \<le> 30" using that(1,2) by arith+
  qed (rule that(5))
  have body: "ends_with lzma_input_error P
      ((if slot < START_POSITION_MODEL then ret (slot, d1, r')
       else bind (ok_or (checked_sub32 (drop_bit 1 slot) 1) e1) (\<lambda>bits.
         bind (ok_or (if unat bits < 32 then Some (push_bit (unat bits) (2 OR (slot AND 1))) else None) e2) (\<lambda>base.
         if slot < END_POSITION_MODEL
         then bind (ok_or (checked_sub32 slot START_POSITION_MODEL) e3) (\<lambda>model.
           bind (tree_at tree_decode_reverse detail (dd_position_models d1) (unat model) r') (\<lambda>(suffix, models, r).
           bind (ok_or (checked_add32 base suffix) e4) (\<lambda>v. ret (v, d1\<lparr>dd_position_models := models\<rparr>, r))))
         else distance_far d1 r' (unat bits) base))) t)"
    if slot: "unat slot < 64" and d1: "distance_ok d1" and r': "lzma_range_ok r'"
    for slot :: u32 and d1 r' e1 e2 e3 e4 detail and t :: "'a control_scheme"
  proof (cases "unat slot < 4")
    case True
    then show ?thesis using d1 r' by (simp add: START_POSITION_MODEL_def word_less_nat_alt ends_with_run P_def)
  next
    case False
    then have four: "4 \<le> unat slot" by simp
    note base = slot_base [OF four slot]
    have lt: "unat (drop_bit 1 slot - 1) < 32" unfolding base(1) using slot by arith
    have start: "\<not> slot < START_POSITION_MODEL" using four by (simp add: START_POSITION_MODEL_def word_less_nat_alt)
    note steps = if_not_P [OF start] base(2) bind_some if_P [OF lt]
    show ?thesis
    proof (cases "unat slot < 14")
      case True
      then have "slot < END_POSITION_MODEL" by (simp add: END_POSITION_MODEL_def word_less_nat_alt)
      note steps = steps if_P [OF this]
      have sub: "checked_sub32 slot START_POSITION_MODEL = Some (slot - 4)"
        using four by (simp add: checked_sub32_def START_POSITION_MODEL_def word_le_nat_alt)
      show ?thesis
        unfolding steps sub by (rule near [OF four True d1 r']) (use base(3) in \<open>simp only: base(1)\<close>)
    next
      case far14: False
      then have "\<not> slot < END_POSITION_MODEL" by (simp add: END_POSITION_MODEL_def word_less_nat_alt)
      note steps = steps if_not_P [OF this]
      have ge: "14 \<le> unat slot" using far14 by simp
      show ?thesis
        unfolding steps unfolding base(1) by (rule far [OF ge slot d1 r']) (use base(3) in \<open>simp only: base(1)\<close>)
    qed
  qed
  have "ends_with lzma_input_error P
      (bind (tree_at tree_decode detail0 (dd_position_slots d) (unat (min len (saturating_sub32 LENGTH_STATES 1))) r)
        (\<lambda>(slot, slots, r'). if slot < START_POSITION_MODEL then ret (slot, d\<lparr>dd_position_slots := slots\<rparr>, r')
       else bind (ok_or (checked_sub32 (drop_bit 1 slot) 1) e1) (\<lambda>bits.
         bind (ok_or (if unat bits < 32 then Some (push_bit (unat bits) (2 OR (slot AND 1))) else None) e2) (\<lambda>base.
         if slot < END_POSITION_MODEL
         then bind (ok_or (checked_sub32 slot START_POSITION_MODEL) e3) (\<lambda>model.
           bind (tree_at tree_decode_reverse detail (dd_position_models (d\<lparr>dd_position_slots := slots\<rparr>)) (unat model) r')
             (\<lambda>(suffix, models, r).
           bind (ok_or (checked_add32 base suffix) e4)
             (\<lambda>v. ret (v, d\<lparr>dd_position_slots := slots, dd_position_models := models\<rparr>, r))))
         else distance_far (d\<lparr>dd_position_slots := slots\<rparr>) r' (unat bits) base))) s)"
    for detail detail0 e1 e2 e3 e4
  proof (rule bind_tree_at [OF ok(1) i r tree_decode_ends])
    fix v :: u32 and ts r' and t :: "'a control_scheme"
    assume post: "unat v < 2 ^ (replicate 4 6 ! unat (min len (saturating_sub32 LENGTH_STATES 1)))"
      "trees_ok (replicate 4 6) ts" "lzma_range_ok r'"
    have "replicate 4 (6::nat) ! j = 6" if "j < 4" for j using that by (rule nth_replicate)
    then have "unat v < 64" using post(1) i by (simp del: One_nat_def)
    show "ends_with lzma_input_error P ((case (v, ts, r') of (slot, slots, r') \<Rightarrow>
      if slot < START_POSITION_MODEL then ret (slot, d\<lparr>dd_position_slots := slots\<rparr>, r')
       else bind (ok_or (checked_sub32 (drop_bit 1 slot) 1) e1) (\<lambda>bits.
         bind (ok_or (if unat bits < 32 then Some (push_bit (unat bits) (2 OR (slot AND 1))) else None) e2) (\<lambda>base.
         if slot < END_POSITION_MODEL
         then bind (ok_or (checked_sub32 slot START_POSITION_MODEL) e3) (\<lambda>model.
           bind (tree_at tree_decode_reverse detail (dd_position_models (d\<lparr>dd_position_slots := slots\<rparr>)) (unat model) r')
             (\<lambda>(suffix, models, r).
           bind (ok_or (checked_add32 base suffix) e4)
             (\<lambda>v. ret (v, d\<lparr>dd_position_slots := slots, dd_position_models := models\<rparr>, r))))
         else distance_far (d\<lparr>dd_position_slots := slots\<rparr>) r' (unat bits) base))) t)"
      unfolding prod.case by (rule body [OF \<open>unat v < 64\<close> slots [OF post(2)] post(3)])
  qed simp_all
  then show ?thesis
    unfolding P_def by (simp add: distance_decode_def Let_def cong del: if_weak_cong del: One_nat_def)
qed

end
