(* ===== verification/LzmaLiteral.thy ===== *)
theory LzmaLiteral
  imports LzmaRangeFacts
begin

unbundle bit_operations_syntax

text \<open>
  The decoders of LZMA and LZMA2 return: the literals, the state machine and the output on top of
  \<open>LzmaRangeFacts\<close>.
\<close>

section \<open>Literals\<close>

lemma unat_less_take_bit:
  assumes "k < LENGTH('a)"
  shows "unat (w::'a::len word) < 2 ^ k \<longleftrightarrow> take_bit k w = w"
proof -
  have "take_bit k w = w \<longleftrightarrow> take_bit k (unat w) = unat w"
    by (metis unsigned_take_bit_eq word_unat_eq_iff)
  then show ?thesis by (simp add: take_bit_nat_eq_self_iff)
qed

definition literal_ok :: "literal_decoder \<Rightarrow> bool" where
  "literal_ok d \<longleftrightarrow> lt_context_bits d + lt_position_bits d \<le> 4
     \<and> fairs (2 ^ (lt_context_bits d + lt_position_bits d) * 0x300) (lt_probabilities d)"

lemma literal_base_ok:
  assumes d: "literal_ok d"
  shows "\<exists>base. literal_base d previous position s = (Inr base, s) \<and> base + 0x300 \<le> length (lt_probabilities d)"
proof -
  let ?lc = "lt_context_bits d" and ?lp = "lt_position_bits d"
  have bits: "?lc + ?lp \<le> 4" and len: "length (lt_probabilities d) = 2 ^ (?lc + ?lp) * 0x300"
    using d by (simp_all add: literal_ok_def fairs_def)
  have "?lp < LENGTH(64)" using bits by simp
  then have nonzero: "push_bit ?lp (1::u64) \<noteq> 0" by (simp add: push_bit_eq_mult)
  have low: "x AND (push_bit ?lp 1 - 1) = take_bit ?lp x" for x :: u64
    by (simp add: push_bit_of_1 take_bit_eq_mask flip: mask_eq_exp_minus_1)
  define st where "st = push_bit ?lc (take_bit ?lp (of_nat position :: u64))
    OR drop_bit (8 - ?lc) (ucast previous :: u64)"
  have previous: "take_bit (?lc + ?lp) (drop_bit (8 - ?lc) (ucast previous :: u64)) = drop_bit (8 - ?lc) (ucast previous)"
  proof (rule bit_word_eqI)
    fix i assume "i < LENGTH(64)"
    have "8 \<le> 8 - ?lc + i" if "\<not> i < ?lc + ?lp" using that bits by arith
    moreover have "\<not> bit previous j" if "8 \<le> j" for j
      using that bit_imp_le_length [of previous j] by auto
    ultimately show "bit (take_bit (?lc + ?lp) (drop_bit (8 - ?lc) (ucast previous :: u64))) i
      = bit (drop_bit (8 - ?lc) (ucast previous :: u64)) i"
      by (auto simp: bit_simps)
  qed
  have "take_bit (?lc + ?lp) st = st"
    unfolding st_def take_bit_or previous by (simp add: take_bit_push_bit)
  then have st: "unat st < 2 ^ (?lc + ?lp)" using bits by (subst unat_less_take_bit) simp_all
  have "(2::nat) ^ (?lc + ?lp) \<le> 2 ^ 4" using bits by (intro power_increasing) simp_all
  then have "unat st * 0x300 < 2 ^ 64" using st by simp
  then have mul: "checked_mul (unat st) 0x300 = Some (unat st * 0x300)" by (simp add: checked_mul_def)
  have widths: "?lp < 64" "?lc < 64" using bits by simp_all
  have "literal_base d previous position s = (Inr (unat st * 0x300), s)"
    unfolding literal_base_def if_P [OF widths(1)] if_P [OF widths(2)] Let_def if_not_P [OF nonzero] bind_some low
      st_def [symmetric] mul by (simp add: run)
  moreover have "unat st * 0x300 + 0x300 \<le> 2 ^ (?lc + ?lp) * 0x300" using st by simp
  ultimately show ?thesis by (simp add: len)
qed

lemma literal_bit_ends:
  assumes ps: "fairs n ps" and room: "base + 0x300 \<le> n" "n < 2 ^ 64" and index: "unat index < 0x300"
    and symbol: "unat symbol < 256" and r: "lzma_range_ok r"
  shows "ends_with lzma_input_error (\<lambda>(b, symbol', ps', r'). unat b < 2 \<and> unat symbol' = 2 * unat symbol + unat b
    \<and> fairs n ps' \<and> lzma_range_ok r') (literal_bit base index symbol ps r s)"
proof -
  have at: "checked_add base (unat index) = Some (base + unat index)" "base + unat index < n"
    using room index by (simp_all add: checked_add_def)
  have double: "unat (push_bit 1 symbol) = 2 * unat symbol"
    using symbol by (simp add: push_bit_eq_mult unat_word_ariths)
  show ?thesis
    unfolding literal_bit_def at(1) bind_some
  proof (rule bind_decode_at [OF ps at(2) r])
    fix b :: u32 and ps' r' and t :: "'a control_scheme"
    assume b: "unat b < 2" and post: "fairs n ps'" "lzma_range_ok r'"
    then have sum: "unat (push_bit 1 symbol) + unat b < 2 ^ 32" using symbol double by simp
    show "ends_with lzma_input_error (\<lambda>(b, symbol', ps', r'). unat b < 2 \<and> unat symbol' = 2 * unat symbol + unat b
      \<and> fairs n ps' \<and> lzma_range_ok r')
      ((case (b, ps', r') of (b, probabilities, r) \<Rightarrow>
        bind (ok_or (checked_add32 (push_bit 1 symbol) b) (format_error ''LZMA literal symbol overflows''))
          (\<lambda>symbol. ret (b, symbol, probabilities, r))) t)"
      unfolding prod.case plus32_run [OF sum] bind_some
      using b post plus32_unat [OF sum] double by (simp add: ends_with_run)
  qed assumption
qed

definition symbol_in :: "nat \<Rightarrow> u32 \<Rightarrow> bool" where
  "symbol_in k symbol \<longleftrightarrow> 2 ^ k \<le> unat symbol \<and> unat symbol < 2 ^ Suc k"

lemma symbol_in_less: "symbol_in k symbol \<Longrightarrow> k < 8 \<Longrightarrow> unat symbol < 256"
proof -
  assume "symbol_in k symbol" "k < 8"
  then have "unat symbol < 2 ^ Suc k" "(2::nat) ^ Suc k \<le> 2 ^ 8"
    unfolding symbol_in_def by (simp, intro power_increasing) simp_all
  then show ?thesis by simp
qed

lemma literal_plain_ends:
  assumes "fairs c ps" "base + 0x300 \<le> c" "c < 2 ^ 64" "symbol_in k symbol" "k \<le> 8" "8 \<le> k + n" "lzma_range_ok r"
  shows "ends_with lzma_input_error (\<lambda>(symbol', ps', r'). symbol_in 8 symbol' \<and> fairs c ps' \<and> lzma_range_ok r')
    (literal_plain n base symbol ps r s)"
  using assms
proof (induction n arbitrary: k symbol ps r s)
  case 0
  then have "k = 8" by simp
  then show ?case using 0 by (simp add: ends_with_run symbol_in_def word_less_nat_alt)
next
  case (Suc n)
  show ?case
  proof (cases "k = 8")
    case True
    then show ?thesis using Suc.prems by (simp add: ends_with_run symbol_in_def word_less_nat_alt)
  next
    case False
    then have symbol: "unat symbol < 256" using Suc.prems symbol_in_less by simp
    then have less: "symbol < 0x100" by (simp add: word_less_nat_alt)
    show ?thesis
      unfolding literal_plain.simps if_P [OF less]
    proof (rule ends_with_bind, rule literal_bit_ends [OF Suc.prems(1,2,3) _ symbol Suc.prems(7)])
      fix x :: "u32 \<times> u32 \<times> u16 list \<times> lzma_range" and t :: "'a control_scheme"
      assume x: "case x of (b, symbol', ps', r') \<Rightarrow> unat b < 2 \<and> unat symbol' = 2 * unat symbol + unat b
        \<and> fairs c ps' \<and> lzma_range_ok r'"
      obtain b symbol' ps' r' where xe: "x = (b, symbol', ps', r')" by (cases x)
      have "symbol_in (Suc k) symbol'" using x Suc.prems(4) by (simp add: xe symbol_in_def)
      then have "ends_with lzma_input_error (\<lambda>(symbol', ps', r'). symbol_in 8 symbol' \<and> fairs c ps' \<and> lzma_range_ok r')
          (literal_plain n base symbol' ps' r' t)"
        using x Suc.prems False by (intro Suc.IH [where k = "Suc k"]) (simp_all add: xe)
      then show "ends_with lzma_input_error (\<lambda>(symbol', ps', r'). symbol_in 8 symbol' \<and> fairs c ps' \<and> lzma_range_ok r')
          ((case x of (_, symbol, probabilities, r) \<Rightarrow> literal_plain n base symbol probabilities r) t)"
        by (simp add: xe)
    qed (use symbol in simp)
  qed
qed

lemma or_shifted: "unat (push_bit 8 x OR y) = unat (x::u32) * 256 + unat y" if "unat x < 3" "unat (y::u32) < 256"
proof -
  have "take_bit 8 y = y" using that(2) unat_less_take_bit [of 8 y] by simp
  then have "\<not> bit y i" if "8 \<le> i" for i using that by (metis bit_take_bit_iff leD)
  then have "push_bit 8 x OR y = push_bit 8 x + y"
    by (intro disjunctive_add_eq_or [symmetric] bit_eqI) (auto simp: bit_simps)
  then show ?thesis using that by (simp add: push_bit_eq_mult unat_word_ariths)
qed

lemma literal_matched_ends:
  assumes "fairs c ps" "base + 0x300 \<le> c" "c < 2 ^ 64" "symbol_in k symbol" "k < 8" "8 \<le> k + n" "lzma_range_ok r"
  shows "ends_with lzma_input_error (\<lambda>(symbol', ps', r'). (\<exists>j\<le>8. symbol_in j symbol') \<and> fairs c ps' \<and> lzma_range_ok r')
    (literal_matched n base symbol matched ps r s)"
  using assms
proof (induction n arbitrary: k symbol matched ps r s)
  case 0
  then show ?case by simp
next
  case (Suc n)
  let ?m = "drop_bit 7 matched AND 1 :: u32"
  have symbol: "unat symbol < 256" using Suc.prems symbol_in_less by simp
  have m: "unat ?m < 2" by (simp add: and_one_eq unat_mod)
  have sum: "unat (1::u32) + unat ?m < 2 ^ 32" using m by simp
  have "unat (1 + ?m) < 3" using plus32_unat [OF sum] m by simp
  then have index: "unat (push_bit 8 (1 + ?m) OR symbol) < 0x300" using symbol by (simp add: or_shifted)
  define P where "P = (\<lambda>(symbol', ps', r'). (\<exists>j\<le>8. symbol_in j symbol') \<and> fairs c ps' \<and> lzma_range_ok r')"
  have "ends_with lzma_input_error P
    (bind (literal_bit base (push_bit 8 (1 + ?m) OR symbol) symbol ps r) (\<lambda>(b, symbol, probabilities, r).
     if ?m \<noteq> b \<or> symbol \<ge> 0x100 then ret (symbol, probabilities, r)
     else literal_matched n base symbol (push_bit 1 matched) probabilities r) s)"
  proof (rule ends_with_bind, rule literal_bit_ends [OF Suc.prems(1,2,3) index symbol Suc.prems(7)])
    fix x :: "u32 \<times> u32 \<times> u16 list \<times> lzma_range" and t :: "'a control_scheme"
    assume x: "case x of (b, symbol', ps', r') \<Rightarrow> unat b < 2 \<and> unat symbol' = 2 * unat symbol + unat b
      \<and> fairs c ps' \<and> lzma_range_ok r'"
    obtain b symbol' ps' r' where xe: "x = (b, symbol', ps', r')" by (cases x)
    have k: "symbol_in (Suc k) symbol'" using x Suc.prems(4) by (simp add: xe symbol_in_def)
    have "ends_with lzma_input_error P (literal_matched n base symbol' (push_bit 1 matched) ps' r' t)" if "\<not> symbol' \<ge> 0x100"
    proof -
      have "\<not> 8 \<le> Suc k"
      proof
        assume "8 \<le> Suc k"
        then have "(2::nat) ^ 8 \<le> 2 ^ Suc k" by (intro power_increasing) simp_all
        then show False using that k by (simp add: word_le_nat_alt symbol_in_def)
      qed
      then show ?thesis
        unfolding P_def using x k Suc.prems(2,3,6) by (intro Suc.IH [where k = "Suc k"]) (simp_all add: xe)
    qed
    moreover have "ends_with lzma_input_error P (ret (symbol', ps', r') t)"
      using x k Suc.prems(5) by (auto simp: xe P_def ends_with_run intro!: exI [of _ "Suc k"])
    ultimately show "ends_with lzma_input_error P
      ((case x of (b, symbol, probabilities, r) \<Rightarrow>
        if ?m \<noteq> b \<or> symbol \<ge> 0x100 then ret (symbol, probabilities, r)
        else literal_matched n base symbol (push_bit 1 matched) probabilities r) t)"
      unfolding xe prod.case by (cases "?m \<noteq> b \<or> symbol' \<ge> 0x100") (simp_all only: if_P if_not_P de_Morgan_disj simp_thms)
  qed
  then show ?case
    unfolding literal_matched.simps Let_def plus32_run [OF sum] option.case bind_some P_def .
qed

lemma literal_decode_ends:
  assumes d: "literal_ok d" and r: "lzma_range_ok r"
  shows "ends_with lzma_input_error (\<lambda>(v, d', r'). literal_ok d' \<and> lzma_range_ok r')
    (literal_decode d r state matched previous position s)"
proof -
  obtain base where base: "literal_base d previous position s = (Inr base, s)" "base + 0x300 \<le> length (lt_probabilities d)"
    using literal_base_ok [OF d, of previous position s] by (elim exE conjE)
  let ?c = "length (lt_probabilities d)"
  have ps: "fairs ?c (lt_probabilities d)" using d by (simp add: literal_ok_def fairs_def)
  have "(2::nat) ^ (lt_context_bits d + lt_position_bits d) \<le> 2 ^ 4"
    using d by (intro power_increasing) (simp_all add: literal_ok_def)
  then have c: "?c < 2 ^ 64" using d by (simp add: literal_ok_def fairs_def)
  have one: "symbol_in 0 1" by (simp add: symbol_in_def)
  define P where "P = (\<lambda>(v :: u8, d', r'). literal_ok d' \<and> lzma_range_ok r')"
  have symbol: "ends_with lzma_input_error (\<lambda>(symbol', ps', r'). (\<exists>j\<le>8. symbol_in j symbol') \<and> fairs ?c ps' \<and> lzma_range_ok r')
      ((if state \<ge> 7 then literal_matched symbol_rounds base 1 (ucast matched) (lt_probabilities d) r
        else ret (1, lt_probabilities d, r)) s)"
  proof (cases "state \<ge> 7")
    case True
    show ?thesis
      unfolding if_P [OF True] by (rule literal_matched_ends [OF ps base(2) c one _ _ r]) (simp_all add: symbol_rounds_def)
  next
    case False
    show ?thesis
      unfolding if_not_P [OF False] using one ps r by (auto simp: ends_with_run intro!: exI [of _ 0])
  qed
  have finish: "ends_with lzma_input_error P
      (bind (ok_or (checked_sub32 symbol 0x100) e1) (\<lambda>v.
       bind (guard (v < 0x100) e2) (\<lambda>_. ret (ucast v, d\<lparr>lt_probabilities := ps'\<rparr>, r'))) t)"
    if "symbol_in 8 symbol" "fairs ?c ps'" "lzma_range_ok r'" for symbol e1 e2 ps' r' and t :: "'a control_scheme"
  proof -
    have le: "0x100 \<le> symbol" using that(1) by (simp add: symbol_in_def word_le_nat_alt)
    have "unat symbol - 256 < 256" using that(1) by (auto simp: symbol_in_def)
    then have "unat (symbol - 0x100) < 0x100" using le by (simp only: unat_sub) simp
    then have "symbol - 0x100 < 0x100" by (simp add: word_less_nat_alt)
    moreover have "literal_ok (d\<lparr>lt_probabilities := ps'\<rparr>)" using d that(2) by (simp add: literal_ok_def fairs_def)
    ultimately show ?thesis using le that(3) by (simp add: checked_sub32_def bind_some P_def ends_with_run run)
  qed
  have "ends_with lzma_input_error P (literal_decode d r state matched previous position s)"
    unfolding literal_decode_def
  proof (rule ends_with_step, rule base(1), rule ends_with_bind, rule symbol)
    fix x :: "u32 \<times> u16 list \<times> lzma_range" and t :: "'a control_scheme"
    assume x: "case x of (symbol', ps', r') \<Rightarrow> (\<exists>j\<le>8. symbol_in j symbol') \<and> fairs ?c ps' \<and> lzma_range_ok r'"
    obtain symbol' ps' r' where xe: "x = (symbol', ps', r')" by (cases x)
    obtain j where j: "j \<le> 8" "symbol_in j symbol'" and x: "fairs ?c ps'" "lzma_range_ok r'" using x by (auto simp: xe)
    have plain: "ends_with lzma_input_error (\<lambda>(symbol', ps', r'). symbol_in 8 symbol' \<and> fairs ?c ps' \<and> lzma_range_ok r')
        (literal_plain symbol_rounds base symbol' ps' r' t)"
      using j by (intro literal_plain_ends [OF x(1) base(2) c j(2) j(1) _ x(2)]) (simp add: symbol_rounds_def)
    show "ends_with lzma_input_error P
      ((case x of (symbol, probabilities, r) \<Rightarrow>
        bind (literal_plain symbol_rounds base symbol probabilities r) (\<lambda>(symbol, probabilities, r).
        bind (ok_or (checked_sub32 symbol 0x100) (format_error ''LZMA literal symbol underflows'')) (\<lambda>v.
        bind (guard (v < 0x100) (format_error ''LZMA literal is not representable'')) (\<lambda>_.
        ret (ucast v, d\<lparr>lt_probabilities := probabilities\<rparr>, r))))) t)"
      unfolding xe prod.case
    proof (rule ends_with_bind, rule plain)
      fix y :: "u32 \<times> u16 list \<times> lzma_range" and u :: "'a control_scheme"
      assume y: "case y of (symbol', ps', r') \<Rightarrow> symbol_in 8 symbol' \<and> fairs ?c ps' \<and> lzma_range_ok r'"
      show "ends_with lzma_input_error P
        ((case y of (symbol, probabilities, r) \<Rightarrow>
          bind (ok_or (checked_sub32 symbol 0x100) (format_error ''LZMA literal symbol underflows'')) (\<lambda>v.
          bind (guard (v < 0x100) (format_error ''LZMA literal is not representable'')) (\<lambda>_.
          ret (ucast v, d\<lparr>lt_probabilities := probabilities\<rparr>, r)))) u)"
        using y by (cases y) (auto intro!: finish)
    qed
  qed
  then show ?thesis unfolding P_def .
qed

end
