(* ===== verification/LzmaState.thy ===== *)
theory LzmaState
  imports LzmaLiteral
begin

unbundle bit_operations_syntax

section \<open>The state\<close>

definition lzma_ok :: "lzma_state \<Rightarrow> bool" where
  "lzma_ok st \<longleftrightarrow> length (lz_repetitions st) = 4 \<and> EOS_DISTANCE \<notin> set (lz_repetitions st)
     \<and> fairs 192 (lz_is_match st) \<and> fairs 192 (lz_is_rep_zero_long st) \<and> fairs 12 (lz_is_rep st)
     \<and> fairs 12 (lz_is_rep_zero st) \<and> fairs 12 (lz_is_rep_one st) \<and> fairs 12 (lz_is_rep_two st)
     \<and> literal_ok (lz_literal st) \<and> length_ok (lz_length st) \<and> length_ok (lz_repetition_length st)
     \<and> distance_ok (lz_distance st) \<and> lz_state st < 12 \<and> unat (lz_position_mask st) < 16"

definition operation_ok :: "operation \<Rightarrow> bool" where
  "operation_ok op \<longleftrightarrow>
     (case op of Match distance len \<Rightarrow> 1 \<le> unat distance \<and> 1 \<le> unat len \<and> unat len \<le> 273 | _ \<Rightarrow> True)"

definition step_ok :: "operation \<times> lzma_state \<times> lzma_range \<Rightarrow> bool" where
  "step_ok x = (case x of (op, st, r) \<Rightarrow> operation_ok op \<and> (op \<noteq> End \<longrightarrow> lzma_ok st) \<and> lzma_range_ok r)"

lemma repetition_at_run: "lzma_ok st \<Longrightarrow> i < 4 \<Longrightarrow> repetition_at st i = ret (lz_repetitions st ! i)"
  by (simp add: repetition_at_def get_at_def lzma_ok_def)

lemma repetition_not_eos: "lzma_ok st \<Longrightarrow> i < 4 \<Longrightarrow> lz_repetitions st ! i \<noteq> EOS_DISTANCE"
  by (metis lzma_ok_def nth_mem)

lemma set_repetition_ok: "lzma_ok st \<Longrightarrow> v \<noteq> EOS_DISTANCE \<Longrightarrow> lzma_ok (set_repetition i v st)"
  by (auto simp: lzma_ok_def set_repetition_def dest!: set_update_subset_insert [THEN subsetD])

lemma update_ok:
  "lzma_ok st \<Longrightarrow> lzma_ok (update_literal st)" "lzma_ok st \<Longrightarrow> lzma_ok (update_match st)"
  "lzma_ok st \<Longrightarrow> lzma_ok (update_repetition st)" "lzma_ok st \<Longrightarrow> lzma_ok (update_short_repetition st)"
  by (auto simp: lzma_ok_def update_literal_def update_match_def update_repetition_def update_short_repetition_def)

lemma next_distance:
  assumes "v \<noteq> EOS_DISTANCE"
  shows "checked_add32 v 1 = Some (v + 1)" "unat (v + 1) = unat v + 1"
proof -
  have "unat v \<noteq> 2 ^ 32 - 1"
  proof
    assume "unat v = 2 ^ 32 - 1"
    then have "unat v = unat EOS_DISTANCE" by (simp add: EOS_DISTANCE_def)
    then show False using assms by (simp add: word_unat_eq_iff)
  qed
  then have "unat v + unat (1::u32) < 2 ^ 32" using unat_u32_less [of v] by simp
  then show "checked_add32 v 1 = Some (v + 1)" "unat (v + 1) = unat v + 1"
    using plus32_run plus32_unat by fastforce+
qed

lemma match_length:
  assumes "unat v < 272"
  shows "checked_add32 v MIN_MATCH_LENGTH = Some (v + 2)" "unat (v + 2) = unat v + 2"
proof -
  have "unat v + unat (2::u32) < 2 ^ 32" using assms by simp
  then show "checked_add32 v MIN_MATCH_LENGTH = Some (v + 2)" "unat (v + 2) = unat v + 2"
    unfolding MIN_MATCH_LENGTH_def using plus32_run plus32_unat by fastforce+
qed

section \<open>One operation\<close>

lemma new_literal_ends:
  assumes st: "lzma_ok st" and r: "lzma_range_ok r"
  shows "ends_with lzma_input_error step_ok (new_literal st r out position s)"
proof -
  have literal: "literal_ok (lz_literal st)" using st by (simp add: lzma_ok_def)
  have "lzma_ok (update_literal (st\<lparr>lz_literal := d\<rparr>))" if "literal_ok d" for d
    using st that by (intro update_ok) (simp add: lzma_ok_def)
  then show ?thesis
    unfolding new_literal_def repetition_at_run [OF st zero_less_numeral] bind_ret
    by (intro ends_with_bind [OF literal_decode_ends [OF literal r]])
      (auto simp: ends_with_run step_ok_def operation_ok_def)
qed

lemma new_match_ends:
  assumes st: "lzma_ok st" and r: "lzma_range_ok r" and i: "i < 16"
  shows "ends_with lzma_input_error step_ok (new_match st r i s)"
proof -
  have at: "repetition_at st 0 = ret (lz_repetitions st ! 0)" "repetition_at st 1 = ret (lz_repetitions st ! 1)"
    "repetition_at st 2 = ret (lz_repetitions st ! 2)"
    using st by (simp_all add: repetition_at_run)
  define st1 where "st1 = update_match (set_repetition 1 (lz_repetitions st ! 0)
    (set_repetition 2 (lz_repetitions st ! 1) (set_repetition 3 (lz_repetitions st ! 2) st)))"
  have st1: "lzma_ok st1"
    unfolding st1_def using st by (intro update_ok set_repetition_ok repetition_not_eos) simp_all
  have ok: "length_ok (lz_length st1)" "distance_ok (lz_distance st1)" using st1 by (simp_all add: lzma_ok_def)
  have last: "ends_with lzma_input_error step_ok
      (if distance = EOS_DISTANCE then ret (End, st3, r') t
       else bind (ok_or (checked_add32 distance 1) e1) (\<lambda>distance.
         bind (ok_or (checked_add32 len MIN_MATCH_LENGTH) e2) (\<lambda>len. ret (Match distance len, st3, r'))) t)"
    if "unat len < 272" "length_ok ld" "distance_ok dd" "lzma_range_ok r'"
      "st3 = set_repetition 0 distance (st1\<lparr>lz_length := ld, lz_distance := dd\<rparr>)"
    for distance len ld dd st3 r' e1 e2 and t :: "'a control_scheme"
  proof (cases "distance = EOS_DISTANCE")
    case True
    then show ?thesis using that by (simp add: ends_with_run step_ok_def operation_ok_def)
  next
    case False
    have "lzma_ok st3" unfolding that(5) using st1 that False by (intro set_repetition_ok) (simp_all add: lzma_ok_def)
    then show ?thesis
      using that False next_distance [OF False] match_length [OF that(1)]
      by (simp add: bind_some ends_with_run step_ok_def operation_ok_def)
  qed
  show ?thesis
    unfolding new_match_def at bind_ret Let_def
    unfolding st1_def [symmetric]
  proof (rule ends_with_bind, rule length_decode_ends [OF ok(1) r i])
    fix x :: "u32 \<times> length_decoder \<times> lzma_range" and t :: "'a control_scheme"
    assume x: "case x of (v, d', r') \<Rightarrow> unat v < 272 \<and> length_ok d' \<and> lzma_range_ok r'"
    obtain len ld r1 where xe: "x = (len, ld, r1)" by (cases x)
    have x: "unat len < 272" "length_ok ld" "lzma_range_ok r1" using x by (simp_all add: xe)
    have d: "distance_ok (lz_distance (st1\<lparr>lz_length := ld\<rparr>))" using ok by simp
    show "ends_with lzma_input_error step_ok
      ((case x of (length_offset, d, r) \<Rightarrow>
        bind (distance_decode (lz_distance (st1\<lparr>lz_length := d\<rparr>)) r length_offset) (\<lambda>(distance_offset, da, r).
        if distance_offset = EOS_DISTANCE
        then ret (End, set_repetition 0 distance_offset (st1\<lparr>lz_length := d, lz_distance := da\<rparr>), r)
        else bind (ok_or (checked_add32 distance_offset 1) (format_error ''LZMA match distance overflows'')) (\<lambda>distance.
          bind (ok_or (checked_add32 length_offset MIN_MATCH_LENGTH) (format_error ''LZMA match length overflows'')) (\<lambda>len.
          ret (Match distance len, set_repetition 0 distance_offset (st1\<lparr>lz_length := d, lz_distance := da\<rparr>), r))))) t)"
      unfolding xe prod.case
    proof (rule ends_with_bind, rule distance_decode_ends [OF d x(3)])
      fix y :: "u32 \<times> distance_decoder \<times> lzma_range" and u :: "'a control_scheme"
      assume y: "case y of (v, d', r') \<Rightarrow> distance_ok d' \<and> lzma_range_ok r'"
      obtain distance dd r2 where ye: "y = (distance, dd, r2)" by (cases y)
      have y: "distance_ok dd" "lzma_range_ok r2" using y by (simp_all add: ye)
      note final = last [OF x(1,2) y refl, of distance u "format_error ''LZMA match distance overflows''"
          "format_error ''LZMA match length overflows''"]
      show "ends_with lzma_input_error step_ok
        ((case y of (distance_offset, da, r) \<Rightarrow>
          if distance_offset = EOS_DISTANCE
          then ret (End, set_repetition 0 distance_offset (st1\<lparr>lz_length := ld, lz_distance := da\<rparr>), r)
          else bind (ok_or (checked_add32 distance_offset 1) (format_error ''LZMA match distance overflows'')) (\<lambda>distance.
            bind (ok_or (checked_add32 len MIN_MATCH_LENGTH) (format_error ''LZMA match length overflows'')) (\<lambda>len.
            ret (Match distance len, set_repetition 0 distance_offset (st1\<lparr>lz_length := ld, lz_distance := da\<rparr>), r)))) u)"
        unfolding ye prod.case using final by (cases "distance = EOS_DISTANCE") (simp_all only: if_P if_not_P simp_thms if_True if_False)
    qed
  qed
qed

lemma repetition_match_ends:
  assumes st: "lzma_ok st" and r: "lzma_range_ok r" and i: "i < 16" and v: "v \<noteq> EOS_DISTANCE"
  shows "ends_with lzma_input_error step_ok (repetition_match st r i v s)"
proof -
  have d: "length_ok (lz_repetition_length st)" using st by (simp add: lzma_ok_def)
  have "lzma_ok (update_repetition (st\<lparr>lz_repetition_length := d\<rparr>))" if "length_ok d" for d
    using st that by (intro update_ok) (simp add: lzma_ok_def)
  then show ?thesis
    unfolding repetition_match_def Let_def next_distance(1) [OF v] bind_some
    by (intro ends_with_bind [OF length_decode_ends [OF d r i]])
      (auto simp: ends_with_run step_ok_def operation_ok_def match_length bind_some next_distance [OF v])
qed

lemma older_tail:
  assumes st: "lzma_ok st" and r: "lzma_range_ok r"
  shows "ends_with lzma_input_error (\<lambda>(v, st', r'). v \<noteq> EOS_DISTANCE \<and> lzma_ok st' \<and> lzma_range_ok r')
    (bind (if b = (0::u32) then bind (repetition_at st 2) (\<lambda>distance. ret (distance, st))
       else bind (repetition_at st 3) (\<lambda>v. bind (repetition_at st 2) (\<lambda>rep2. ret (v, set_repetition 3 rep2 st))))
      (\<lambda>(distance, st). bind (repetition_at st 1) (\<lambda>rep1. ret (distance, set_repetition 2 rep1 st, r))) s)"
proof -
  note not_eos = repetition_not_eos [OF st]
  have st3: "lzma_ok (set_repetition 3 (lz_repetitions st ! 2) st)" using st not_eos by (simp add: set_repetition_ok)
  show ?thesis
    using st r st3 not_eos
    by (simp add: repetition_at_run [OF st] repetition_at_run [OF st3] ends_with_run set_repetition_ok
        repetition_not_eos [OF st3])
qed

lemma older_repetition_ends:
  assumes st: "lzma_ok st" and r: "lzma_range_ok r"
  shows "ends_with lzma_input_error (\<lambda>(v, st', r'). v \<noteq> EOS_DISTANCE \<and> lzma_ok st' \<and> lzma_range_ok r')
    (older_repetition st r s)"
proof -
  define P where "P = (\<lambda>(v, st', r'). v \<noteq> EOS_DISTANCE \<and> lzma_ok st' \<and> lzma_range_ok r')"
  have ok: "fairs 12 (lz_is_rep_one st)" "fairs 12 (lz_is_rep_two st)" "lz_state st < 12"
    using st by (simp_all add: lzma_ok_def)
  have one: "lzma_ok (st\<lparr>lz_is_rep_one := ps\<rparr>)" if "fairs 12 ps" for ps using st that by (simp add: lzma_ok_def)
  have two: "lzma_ok (st\<lparr>lz_is_rep_one := ps, lz_is_rep_two := ps'\<rparr>)" if "fairs 12 ps" "fairs 12 ps'" for ps ps'
    using st that by (simp add: lzma_ok_def)
  have "ends_with lzma_input_error P (older_repetition st r s)"
    unfolding older_repetition_def Let_def
  proof (rule bind_decode_at [OF ok(1,3) r], goal_cases)
    case (1 b ps r1 t)
    have near: "ends_with lzma_input_error P
        (bind (repetition_at (st\<lparr>lz_is_rep_one := ps\<rparr>) 1) (\<lambda>distance. ret (distance, st\<lparr>lz_is_rep_one := ps\<rparr>, r1)) t)"
      using repetition_not_eos [OF st, of 1] 1
      by (simp add: repetition_at_run [OF one [OF 1(2)]] one ends_with_run P_def)
    show ?case
    proof (cases "b = 0")
      case True
      show ?thesis unfolding prod.case if_P [OF True] by (rule near)
    next
      case False
      have i: "lz_state (st\<lparr>lz_is_rep_one := ps\<rparr>) < 12" and f: "fairs 12 (lz_is_rep_two (st\<lparr>lz_is_rep_one := ps\<rparr>))"
        using ok by simp_all
      show ?thesis
        unfolding prod.case if_not_P [OF False]
      proof (rule bind_decode_at [OF f i 1(3)], goal_cases)
        case (1 b' ps' r' t')
        then show ?case
          unfolding prod.case P_def using \<open>fairs 12 ps\<close> by (intro older_tail two)
      qed
    qed
  qed
  then show ?thesis unfolding P_def .
qed

lemma old_match_ends:
  assumes st: "lzma_ok st" and r: "lzma_range_ok r" and i: "i < 16" and j: "j < 192"
  shows "ends_with lzma_input_error step_ok (old_match st r i j s)"
proof -
  have ok: "fairs 12 (lz_is_rep_zero st)" "lz_state st < 12" using st by (simp_all add: lzma_ok_def)
  have rep0: "repetition_at st 0 = ret (lz_repetitions st ! 0)" by (simp add: repetition_at_run [OF st])
  note not_eos = repetition_not_eos [OF st zero_less_numeral]
  show ?thesis
    unfolding old_match_def Let_def rep0 bind_ret
  proof (rule bind_decode_at [OF ok r], goal_cases)
    case (1 b ps r1 t)
    let ?st = "st\<lparr>lz_is_rep_zero := ps\<rparr>"
    have ok: "lzma_ok ?st" "fairs 192 (lz_is_rep_zero_long ?st)" using st 1 by (simp_all add: lzma_ok_def)
    show ?case
    proof (cases "b = 0")
      case True
      show ?thesis
        unfolding prod.case if_P [OF True]
      proof (rule bind_decode_at [OF ok(2) j 1(3)], goal_cases)
        case (1 b' ps' r' t')
        have st': "lzma_ok (?st\<lparr>lz_is_rep_zero_long := ps'\<rparr>)" using ok 1 by (simp add: lzma_ok_def)
        show ?case
        proof (cases "b' = 0")
          case True
          then show ?thesis
            using update_ok(4) [OF st'] 1 next_distance [OF not_eos]
            by (simp add: bind_some ends_with_run step_ok_def operation_ok_def)
        next
          case False
          show ?thesis
            unfolding prod.case if_not_P [OF False] by (rule repetition_match_ends [OF st' 1(3) i not_eos])
        qed
      qed
    next
      case False
      show ?thesis
        unfolding prod.case if_not_P [OF False]
      proof (rule ends_with_bind, rule older_repetition_ends [OF ok(1) 1(3)], goal_cases)
        case (1 x u)
        obtain v st2 r2 where xe: "x = (v, st2, r2)" by (cases x)
        have x: "v \<noteq> EOS_DISTANCE" "lzma_ok st2" "lzma_range_ok r2" using 1 by (simp_all add: xe)
        have st3: "lzma_ok (set_repetition 0 v (set_repetition 1 (lz_repetitions st2 ! 0) st2))"
          using x repetition_not_eos [OF x(2)] by (simp add: set_repetition_ok)
        have rep0: "repetition_at st2 0 = ret (lz_repetitions st2 ! 0)" by (simp add: repetition_at_run [OF x(2)])
        show ?case
          unfolding xe prod.case rep0 bind_ret by (rule repetition_match_ends [OF st3 x(3) i x(1)])
      qed
    qed
  qed
qed

lemma and_le: "unat (x AND m) \<le> unat (m :: 'a::len word)"
  by (metis word_and_le1 word_le_nat_alt)

lemma decode_operation_ends:
  assumes st: "lzma_ok st" and r: "lzma_range_ok r" and out: "length (lo_bytes out) < 2 ^ 64"
  shows "ends_with lzma_input_error step_ok (decode_operation st r out s)"
proof -
  have position: "output_position out = ret (length (lo_bytes out))" using out by (simp add: output_position_def usize_to_u64_def)
  define i where "i = unat ((of_nat (length (lo_bytes out)) :: u64) AND lz_position_mask st)"
  have ok: "fairs 192 (lz_is_match st)" "lz_state st < 12" using st by (simp_all add: lzma_ok_def)
  have i: "i < 16" unfolding i_def using st by (intro le_less_trans [OF and_le]) (simp add: lzma_ok_def)
  then have j: "lz_state st * 16 + i < 192" using ok by simp
  have combined: "(case checked_mul (lz_state st) POSITION_STATES of None \<Rightarrow> None | Some v \<Rightarrow> checked_add v i)
      = Some (lz_state st * 16 + i)"
    using j by (simp add: checked_mul_def checked_add_def POSITION_STATES_def)
  show ?thesis
    unfolding decode_operation_def Let_def position bind_ret i_def [symmetric] combined bind_some
  proof (rule ends_with_skip [OF ends_with_checkpoint], rule bind_decode_at [OF ok(1) j r], goal_cases)
    case (1 x t b ps r1 t')
    have st1: "lzma_ok (st\<lparr>lz_is_match := ps\<rparr>)" using st 1 by (simp add: lzma_ok_def)
    have ok1: "fairs 12 (lz_is_rep (st\<lparr>lz_is_match := ps\<rparr>))" "lz_state (st\<lparr>lz_is_match := ps\<rparr>) < 12"
      using st by (simp_all add: lzma_ok_def)
    show ?case
    proof (cases "b = 0")
      case True
      show ?thesis unfolding prod.case if_P [OF True] by (rule new_literal_ends [OF st1 1(3)])
    next
      case False
      show ?thesis
        unfolding prod.case if_not_P [OF False]
      proof (rule bind_decode_at [OF ok1 1(3)], goal_cases)
        case (1 b' ps' r' t')
        have st2: "lzma_ok (st\<lparr>lz_is_match := ps, lz_is_rep := ps'\<rparr>)" using st1 1 by (simp add: lzma_ok_def)
        show ?case
          using new_match_ends [OF st2 1(3) i] old_match_ends [OF st2 1(3) i j]
          by (cases "b' = 0") (simp_all only: prod.case if_P if_not_P simp_thms if_True if_False)
      qed
    qed
  qed
qed

end
