(* ===== verification/LzmaOutput.thy ===== *)
theory LzmaOutput
  imports Lzma Bcj2Facts
begin

text \<open>
  The output of LZMA refines the sliding dictionary of LZ77: a match appends the periodic extension
  of the last \<open>distance\<close> bytes, and it is refused exactly when the distance reaches beyond the
  history, the dictionary or the output limit.
\<close>

section \<open>The specification of a match\<close>

definition lz_extend :: "nat \<Rightarrow> nat \<Rightarrow> 'a list \<Rightarrow> 'a list" where
  "lz_extend d n bytes = bytes @ map (\<lambda>i. bytes ! (length bytes - d + i mod d)) [0..<n]"

lemma length_lz_extend [simp]: "length (lz_extend d n bytes) = length bytes + n"
  by (simp add: lz_extend_def)

lemma lz_extend_0 [simp]: "lz_extend d 0 bytes = bytes"
  by (simp add: lz_extend_def)

lemma lz_extend_Suc:
  assumes "1 \<le> d" "d \<le> length bytes"
  shows "lz_extend d n (bytes @ [bytes ! (length bytes - d)]) = lz_extend d (Suc n) bytes"
proof -
  have "(bytes @ [bytes ! (length bytes - d)]) ! (Suc (length bytes) - d + i mod d)
      = bytes ! (length bytes - d + Suc i mod d)" for i
  proof (cases "Suc (i mod d) = d")
    case True
    then have "Suc i mod d = 0" "Suc (length bytes) - d + i mod d = length bytes"
      using assms by (simp_all add: mod_Suc)
    then show ?thesis by simp
  next
    case False
    then have "Suc i mod d = Suc (i mod d)" by (simp add: mod_Suc)
    moreover have "i mod d < d" using assms by simp
    ultimately have "Suc (length bytes) - d + i mod d = length bytes - d + Suc i mod d"
      "length bytes - d + Suc i mod d < length bytes"
      using False assms by linarith+
    then show ?thesis by (simp add: nth_append)
  qed
  then show ?thesis
    using assms by (simp add: lz_extend_def upt_conv_Cons map_Suc_upt [symmetric] o_def del: upt_Suc)
qed

section \<open>The operations of the output\<close>

definition out_ok :: "lzma_output \<Rightarrow> bool" where
  "out_ok out \<longleftrightarrow> lo_dictionary_start out \<le> length (lo_bytes out) \<and> length (lo_bytes out) \<le> lo_maximum out
     \<and> lo_maximum out + 273 < 2 ^ 64"

lemma position_run: "length (lo_bytes out) < 2 ^ 64 \<Longrightarrow> output_position out = ret (length (lo_bytes out))"
  by (simp add: output_position_def usize_to_u64_def)

lemma available_run:
  "lo_dictionary_start out \<le> length (lo_bytes out) \<Longrightarrow> length (lo_bytes out) < 2 ^ 64
    \<Longrightarrow> dictionary_length out = ret (length (lo_bytes out) - lo_dictionary_start out)"
  by (simp add: dictionary_length_def checked_sub_def bind_some usize_to_u64_def less_imp_diff_less)

lemma ends_with_reserve_with: "ends_with E (\<lambda>_. True) (reserve_with m k t)"
  by (auto simp: ends_with_def split: prod.split sum.split dest: reserve_with_Inl)

lemma ensure_additional_ends:
  assumes "length (lo_bytes out) + n < 2 ^ 64"
    and "lo_maximum out < length (lo_bytes out) + n \<Longrightarrow>
      E (LimitExceeded TotalOutputBytes (length (lo_bytes out) + n) (lo_maximum out))"
    and "\<And>t. length (lo_bytes out) + n \<le> lo_maximum out \<Longrightarrow> ends_with E P (f () t)"
  shows "ends_with E P (bind (ensure_additional out n) f s)"
proof (rule ends_with_bind)
  show "ends_with E (\<lambda>_. length (lo_bytes out) + n \<le> lo_maximum out) (ensure_additional out n s)"
    using assms(1,2)
    by (auto simp: ensure_additional_def position_run checked_add_def bind_some u64_to_usize_def check_limit_def run
        intro: ends_with_mono [OF ends_with_reserve_with])
qed (use assms(3) in auto)

lemma output_push_ends:
  assumes "out_ok out"
  shows "ends_with (\<lambda>e. \<exists>v m. e = LimitExceeded TotalOutputBytes v m)
    (\<lambda>out'. out' = out\<lparr>lo_bytes := lo_bytes out @ [byte]\<rparr> \<and> length (lo_bytes out') \<le> lo_maximum out)
    (output_push byte out s)"
  unfolding output_push_def
  by (rule ensure_additional_ends, use assms in \<open>simp_all add: out_ok_def\<close>)
    (rule ends_with_skip [OF ends_with_checkpoint], simp add: ends_with_run)

lemma copy_bytes_loop_ends:
  assumes "1 \<le> d" "d \<le> length bytes"
  shows "ends_with E (\<lambda>out. out = lz_extend d n bytes) (copy_bytes_loop n d bytes s)"
  using assms(2)
proof (induction n arbitrary: bytes s)
  case 0
  then show ?case by (simp add: ends_with_run)
next
  case (Suc n)
  have "ends_with E (\<lambda>out. out = lz_extend d n (bytes @ [bytes ! (length bytes - d)]))
      (copy_bytes_loop n d (bytes @ [bytes ! (length bytes - d)]) t)" for t :: "'a control_scheme"
    using Suc.prems by (intro Suc.IH) simp
  moreover have "length bytes - d < length bytes" using Suc.prems assms(1) by simp
  ultimately show ?case
    unfolding copy_bytes_loop.simps lz_extend_Suc [OF assms(1) Suc.prems]
    by (intro ends_with_skip [OF ends_with_checkpoint])
      (use Suc.prems assms(1) in \<open>simp add: checked_sub_def bind_some get_at_def lz_extend_Suc\<close>)
qed

text \<open>The reasons a match is refused, each with its condition.\<close>

definition match_error :: "lzma_output \<Rightarrow> nat \<Rightarrow> nat \<Rightarrow> error \<Rightarrow> bool" where
  "match_error out d n e \<longleftrightarrow>
     (d = 0 \<and> e = Format ''LZMA match distance is zero'')
     \<or> (lo_dictionary_size out < d \<and> e = Format ''LZMA match distance exceeds the declared dictionary'')
     \<or> (length (lo_bytes out) - lo_dictionary_start out < d
        \<and> e = history_error d (length (lo_bytes out) - lo_dictionary_start out) (length (lo_bytes out)))
     \<or> (lo_maximum out < length (lo_bytes out) + n
        \<and> e = LimitExceeded TotalOutputBytes (length (lo_bytes out) + n) (lo_maximum out))"

definition match_allowed :: "lzma_output \<Rightarrow> nat \<Rightarrow> nat \<Rightarrow> bool" where
  "match_allowed out d n \<longleftrightarrow> 1 \<le> d \<and> d \<le> lo_dictionary_size out
     \<and> d \<le> length (lo_bytes out) - lo_dictionary_start out \<and> length (lo_bytes out) + n \<le> lo_maximum out"

lemma lzma_copy_match_ends:
  assumes "lo_dictionary_start out \<le> length (lo_bytes out)" "length (lo_bytes out) + unat len < 2 ^ 64"
  shows "ends_with (match_error out (unat distance) (unat len))
    (\<lambda>out'. match_allowed out (unat distance) (unat len)
      \<and> out' = out\<lparr>lo_bytes := lz_extend (unat distance) (unat len) (lo_bytes out)\<rparr>)
    (lzma_copy_match distance len out s)"
  (is "ends_with ?E ?P _")
proof -
  let ?d = "unat distance" and ?available = "length (lo_bytes out) - lo_dictionary_start out"
  have small: "length (lo_bytes out) < 2 ^ 64" using assms(2) by simp
  note runs = available_run [OF assms(1) small] position_run [OF small]
  have copy: "ends_with ?E ?P
      (bind (ensure_additional out (unat len)) (\<lambda>_. bind (copy_bytes_loop (unat len) ?d (lo_bytes out))
        (\<lambda>bytes. ret (out\<lparr>lo_bytes := bytes\<rparr>))) t)"
    if d: "?d \<noteq> 0" "?d \<le> lo_dictionary_size out" "?d \<le> ?available" for t :: "'a control_scheme"
    by (rule ensure_additional_ends [OF assms(2)], simp add: match_error_def, rule ends_with_bind,
        rule copy_bytes_loop_ends) (use d in \<open>simp_all add: ends_with_run match_allowed_def\<close>)
  show ?thesis
    unfolding lzma_copy_match_def Let_def runs bind_ret
  proof (intro ends_with_check, goal_cases)
    case 3
    then show ?case
      using copy by (cases "?d > ?available") (simp_all add: run ends_with_run match_error_def ends_with_def)
  qed (simp_all add: match_error_def format_error_def)
qed

text \<open>C15: Copying a match refines LZ77: from any output whose dictionary starts within it, the copy appends
  exactly the periodic extension of the last \<open>distance\<close> bytes and nothing else changes, and this
  happens only when the distance is not zero, within the declared dictionary and within the history
  since its last reset, and the output stays within its limit; each refusal names the condition that
  fails. The byte-by-byte loop never runs out of its source.\<close>

theorem lzma_copy_match_refines:
  assumes "lo_dictionary_start out \<le> length (lo_bytes out)" "length (lo_bytes out) + unat len < 2 ^ 64"
  shows "ends_with (match_error out (unat distance) (unat len))
    (\<lambda>out'. match_allowed out (unat distance) (unat len)
      \<and> out' = out\<lparr>lo_bytes := lz_extend (unat distance) (unat len) (lo_bytes out)\<rparr>)
    (lzma_copy_match distance len out s)"
  using assms by (rule lzma_copy_match_ends)

theorem lzma_copy_match_refines_witness:
  "ends_with (match_error \<lparr>lo_bytes = [1, 2, 3], lo_maximum = 9, lo_dictionary_size = 4096, lo_dictionary_start = 1\<rparr> 2 5)
    (\<lambda>out'. lo_bytes out' = [1, 2, 3, 2, 3, 2, 3, 2])
    (lzma_copy_match 2 5
      \<lparr>lo_bytes = [1, 2, 3], lo_maximum = 9, lo_dictionary_size = 4096, lo_dictionary_start = 1\<rparr> unlimited)"
  by (rule ends_with_mono [OF lzma_copy_match_refines]) (simp_all add: lz_extend_def upt_rec)

end
