(* ===== verification/LzmaFacts.thy ===== *)
theory LzmaFacts
  imports LzmaState LzmaOutput
begin

unbundle bit_operations_syntax

text \<open>
  The LZMA and LZMA2 decoders return on every input, with the output they promise or a named error
  of the input: the states they start from satisfy the invariants of \<open>LzmaState\<close>, and every round
  of their loops keeps them.
\<close>

section \<open>Errors\<close>

definition lzma_error :: "error \<Rightarrow> bool" where
  "lzma_error e \<longleftrightarrow> e \<in> Format ` {''truncated LZMA range stream'', ''LZMA range stream does not begin with zero'',
       ''invalid initial LZMA range state'', ''LZMA match distance exceeds the declared dictionary'',
       ''LZMA output exceeds its declared size'', ''LZMA range state is not final at EOS'',
       ''LZMA stream has trailing input after EOS'', ''LZMA EOS precedes its declared size'',
       ''LZMA properties must contain exactly five bytes'', ''invalid LZMA property byte'',
       ''invalid LZMA lc/lp/pb properties''}
     \<or> (\<exists>d a p. e = history_error d a p) \<or> (\<exists>v m. e = LimitExceeded TotalOutputBytes v m)"

lemma lzma_errorI:
  "lzma_input_error e \<Longrightarrow> lzma_error e" "lzma_error (LimitExceeded TotalOutputBytes v m)" "lzma_error (history_error d a p)"
  by (auto simp: lzma_error_def lzma_input_error_def)

section \<open>Fresh states\<close>

lemma fair_initial: "fair16 PROB_INITIAL"
  by (simp add: fair16_def PROB_INITIAL_def PROB_TOTAL_def PROB_BITS_def)

lemma fairs_initial: "fairs n (replicate n PROB_INITIAL)"
  using fair_initial by (simp add: fairs_def)

lemma tree_new_ends:
  assumes "1 \<le> bits" "bits \<le> 8"
  shows "ends_with E (\<lambda>t. tree_ok t \<and> pt_bits t = bits) (tree_new bits s)"
  unfolding tree_new_def
  by (rule ends_with_check, use assms in simp, rule ends_with_skip [OF ends_with_reserve])
    (use assms fairs_initial in \<open>simp add: ends_with_run tree_ok_def\<close>)

lemma repeat_for_ends:
  assumes "\<And>t. ends_with E P (m t)"
  shows "ends_with E (\<lambda>xs. length xs = n \<and> (\<forall>x\<in>set xs. P x)) (repeat_for n m s)"
proof (induction n arbitrary: s)
  case (Suc n)
  show ?case
    unfolding repeat_for.simps by (rule ends_with_bind, rule assms, rule ends_with_bind, rule Suc.IH) (simp add: ends_with_run)
qed (simp add: ends_with_run)

lemma map_for_ends:
  assumes "\<And>x t. x \<in> set xs \<Longrightarrow> ends_with E (P x) (f x t)"
  shows "ends_with E (\<lambda>ys. list_all2 P xs ys) (map_for f xs s)"
  using assms
proof (induction xs arbitrary: s)
  case (Cons x xs)
  show ?case
    unfolding map_for.simps
    by (rule ends_with_bind, rule Cons.prems, simp, rule ends_with_bind, rule Cons.IH, rule Cons.prems)
      (simp_all add: ends_with_run)
qed (simp add: ends_with_run)

lemma trees_replicate: "trees_ok (replicate n w) ts \<longleftrightarrow> length ts = n \<and> (\<forall>t\<in>set ts. tree_ok t \<and> pt_bits t = w)"
  by (auto simp: trees_ok_def list_all2_conv_all_nth all_set_conv_all_nth)

lemma length_new_ends: "ends_with E length_ok (length_new s)"
proof -
  have pair: "ends_with E (\<lambda>p. (tree_ok (fst p) \<and> pt_bits (fst p) = 3) \<and> tree_ok (snd p) \<and> pt_bits (snd p) = 3)
      (bind (tree_new 3) (\<lambda>low. bind (tree_new 3) (\<lambda>middle. ret (low, middle))) t)" for t :: "'b control_scheme"
    by (rule ends_with_bind, rule tree_new_ends, simp, simp, rule ends_with_bind, rule tree_new_ends) (simp_all add: ends_with_run)
  have high: "ends_with E (\<lambda>t. tree_ok t \<and> pt_bits t = 8) (tree_new 8 t)" for t :: "'b control_scheme"
    by (rule tree_new_ends) simp_all
  show ?thesis
    unfolding length_new_def
    by (rule ends_with_skip [OF ends_with_reserve], rule ends_with_skip [OF ends_with_reserve], rule ends_with_bind,
        rule repeat_for_ends, rule pair, rule ends_with_bind, rule high)
      (auto simp: ends_with_run length_ok_def trees_replicate fairs_initial POSITION_STATES_def)
qed

lemma distance_new_ends: "ends_with E distance_ok (distance_new s)"
proof -
  have models: "list_all2 (\<lambda>w t. tree_ok t \<and> pt_bits t = w) model_widths ts"
    if "list_all2 (\<lambda>slot t. tree_ok t \<and> pt_bits t = slot div 2 - 1) [unat START_POSITION_MODEL..<unat END_POSITION_MODEL] ts"
    for ts
    using that by (simp add: START_POSITION_MODEL_def END_POSITION_MODEL_def model_widths_def upt_rec list_all2_Cons1)
  have tree: "ends_with E (\<lambda>t. tree_ok t \<and> pt_bits t = slot div 2 - 1)
      (bind (ok_or (checked_sub (slot div 2) 1) e) tree_new t)"
    if "slot \<in> set [unat START_POSITION_MODEL..<unat END_POSITION_MODEL]" for slot e and t :: "'b control_scheme"
  proof -
    have "4 \<le> slot" "slot < 14" using that by (auto simp: START_POSITION_MODEL_def END_POSITION_MODEL_def)
    then have "1 \<le> slot div 2" "1 \<le> slot div 2 - 1" "slot div 2 - 1 \<le> 8" by arith+
    then show ?thesis by (simp add: checked_sub_def bind_some tree_new_ends)
  qed
  have slots: "ends_with E (\<lambda>t. tree_ok t \<and> pt_bits t = 6) (tree_new POSITION_SLOT_BITS t)" for t :: "'b control_scheme"
    unfolding POSITION_SLOT_BITS_def by (rule tree_new_ends) simp_all
  have align: "ends_with E (\<lambda>t. tree_ok t \<and> pt_bits t = 4) (tree_new ALIGN_BITS t)" for t :: "'b control_scheme"
    unfolding ALIGN_BITS_def by (rule tree_new_ends) simp_all
  have count: "checked_sub32 END_POSITION_MODEL START_POSITION_MODEL = Some 10"
    by (simp add: checked_sub32_def START_POSITION_MODEL_def END_POSITION_MODEL_def)
  show ?thesis
    unfolding distance_new_def count bind_some
    by (rule ends_with_skip [OF ends_with_reserve], rule ends_with_bind, rule repeat_for_ends, rule slots,
        rule ends_with_skip [OF ends_with_reserve], rule ends_with_bind, rule map_for_ends, rule tree, assumption,
        rule ends_with_bind, rule align)
      (auto simp: ends_with_run distance_ok_def trees_replicate LENGTH_STATES_def trees_ok_def [of model_widths] intro: models)
qed

lemma literal_new_ends:
  assumes "lc + lp \<le> 4"
  shows "ends_with E literal_ok (literal_new lc lp s)"
proof -
  have "(2::nat) ^ (lc + lp) \<le> 2 ^ 4" using assms by (intro power_increasing) simp_all
  then have mul: "checked_mul (2 ^ (lc + lp)) 0x300 = Some (2 ^ (lc + lp) * 0x300)" by (simp add: checked_mul_def)
  have width: "(if lc + lp < 2 ^ 32 then Some (lc + lp) else None) = Some (lc + lp)" using assms by simp
  show ?thesis
    unfolding literal_new_def width bind_some mul
    by (rule ends_with_check, use assms in simp, rule ends_with_skip [OF ends_with_reserve])
      (use assms in \<open>simp add: ends_with_run literal_ok_def fairs_initial\<close>)
qed

lemma lzma_state_new_ends:
  assumes "lc + lp \<le> 4" "pb \<le> 4"
  shows "ends_with E lzma_ok (lzma_state_new lc lp pb s)"
proof -
  have "pb \<in> {0, 1, 2, 3, 4}" using assms(2) by auto
  then have "unat (push_bit pb 1 - 1 :: u64) < 16" by auto
  then show ?thesis
    unfolding lzma_state_new_def
    by (intro ends_with_check ends_with_bind [OF literal_new_ends [OF assms(1)]] ends_with_bind [OF length_new_ends]
        ends_with_bind [OF distance_new_ends])
      (use assms(2) in \<open>simp_all add: ends_with_run lzma_ok_def fairs_initial STATE_COUNT_def POSITION_STATES_def
        EOS_DISTANCE_def del: replicate.simps\<close>)
qed

lemma properties_from_byte_ends:
  "ends_with lzma_error (\<lambda>(lc, lp, pb). lc + lp \<le> 4 \<and> pb \<le> 4) (properties_from_byte b s)"
  unfolding properties_from_byte_def Let_def
  by (intro ends_with_check) (simp_all add: ends_with_run lzma_error_def format_error_def)

lemma fill_initial_ok: "fairs n ps \<Longrightarrow> fairs n (fill_initial ps)"
  using fair_initial by (simp add: fairs_def fill_initial_def)

lemma tree_reset_ok: "tree_ok t \<Longrightarrow> tree_ok (tree_reset t)" "pt_bits (tree_reset t) = pt_bits t"
  by (simp_all add: tree_ok_def tree_reset_def fill_initial_ok)

lemma trees_reset_ok: "trees_ok ws ts \<Longrightarrow> trees_ok ws (map tree_reset ts)"
  by (auto simp: trees_ok_def list.rel_map tree_reset_ok elim: list_all2_mono)

lemma lzma_state_reset_ok: "lzma_ok st \<Longrightarrow> lzma_ok (lzma_state_reset st)"
  by (auto simp: lzma_ok_def lzma_state_reset_def fill_initial_ok literal_ok_def literal_reset_def length_ok_def length_reset_def
      distance_ok_def distance_reset_def trees_reset_ok tree_reset_ok EOS_DISTANCE_def)

section \<open>A stream\<close>

lemma lzma_code_bytes_ends:
  assumes "input_ok r"
  shows "ends_with lzma_input_error (\<lambda>r'. input_ok r' \<and> lr_range r' = lr_range r) (lzma_code_bytes n r s)"
  using assms
proof (induction n arbitrary: r s)
  case (Suc n)
  show ?case
    unfolding lzma_code_bytes.simps
  proof (rule ends_with_bind, rule lzma_read_byte_ends [OF Suc.prems], goal_cases)
    case (1 x t)
    obtain b r1 where x: "x = (b, r1)" by (cases x)
    have "ends_with lzma_input_error (\<lambda>r'. input_ok r' \<and> lr_range r' = lr_range r2) (lzma_code_bytes n r2 t)"
      if "input_ok r2" for r2 using that by (rule Suc.IH)
    from this [of "r1\<lparr>lr_code := push_bit 8 (lr_code r1) OR ucast b\<rparr>"] show ?case
      using 1 by (simp add: x input_ok_def)
  qed
qed (simp add: ends_with_run)

lemma lzma_range_new_ends:
  assumes "length input < 2 ^ 64"
  shows "ends_with lzma_error lzma_range_ok (lzma_range_new input s)"
proof -
  have start: "input_ok \<lparr>lr_input = input, lr_cursor = 0, lr_range = 0xffffffff, lr_code = 0\<rparr>"
    using assms by (simp add: input_ok_def)
  show ?thesis
    unfolding lzma_range_new_def
  proof (rule ends_with_bind_mono, rule lzma_read_byte_ends [OF start], rule lzma_errorI, assumption, goal_cases)
    case (1 x t)
    obtain b r where x: "x = (b, r)" by (cases x)
    have r: "input_ok r" "lr_range r = 0xffffffff" using 1 by (simp_all add: x)
    show ?case
      unfolding x prod.case
      by (rule ends_with_check, simp add: lzma_error_def format_error_def, rule ends_with_bind_mono,
          rule lzma_code_bytes_ends [OF r(1)], erule lzma_errorI, rule ends_with_check)
        (simp_all add: lzma_error_def format_error_def ends_with_run lzma_range_ok_def r)
  qed
qed

lemma apply_operation_ends:
  assumes out: "out_ok out" and op: "operation_ok op" "op \<noteq> End"
  shows "ends_with lzma_error (\<lambda>out'. out_ok out' \<and> lo_maximum out' = lo_maximum out
      \<and> length (lo_bytes out) < length (lo_bytes out')
      \<and> (\<forall>n. target = Some n \<longrightarrow> length (lo_bytes out) < n \<longrightarrow> length (lo_bytes out') \<le> n))
    (apply_operation target op out s)"
  (is "ends_with _ ?P _")
proof (cases op)
  case (Literal b)
  show ?thesis
    unfolding Literal apply_operation_def operation.case
    by (rule ends_with_mono, rule output_push_ends [OF out])
      (use out in \<open>auto simp: lzma_errorI out_ok_def\<close>)
next
  case (Match distance len)
  have len: "1 \<le> unat len" "unat len \<le> 273" and d: "1 \<le> unat distance" using op by (simp_all add: Match operation_ok_def)
  have room: "length (lo_bytes out) + unat len < 2 ^ 64" and small: "length (lo_bytes out) < 2 ^ 64"
    and start: "lo_dictionary_start out \<le> length (lo_bytes out)"
    using out len by (simp_all add: out_ok_def)
  have copy: "ends_with lzma_error ?P (lzma_copy_match distance len out t)"
    if "\<forall>n. target = Some n \<longrightarrow> length (lo_bytes out) + unat len \<le> n" for t :: "'a control_scheme"
  proof (rule ends_with_mono, rule lzma_copy_match_ends [OF start room], goal_cases)
    case (1 e)
    then show ?case using d by (auto simp: match_error_def lzma_errorI) (simp add: lzma_error_def)
  next
    case (2 out')
    then show ?case using out len that by (auto simp: match_allowed_def out_ok_def)
  qed
  show ?thesis
  proof (cases target)
    case None
    then show ?thesis using copy by (simp add: Match apply_operation_def)
  next
    case (Some n)
    have sum: "checked_add (length (lo_bytes out)) (unat len) = Some (length (lo_bytes out) + unat len)"
      using room by (simp add: checked_add_def)
    have "ends_with lzma_error ?P (bind (guard (length (lo_bytes out) + unat len \<le> n) (format_error ''LZMA output exceeds its declared size''))
        (\<lambda>_. lzma_copy_match distance len out) s)"
      by (rule ends_with_check) (use copy Some in \<open>simp_all add: lzma_error_def format_error_def\<close>)
    then show ?thesis
      by (simp add: Match apply_operation_def Some position_run [OF small] sum bind_some bind_assoc)
  qed
qed (use op in simp)

lemma end_of_stream_ends:
  assumes "out_ok out" "require_eos \<or> target \<noteq> None" "target \<noteq> Some (length (lo_bytes out))"
  shows "ends_with lzma_error (\<lambda>_. target = None) (end_of_stream target require_eos r out s)"
proof -
  have small: "length (lo_bytes out) < 2 ^ 64" using assms(1) by (simp add: out_ok_def)
  show ?thesis
    unfolding end_of_stream_def position_run [OF small] bind_ret
    by (intro ends_with_check)
      (use assms(2,3) in \<open>auto simp: lzma_error_def format_error_def ends_with_run guard_def run split: option.splits\<close>)
qed

lemma lzma_loop_ends:
  assumes "lzma_ok st" "lzma_range_ok r" "out_ok out" "\<forall>n. target = Some n \<longrightarrow> length (lo_bytes out) \<le> n"
    and eos: "require_eos \<or> target \<noteq> None"
  shows "ends_with lzma_error (\<lambda>(st', out'). out_ok out' \<and> lo_maximum out' = lo_maximum out
      \<and> (\<forall>n. target = Some n \<longrightarrow> length (lo_bytes out') = n \<and> lzma_ok st'))
    (lzma_loop target require_eos st r out (s :: 'z control_scheme))"
  using assms(1-4)
proof (induction "lo_maximum out - length (lo_bytes out)" arbitrary: st r out s rule: less_induct)
  case less
  define P where "P = (\<lambda>(st' :: lzma_state, out' :: lzma_output). out_ok out' \<and> lo_maximum out' = lo_maximum out
      \<and> (\<forall>n. target = Some n \<longrightarrow> length (lo_bytes out') = n \<and> lzma_ok st'))"
  have small: "length (lo_bytes out) < 2 ^ 64" using less.prems(3) by (simp add: out_ok_def)
  have "ends_with lzma_error P (lzma_loop target require_eos st r out s)"
  proof (cases "target = Some (length (lo_bytes out))")
    case True
    then show ?thesis
      using less.prems
      by (subst lzma_loop.simps) (simp add: position_run [OF small] branch_eq ends_with_run P_def)
  next
    case False
    show ?thesis
      unfolding lzma_loop.simps [of target require_eos st] position_run [OF small] bind_ret branch_eq if_not_P [OF False]
    proof (rule ends_with_bind_mono, rule decode_operation_ends [OF less.prems(1,2) small], erule lzma_errorI, goal_cases)
      case (1 x t)
      obtain op st1 r1 where x: "x = (op, st1, r1)" by (cases x)
      have op: "operation_ok op" "lzma_range_ok r1" using 1 by (simp_all add: x step_ok_def)
      show ?case
      proof (cases "op = End")
        case True
        show ?thesis
          unfolding x fst_conv snd_conv if_P [OF True]
          by (rule ends_with_bind, rule end_of_stream_ends [OF less.prems(3) eos False])
            (use less.prems(3) in \<open>simp add: ends_with_run P_def\<close>)
      next
        case False
        then have st1: "lzma_ok st1" using 1 by (simp add: x step_ok_def)
        show ?thesis
          unfolding x fst_conv snd_conv if_not_P [OF False]
        proof (rule ends_with_bind, rule apply_operation_ends [OF less.prems(3) op(1) False, of target], goal_cases)
          case (1 out' u)
          then have out': "out_ok out'" "lo_maximum out' = lo_maximum out"
            and longer: "length (lo_bytes out) < length (lo_bytes out')"
            and bound: "\<forall>n. target = Some n \<longrightarrow> length (lo_bytes out') \<le> n"
            using less.prems(4) \<open>target \<noteq> Some (length (lo_bytes out))\<close> by (auto simp: le_less)
          have "length (lo_bytes out') \<le> lo_maximum out" using out' by (simp add: out_ok_def)
          then have "lo_maximum out' - length (lo_bytes out') < lo_maximum out - length (lo_bytes out)"
            using longer out' by simp
          from less.hyps [OF this st1 op(2) out'(1) bound, of u] show ?case by (simp add: P_def out'(2))
        qed
      qed
    qed
  qed
  then show ?case unfolding P_def .
qed

lemma decode_stream_ends:
  assumes st: "lzma_ok st" and out: "out_ok out" and input: "length input < 2 ^ 64"
    and room: "\<And>n. increment = Some n \<Longrightarrow> length (lo_bytes out) + n < 2 ^ 64"
    and eos: "require_eos \<or> increment \<noteq> None"
  shows "ends_with lzma_error (\<lambda>(st', out'). out_ok out' \<and> lo_maximum out' = lo_maximum out
      \<and> (\<forall>n. increment = Some n \<longrightarrow> length (lo_bytes out') = length (lo_bytes out) + n \<and> lzma_ok st'))
    (decode_stream st input out increment require_eos s)"
  (is "ends_with _ ?P _")
proof -
  have small: "length (lo_bytes out) < 2 ^ 64" using out by (simp add: out_ok_def)
  let ?target = "map_option ((+) (length (lo_bytes out))) increment"
  have target: "(case increment of None \<Rightarrow> ret None | Some increment \<Rightarrow>
      bind (ok_or (checked_add (length (lo_bytes out)) increment) e) (\<lambda>n. ret (Some n))) = ret ?target" for e
    using room by (auto simp: checked_add_def bind_some split: option.splits)
  have loop: "ends_with lzma_error (\<lambda>(st', out'). out_ok out' \<and> lo_maximum out' = lo_maximum out
      \<and> (\<forall>n. increment = Some n \<longrightarrow> length (lo_bytes out') = length (lo_bytes out) + n \<and> lzma_ok st'))
    (bind (lzma_range_new input) (\<lambda>r. lzma_loop ?target require_eos st r out) t)" for t :: "'a control_scheme"
  proof (rule ends_with_bind, rule lzma_range_new_ends [OF input], rule ends_with_mono,
      rule lzma_loop_ends [OF st _ out], assumption, goal_cases)
    case (4 r t x)
    then show ?case by (cases increment) auto
  qed (use eos in auto)
  show ?thesis
    unfolding decode_stream_def position_run [OF small] bind_ret target
  proof (cases increment)
    case None
    then show "ends_with lzma_error ?P (bind (case ?target of None \<Rightarrow> ret ()
        | Some n \<Rightarrow> check_limit n (lo_maximum out) TotalOutputBytes)
        (\<lambda>_. bind (lzma_range_new input) (\<lambda>r. lzma_loop ?target require_eos st r out)) s)"
      using loop by simp
  next
    case (Some n)
    then show "ends_with lzma_error ?P (bind (case ?target of None \<Rightarrow> ret ()
        | Some n \<Rightarrow> check_limit n (lo_maximum out) TotalOutputBytes)
        (\<lambda>_. bind (lzma_range_new input) (\<lambda>r. lzma_loop ?target require_eos st r out)) s)"
      using loop by (auto intro!: ends_with_limit lzma_errorI)
  qed
qed

section \<open>LZMA\<close>

lemma output_new_ends:
  assumes "maximum + 273 < 2 ^ 64" "\<forall>n\<in>set_option expected. n < 2 ^ 64"
  shows "ends_with lzma_error (\<lambda>out. out_ok out \<and> lo_maximum out = maximum \<and> lo_bytes out = [])
    (output_new maximum dictionary expected s)"
  unfolding output_new_def
  by (rule ends_with_limit, simp add: lzma_errorI, rule ends_with_reserve_option)
    (use assms in \<open>auto simp: ends_with_run out_ok_def\<close>)

lemma lzma_dictionary_ends: "ends_with lzma_error (\<lambda>_. True) (lzma_dictionary properties s)"
  unfolding lzma_dictionary_def
  by (rule ends_with_check) (simp_all add: lzma_error_def format_error_def get_range_def get_at_def bind_some ends_with_run)

text \<open>C14: The LZMA decoder returns on every input, with an output within the limit and of the declared size
  if one is declared, or with one of the named errors of its input: a truncated, malformed or
  over-long stream, invalid properties, a distance beyond the history or the dictionary, or an output
  beyond its limit or declaration. No checked arithmetic fails, no probability, tree or repetition is
  indexed out of range, and eight rounds always complete a literal. The input, the declared size
  and the limit with the 273 bytes of one more match are representable as 64-bit counts.\<close>

theorem decode_lzma_ends:
  assumes "length input < 2 ^ 64" "maximum + 273 < 2 ^ 64" "\<forall>n\<in>set_option expected. n < 2 ^ 64"
  shows "ends_with lzma_error (\<lambda>out. length out \<le> maximum \<and> (\<forall>n\<in>set_option expected. length out = n))
    (decode_lzma input properties expected maximum s)"
proof -
  have body: "ends_with lzma_error (\<lambda>out. length out \<le> maximum \<and> (\<forall>n\<in>set_option expected. length out = n))
      (bind (lzma_state_new lc lp pb) (\<lambda>st. bind (output_new maximum dictionary expected) (\<lambda>out.
       bind (decode_stream st input out expected (expected = None)) (\<lambda>(st, out). ret (lo_bytes out)))) t)"
    if "lc + lp \<le> 4" "pb \<le> 4" for lc lp pb dictionary and t :: "'a control_scheme"
  proof (rule ends_with_bind, rule lzma_state_new_ends [OF that], rule ends_with_bind,
      rule output_new_ends [OF assms(2,3)], rule ends_with_bind, rule decode_stream_ends [OF _ _ assms(1)], goal_cases)
    case (5 st t out u x v)
    then show ?case by (auto simp: ends_with_run out_ok_def split: prod.splits)
  qed (use assms(3) in auto)
  show ?thesis
    unfolding decode_lzma_def
  proof (rule ends_with_bind, rule lzma_dictionary_ends, goal_cases)
    case (1 x t)
    show ?case
      unfolding case_prod_beta
      by (rule ends_with_bind, rule properties_from_byte_ends, rule body [unfolded case_prod_beta]) (auto split: prod.splits)
  qed
qed

theorem decode_lzma_ends_witness:
  "ends_with lzma_error (\<lambda>out. length out \<le> 5 \<and> (\<forall>n\<in>set_option (Some 3). length out = n))
    (decode_lzma [0, 0, 0, 0, 0, 7, 9 :: u8] [0x5d, 0, 0, 1, 0] (Some 3) 5 unlimited)"
  by (rule decode_lzma_ends) simp_all

end
