(* ===== verification/Lzma2Facts.thy ===== *)
theory Lzma2Facts
  imports LzmaFacts
begin

unbundle bit_operations_syntax

text \<open>
  LZMA2: the chunk loop returns on every input, and a stream of stored chunks decodes to the bytes
  it stores.
\<close>

section \<open>Reading the chunks\<close>

definition lzma2_error :: "error \<Rightarrow> bool" where
  "lzma2_error e \<longleftrightarrow> lzma_error e \<or> e \<in> Format ` {''truncated LZMA2 stream'', ''truncated LZMA2 chunk'',
       ''LZMA2 dictionary property is missing'', ''invalid LZMA2 dictionary property'',
       ''LZMA2 stream omits its initial dictionary reset'', ''LZMA2 compressed chunk omits required properties'',
       ''reserved LZMA2 control byte'', ''LZMA2 output exceeds its declared size'',
       ''LZMA2 stream has trailing bytes after EOS'', ''LZMA2 output size does not match its declaration''}"

lemma lzma2_errorI: "lzma_error e \<Longrightarrow> lzma2_error e"
  by (simp add: lzma2_error_def)

definition slice_ok :: "slice_cursor \<Rightarrow> bool" where
  "slice_ok c \<longleftrightarrow> sc_position c \<le> length (sc_bytes c) \<and> length (sc_bytes c) < 2 ^ 64"

definition after :: "slice_cursor \<Rightarrow> slice_cursor \<Rightarrow> bool" where
  "after c d \<longleftrightarrow> slice_ok d \<and> slice_moves c d"

lemma after_trans: "after c d \<Longrightarrow> after d e \<Longrightarrow> after c e"
  by (auto simp: after_def slice_moves_def)

lemma slice_read_u8_ends:
  assumes "slice_ok c"
  shows "ends_with lzma2_error (\<lambda>(b, d). after c d \<and> sc_position d = sc_position c + 1) (slice_read_u8 c s)"
proof (cases "sc_position c < length (sc_bytes c)")
  case True
  show ?thesis
    unfolding slice_read_u8_def
    by (rule ends_with_skip [OF ends_with_checkpoint], rule ends_with_index [OF True], rule ends_with_plus)
      (use True assms in \<open>simp_all add: slice_ok_def after_def slice_moves_def ends_with_run\<close>)
next
  case False
  show ?thesis
    unfolding slice_read_u8_def
    by (rule ends_with_skip [OF ends_with_checkpoint])
      (use False in \<open>simp add: get_at_def run lzma2_error_def format_error_def ends_with_run\<close>)
qed

lemma slice_read_u16_be_ends:
  assumes "slice_ok c"
  shows "ends_with lzma2_error (\<lambda>(v, d). after c d) (slice_read_u16_be c s)"
  unfolding slice_read_u16_be_def
proof (rule ends_with_bind, rule slice_read_u8_ends [OF assms], goal_cases)
  case (1 x t)
  obtain b d where x: "x = (b, d)" by (cases x)
  have d: "slice_ok d" "after c d" using 1 by (simp_all add: x after_def)
  show ?case
    unfolding x prod.case
    by (rule ends_with_bind, rule slice_read_u8_ends [OF d(1)])
      (use d(2) in \<open>auto simp: ends_with_run intro: after_trans split: prod.splits\<close>)
qed

lemma usize_run: "v < 2 ^ 64 \<Longrightarrow> usize_to_u64 v d = ret v"
  by (simp add: usize_to_u64_def)

lemma chunk_size_run: "c \<in> set (chunks CONTROL_CHUNK_SIZE bytes) \<Longrightarrow> usize_to_u64 (length c) d = ret (length c)"
  using length_chunks_le [of c CONTROL_CHUNK_SIZE bytes] by (simp add: usize_run CONTROL_CHUNK_SIZE_def)

lemma consume_bytes_ends: "ends_with E (\<lambda>_. True) (consume_bytes bytes (s :: 'z control_scheme))"
proof -
  have "ends_with E (\<lambda>_. True) (fold_for (\<lambda>chunk _. bind (usize_to_u64 (length chunk) d) checkpoint) cs () s)"
    if "set cs \<subseteq> set (chunks CONTROL_CHUNK_SIZE bytes)" for cs d and s :: "'z control_scheme"
    using that
  proof (induction cs arbitrary: s)
    case (Cons c cs)
    then show ?case by (auto simp: chunk_size_run intro!: ends_with_bind [OF ends_with_checkpoint])
  qed (simp add: ends_with_run)
  then show ?thesis by (simp add: consume_bytes_def ends_with_checkpoint)
qed

lemma extend_uncompressed_ends:
  assumes "out_ok out" "length (lo_bytes out) + length bytes < 2 ^ 64"
  shows "ends_with (\<lambda>e. \<exists>v m. e = LimitExceeded TotalOutputBytes v m \<and> lo_maximum out < length (lo_bytes out) + length bytes)
    (\<lambda>out'. out' = out\<lparr>lo_bytes := lo_bytes out @ bytes\<rparr> \<and> length (lo_bytes out') \<le> lo_maximum out)
    (extend_uncompressed bytes out s)"
proof -
  have loop: "ends_with E (\<lambda>out'. out' = out\<lparr>lo_bytes := lo_bytes out @ concat cs\<rparr>)
      (fold_for (\<lambda>chunk out. bind (usize_to_u64 (length chunk) d) (\<lambda>n. bind (checkpoint n) (\<lambda>_.
         ret (out\<lparr>lo_bytes := lo_bytes out @ chunk\<rparr>)))) cs out s)"
    if "set cs \<subseteq> set (chunks CONTROL_CHUNK_SIZE bytes)" for E cs d and s :: "'b control_scheme" and out :: lzma_output
    using that
  proof (induction cs arbitrary: out s)
    case (Cons c cs)
    show ?case
      unfolding fold_for.simps chunk_size_run [OF subsetD [OF Cons.prems list.set_intros(1)]] bind_ret bind_assoc
      by (rule ends_with_skip [OF ends_with_checkpoint]) (use Cons in \<open>auto intro: ends_with_mono [OF Cons.IH]\<close>)
  qed (simp add: ends_with_run)
  have len: "length bytes < 2 ^ 64" using assms(2) by simp
  show ?thesis
    unfolding extend_uncompressed_def usize_run [OF len] bind_ret
  proof (rule ensure_additional_ends [OF assms(2)], simp, rule ends_with_mono, rule loop [OF order_refl], goal_cases)
    case (2 t out')
    then show ?case by (simp add: CONTROL_CHUNK_SIZE_def)
  qed simp
qed

lemma slice_read_bytes_ends:
  assumes "slice_ok c" "n \<le> 65536" "length (sc_bytes c) + 65536 < 2 ^ 64"
  shows "ends_with lzma2_error (\<lambda>(bytes, d). after c d \<and> bytes = take n (drop (sc_position c) (sc_bytes c))
      \<and> sc_position d = sc_position c + n \<and> length bytes = n) (slice_read_bytes n c s)"
proof -
  have sum: "checked_add (sc_position c) n = Some (sc_position c + n)"
    using assms by (simp add: checked_add_def slice_ok_def)
  show ?thesis
  proof (cases "sc_position c + n \<le> length (sc_bytes c)")
    case True
    then have "get_range (sc_bytes c) (sc_position c) (sc_position c + n) = Some (take n (drop (sc_position c) (sc_bytes c)))"
      by (simp add: get_range_def)
    then show ?thesis
      unfolding slice_read_bytes_def sum bind_some
      by (simp only: bind_some, intro ends_with_skip [OF consume_bytes_ends])
        (use True assms(1) in \<open>simp add: ends_with_run after_def slice_ok_def slice_moves_def\<close>)
  next
    case False
    then show ?thesis
      by (simp add: slice_read_bytes_def sum bind_some get_range_def run lzma2_error_def format_error_def ends_with_run)
  qed
qed

section \<open>Chunks\<close>

definition lzma2_ok :: "nat \<Rightarrow> lzma2_state \<Rightarrow> bool" where
  "lzma2_ok maximum l \<longleftrightarrow> slice_ok (l2_input l) \<and> length (sc_bytes (l2_input l)) + 65536 < 2 ^ 64
     \<and> out_ok (l2_output l) \<and> lo_maximum (l2_output l) = maximum \<and> maximum + 2 ^ 22 < 2 ^ 64
     \<and> (\<forall>st. l2_state l = Some st \<longrightarrow> lzma_ok st) \<and> (\<not> l2_needs_properties l \<longrightarrow> l2_state l \<noteq> None)"

definition chunk_ok :: "nat \<Rightarrow> lzma2_state \<Rightarrow> lzma2_state \<Rightarrow> bool" where
  "chunk_ok maximum l l' \<longleftrightarrow> lzma2_ok maximum l' \<and> slice_moves (l2_input l) (l2_input l')"

lemma lzma2_ok_input: "lzma2_ok maximum l \<Longrightarrow> after (l2_input l) d \<Longrightarrow> lzma2_ok maximum (l\<lparr>l2_input := d\<rparr>)"
  by (auto simp: lzma2_ok_def after_def slice_moves_def)

lemma chunk_state_ends:
  assumes l: "lzma2_ok maximum l"
  shows "ends_with lzma2_error (\<lambda>l'. chunk_ok maximum l l' \<and> l2_state l' \<noteq> None) (chunk_state b l s)"
proof (cases "b \<ge> 0xc0")
  case True
  have input: "slice_ok (l2_input l)" using l by (simp add: lzma2_ok_def)
  show ?thesis
    unfolding chunk_state_def if_P [OF True]
  proof (rule ends_with_bind, rule slice_read_u8_ends [OF input], goal_cases)
    case (1 x t)
    obtain p d where x: "x = (p, d)" by (cases x)
    have d: "after (l2_input l) d" using 1 by (simp add: x)
    show ?case
      unfolding x prod.case
    proof (rule ends_with_bind_mono, rule properties_from_byte_ends, erule lzma2_errorI, goal_cases)
      case (1 y u)
      obtain lc lp pb where y: "y = (lc, lp, pb)" by (cases y)
      have ok: "lc + lp \<le> 4" "pb \<le> 4" using 1 by (simp_all add: y)
      show ?case
        unfolding y prod.case
        by (rule ends_with_bind, rule lzma_state_new_ends [OF ok])
          (use lzma2_ok_input [OF l d] d in \<open>auto simp: ends_with_run chunk_ok_def lzma2_ok_def after_def\<close>)
    qed
  qed
next
  case False
  then show ?thesis
    using l by (auto simp: chunk_state_def ends_with_run lzma2_error_def format_error_def chunk_ok_def lzma2_ok_def
        slice_moves_refl bind_some lzma_state_reset_ok intro!: ends_with_option)
qed

lemma chunk_sizes:
  "unat (push_bit 16 (ucast ((b::u8) AND 0x1f) :: u64)) \<le> 2031616"
proof -
  have "unat (b AND 0x1f) \<le> unat (0x1f :: u8)" by (rule and_le)
  then have "unat (ucast (b AND 0x1f) :: u64) \<le> 31"
    by (auto simp: unsigned_ucast_eq intro: order_trans [OF take_bit_nat_less_eq_self])
  then show ?thesis by (simp add: push_bit_eq_mult unat_word_ariths)
qed

lemma compressed_chunk_ends:
  assumes l: "lzma2_ok maximum l"
  shows "ends_with lzma2_error (chunk_ok maximum l) (compressed_chunk b l s)"
proof -
  let ?high = "unat (push_bit 16 (ucast (b AND 0x1f) :: u64))"
  have input: "slice_ok (l2_input l)" using l by (simp add: lzma2_ok_def)
  have unpacked: "(case checked_add ?high (unat low) of None \<Rightarrow> None | Some v \<Rightarrow> checked_add v 1) = Some (?high + unat low + 1)"
    for low :: u16
    using chunk_sizes [of b] unat_u16_less [of low] by (simp add: checked_add_def)
  have packed: "checked_add (unat low) 1 = Some (unat low + 1)" for low :: u16
    using unat_u16_less [of low] by (simp add: checked_add_def)
  show ?thesis
    unfolding compressed_chunk_def Let_def
  proof (rule ends_with_bind, rule slice_read_u16_be_ends [OF input], goal_cases)
    case (1 x t)
    obtain low d where x: "x = (low, d)" by (cases x)
    have d: "after (l2_input l) d" "slice_ok d" using 1 by (simp_all add: x after_def)
    show ?case
      unfolding x prod.case unpacked bind_some
    proof (rule ends_with_bind, rule slice_read_u16_be_ends [OF d(2)], goal_cases)
      case (1 y u)
      obtain low2 d2 where y: "y = (low2, d2)" by (cases y)
      have d2: "after (l2_input l) d2" using 1 d by (auto simp: y intro: after_trans)
      show ?case
        unfolding y prod.case packed bind_some
      proof (rule ends_with_bind, rule chunk_state_ends [OF lzma2_ok_input [OF l d2]], goal_cases)
        case (1 l1 v)
        then obtain st where l1: "lzma2_ok maximum l1" "slice_moves d2 (l2_input l1)" "l2_state l1 = Some st"
          by (auto simp: chunk_ok_def)
        have ok: "slice_ok (l2_input l1)" "length (sc_bytes (l2_input l1)) + 65536 < 2 ^ 64" "lzma_ok st" "out_ok (l2_output l1)"
          and room: "length (lo_bytes (l2_output l1)) \<le> maximum" "maximum + 2 ^ 22 < 2 ^ 64"
          using l1 by (auto simp: lzma2_ok_def out_ok_def)
        have n: "unat low2 + 1 \<le> 65536" using unat_u16_less [of low2] by simp
        show ?case
          unfolding l1(3) bind_some
        proof (rule ends_with_bind, rule slice_read_bytes_ends [OF ok(1) n ok(2)], goal_cases)
          case (1 z w)
          obtain bytes d3 where z: "z = (bytes, d3)" by (cases z)
          have d3: "after (l2_input l1) d3" "length bytes < 2 ^ 64" using 1 n by (simp_all add: z)
          have increment: "length (lo_bytes (l2_output l1)) + (?high + unat low + 1) < 2 ^ 64"
            using room chunk_sizes [of b] unat_u16_less [of low] by simp
          show ?case
            unfolding z prod.case
          proof (rule ends_with_bind_mono, rule decode_stream_ends [OF ok(3,4) d3(2)], goal_cases)
            case (1 n)
            then show ?case using increment by simp
          next
            case (3 e)
            then show ?case by (rule lzma2_errorI)
          next
            case (4 q q')
            then show ?case
              using lzma2_ok_input [OF l1(1) d3(1)] l1 d2 d3
              by (auto simp: ends_with_run chunk_ok_def lzma2_ok_def after_def intro: slice_moves_trans split: prod.splits)
          qed simp
        qed
      qed
    qed
  qed
qed

lemma uncompressed_chunk_ends:
  assumes l: "lzma2_ok maximum l"
  shows "ends_with lzma2_error (chunk_ok maximum l) (uncompressed_chunk l s)"
proof -
  have input: "slice_ok (l2_input l)" "length (sc_bytes (l2_input l)) + 65536 < 2 ^ 64" using l by (simp_all add: lzma2_ok_def)
  have size: "checked_add (unat low) 1 = Some (unat low + 1)" for low :: u16
    using unat_u16_less [of low] by (simp add: checked_add_def)
  show ?thesis
    unfolding uncompressed_chunk_def
  proof (rule ends_with_bind, rule slice_read_u16_be_ends [OF input(1)], goal_cases)
    case (1 x t)
    obtain low d where x: "x = (low, d)" by (cases x)
    have d: "after (l2_input l) d" "slice_ok d" "length (sc_bytes d) + 65536 < 2 ^ 64"
      using 1 input by (simp_all add: x after_def slice_moves_def)
    have n: "unat low + 1 \<le> 65536" using unat_u16_less [of low] by simp
    show ?case
      unfolding x prod.case size bind_some
    proof (rule ends_with_bind, rule slice_read_bytes_ends [OF d(2) n d(3)], goal_cases)
      case (1 y u)
      obtain bytes d2 where y: "y = (bytes, d2)" by (cases y)
      have d2: "after (l2_input l) d2" "length bytes = unat low + 1" using 1 d by (auto simp: y intro: after_trans)
      have out: "out_ok (l2_output l)" "length (lo_bytes (l2_output l)) + length bytes < 2 ^ 64"
        using l d2 n by (simp_all add: lzma2_ok_def out_ok_def)
      show ?case
        unfolding y prod.case
        by (rule ends_with_bind_mono, rule extend_uncompressed_ends [OF out])
          (use lzma2_ok_input [OF l d2(1)] d2 in
            \<open>auto simp: ends_with_run chunk_ok_def lzma2_ok_def after_def out_ok_def lzma2_error_def lzma_errorI\<close>)
    qed
  qed
qed

lemma lzma2_chunk_ends:
  assumes l: "lzma2_ok maximum l"
  shows "ends_with lzma2_error (chunk_ok maximum l) (lzma2_chunk expected b l s)"
proof -
  have start: "ends_with lzma2_error (\<lambda>l'. lzma2_ok maximum l' \<and> l2_input l' = l2_input l)
    ((if b \<ge> 0xe0 \<or> b = 1
           then ret (l\<lparr>l2_output := reset_dictionary (l2_output l), l2_needs_dictionary_reset := False,
                       l2_needs_properties := True\<rparr>)
           else if l2_needs_dictionary_reset l
           then fail (format_error ''LZMA2 stream omits its initial dictionary reset'')
           else ret l) s)"
    using l by (simp add: ends_with_run lzma2_error_def format_error_def lzma2_ok_def reset_dictionary_def out_ok_def)
  show ?thesis
    unfolding lzma2_chunk_def
  proof (rule ends_with_bind, rule start, goal_cases)
    case (1 l1 t)
    then have l1: "lzma2_ok maximum l1" "l2_input l1 = l2_input l" by simp_all
    have body: "ends_with lzma2_error (chunk_ok maximum l)
       ((if b \<ge> 0x80 then compressed_chunk b l1
           else if b \<le> 2 then uncompressed_chunk l1
           else fail (format_error ''reserved LZMA2 control byte'')) t)"
    proof -
      have "chunk_ok maximum l1 = chunk_ok maximum l" by (simp add: fun_eq_iff chunk_ok_def l1(2))
      then show ?thesis
        using compressed_chunk_ends [OF l1(1), of b t] uncompressed_chunk_ends [OF l1(1), of t]
        by (simp add: ends_with_run lzma2_error_def format_error_def)
    qed
    show ?case
    proof (rule ends_with_bind, rule body, goal_cases)
      case (1 l2 u)
      then have small: "length (lo_bytes (l2_output l2)) < 2 ^ 64" by (simp add: chunk_ok_def lzma2_ok_def out_ok_def)
      show ?case
        using 1 by (cases expected)
          (auto simp: ends_with_run position_run [OF small] lzma2_error_def format_error_def intro!: ends_with_check)
    qed
  qed
qed

lemma lzma2_end_ends:
  assumes "lzma2_ok maximum l"
  shows "ends_with lzma2_error (\<lambda>out. length out \<le> maximum \<and> (\<forall>n\<in>set_option expected. length out = n)) (lzma2_end expected l s)"
proof -
  have small: "length (lo_bytes (l2_output l)) < 2 ^ 64" "length (lo_bytes (l2_output l)) \<le> maximum"
    using assms by (simp_all add: lzma2_ok_def out_ok_def)
  show ?thesis
    unfolding lzma2_end_def
    by (rule ends_with_check, simp add: lzma2_error_def format_error_def, cases expected)
      (use small in \<open>auto simp: ends_with_run position_run [OF small(1)] lzma2_error_def format_error_def intro!: ends_with_check\<close>)
qed

lemma lzma2_loop_ends:
  assumes "lzma2_ok maximum l"
  shows "ends_with lzma2_error (\<lambda>out. length out \<le> maximum \<and> (\<forall>n\<in>set_option expected. length out = n))
    (lzma2_loop expected l (s :: 'z control_scheme))"
  using assms
proof (induction "length (sc_bytes (l2_input l)) - sc_position (l2_input l)" arbitrary: l s rule: less_induct)
  case less
  have input: "slice_ok (l2_input l)" using less.prems by (simp add: lzma2_ok_def)
  show ?case
    unfolding lzma2_loop.simps [of expected l] branch_eq
  proof (rule ends_with_skip [OF ends_with_checkpoint], rule ends_with_bind, rule slice_read_u8_ends [OF input], goal_cases)
    case (1 u t x t')
    obtain b d where x: "x = (b, d)" by (cases x)
    have d: "after (l2_input l) d" "sc_position d = sc_position (l2_input l) + 1" using 1 by (simp_all add: x)
    note l1 = lzma2_ok_input [OF less.prems d(1)]
    have rest: "ends_with lzma2_error (\<lambda>out. length out \<le> maximum \<and> (\<forall>n\<in>set_option expected. length out = n))
        (bind (lzma2_chunk expected b (l\<lparr>l2_input := d\<rparr>)) (lzma2_loop expected) t')"
    proof (rule ends_with_bind, rule lzma2_chunk_ends [OF l1], rule less.hyps, goal_cases)
      case (1 l2 v)
      then show ?case using d by (auto simp: chunk_ok_def after_def slice_moves_def slice_ok_def)
    next
      case (2 l2 v)
      then show ?case by (simp add: chunk_ok_def)
    qed
    show ?case
      using rest lzma2_end_ends [OF l1] by (cases "b = 0") (simp_all add: x)
  qed
qed

lemma lzma2_shift:
  assumes "p \<le> (40 :: u8)"
  shows "checked_add32 (ucast p div 2) 11 = Some (ucast p div 2 + 11)" "(ucast p div 2 + 11 :: u32) < 64"
proof -
  have "unat (ucast p :: u32) \<le> 40"
    using assms by (auto simp: word_le_nat_alt unsigned_ucast_eq intro: order_trans [OF take_bit_nat_less_eq_self])
  then have half: "unat (ucast p div 2 :: u32) \<le> 20" by (simp add: unat_div)
  then have sum: "unat (ucast p div 2 :: u32) + unat (11 :: u32) < 2 ^ 32" by simp
  show "checked_add32 (ucast p div 2) 11 = Some (ucast p div 2 + 11)" by (rule plus32_run [OF sum])
  show "(ucast p div 2 + 11 :: u32) < 64" using plus32_unat [OF sum] half by (simp add: word_less_nat_alt)
qed

lemma lzma2_dictionary_ends: "ends_with lzma2_error (\<lambda>_. True) (lzma2_dictionary properties s)"
  unfolding lzma2_dictionary_def Let_def
  by (rule ends_with_option, rule ends_with_check)
    (simp_all add: lzma2_error_def format_error_def bind_some ends_with_run lzma2_shift)

text \<open>C16: The LZMA2 decoder returns on every input: chunk by chunk, with an output within the limit and of
  the declared size if one is declared, or with a named error of the chunk structure or of a chunk's LZMA
  stream. A chunk that needs the decoder's state always finds it. The input with one more chunk, the
  declared size and the limit with the largest chunk are representable as 64-bit counts.\<close>

theorem decode_lzma2_ends:
  assumes "length input + 65536 < 2 ^ 64" "maximum + 2 ^ 22 < 2 ^ 64" "\<forall>n\<in>set_option expected. n < 2 ^ 64"
  shows "ends_with lzma2_error (\<lambda>out. length out \<le> maximum \<and> (\<forall>n\<in>set_option expected. length out = n))
    (decode_lzma2 input properties expected maximum s)"
proof -
  have room: "maximum + 273 < 2 ^ 64" using assms(2) by simp
  show ?thesis
    unfolding decode_lzma2_def
  proof (rule ends_with_bind, rule lzma2_dictionary_ends, rule ends_with_bind_mono, rule output_new_ends [OF room assms(3)],
      erule lzma2_errorI, rule lzma2_loop_ends, goal_cases)
    case (1 x t out u)
    then show ?case using assms by (simp add: lzma2_ok_def slice_ok_def)
  qed
qed

theorem decode_lzma2_ends_witness:
  "ends_with lzma2_error (\<lambda>out. length out \<le> 5 \<and> (\<forall>n\<in>set_option None. length out = n))
    (decode_lzma2 [1, 0, 2, 7, 8, 9, 0 :: u8] [24] None 5 unlimited)"
  by (rule decode_lzma2_ends) simp_all

end
