(* ===== verification/Lzma2Stored.thy ===== *)
theory Lzma2Stored
  imports Lzma2Facts
begin

unbundle bit_operations_syntax

text \<open>
  Stored LZMA2 streams: the format's uncompressed chunks as an encoder, and the proof that the
  decoder inverts it.
\<close>

section \<open>The encoder\<close>

definition stored_body :: "u8 list \<Rightarrow> u8 list" where
  "stored_body bytes =
     (let size = of_nat (length bytes - 1) :: u16 in ucast (drop_bit 8 size) # ucast size # bytes)"

definition stored_chunk :: "u8 \<Rightarrow> u8 list \<Rightarrow> u8 list" where
  "stored_chunk control_byte bytes = control_byte # stored_body bytes"

definition stored_stream :: "u8 list \<Rightarrow> u8 list" where
  "stored_stream bytes =
     (case chunks 65536 bytes of
        [] \<Rightarrow> []
      | c # cs \<Rightarrow> stored_chunk 1 c @ concat (map (stored_chunk 2) cs)) @ [0]"

section \<open>Reading a stored chunk\<close>

definition reading :: "slice_cursor \<Rightarrow> u8 list \<Rightarrow> bool" where
  "reading c rest \<longleftrightarrow> slice_ok c \<and> length (sc_bytes c) + 65536 < 2 ^ 64 \<and> drop (sc_position c) (sc_bytes c) = rest"

definition moved :: "nat \<Rightarrow> slice_cursor \<Rightarrow> slice_cursor" where
  "moved n c = c\<lparr>sc_position := sc_position c + n\<rparr>"

lemma moved_moved [simp]: "moved n (moved m c) = moved (m + n) c"
  by (simp add: moved_def)

lemma reading_moved: "reading c (xs @ ys) \<Longrightarrow> length xs = n \<Longrightarrow> reading (moved n c) ys"
proof -
  assume c: "reading c (xs @ ys)" and n: "length xs = n"
  then have "length (xs @ ys) = length (sc_bytes c) - sc_position c" by (metis reading_def length_drop)
  then have "sc_position c + n \<le> length (sc_bytes c)" using n c by (auto simp: reading_def slice_ok_def)
  moreover have "drop (sc_position c + n) (sc_bytes c) = drop n (xs @ ys)"
    using c by (simp add: reading_def add.commute flip: drop_drop)
  ultimately show ?thesis using c n by (simp add: reading_def moved_def slice_ok_def)
qed

lemma slice_read_u8_at:
  assumes "reading c (b # rest)"
  shows "ends_with E (\<lambda>x. x = (b, moved 1 c)) (slice_read_u8 c s)"
proof -
  have less: "sc_position c < length (sc_bytes c)" using assms by (metis reading_def drop_eq_Nil2 leI list.distinct(1))
  have "sc_bytes c ! sc_position c = b" using assms less by (metis reading_def hd_drop_conv_nth list.sel(1))
  then show ?thesis
    unfolding slice_read_u8_def
    by (intro ends_with_skip [OF ends_with_checkpoint] ends_with_index [OF less] ends_with_plus)
      (use assms less in \<open>simp_all add: reading_def slice_ok_def ends_with_run moved_def\<close>)
qed

lemma split_u16: "push_bit 8 (ucast (ucast (drop_bit 8 v) :: u8) :: u16) OR ucast (ucast v :: u8) = v"
proof (rule bit_word_eqI)
  fix i assume "i < LENGTH(16)"
  then show "bit (push_bit 8 (ucast (ucast (drop_bit 8 v) :: u8) :: u16) OR ucast (ucast v :: u8)) i = bit v i"
    by (cases "i < 8") (auto simp: bit_simps)
qed

lemma uncompressed_chunk_at:
  assumes l: "reading (l2_input l) (ucast (drop_bit 8 v) # ucast (v :: u16) # bytes @ rest)"
    and v: "unat v + 1 = length bytes"
    and out: "out_ok (l2_output l)" "length (lo_bytes (l2_output l)) + length bytes \<le> lo_maximum (l2_output l)"
  shows "ends_with (\<lambda>_. False) (\<lambda>l'. l' = l\<lparr>l2_input := moved (length bytes + 2) (l2_input l),
      l2_output := (l2_output l)\<lparr>lo_bytes := lo_bytes (l2_output l) @ bytes\<rparr>\<rparr>) (uncompressed_chunk l s)"
  (is "ends_with _ ?P _")
proof -
  let ?c = "l2_input l"
  have at1: "reading (moved 1 ?c) (ucast v # bytes @ rest)" using reading_moved [of ?c "[ucast (drop_bit 8 v)]"] l by simp
  have at2: "reading (moved 2 ?c) (bytes @ rest)" using reading_moved [of ?c "[ucast (drop_bit 8 v), ucast v]"] l by simp
  have u16: "ends_with (\<lambda>_. False) (\<lambda>x. x = (v, moved 2 ?c)) (slice_read_u16_be ?c s)"
    unfolding slice_read_u16_be_def
  proof (rule ends_with_bind, rule slice_read_u8_at [OF l], goal_cases)
    case (1 x t)
    show ?case
      unfolding 1 prod.case
      by (rule ends_with_bind, rule slice_read_u8_at [OF at1]) (simp add: ends_with_run split_u16 numeral_2_eq_2)
  qed
  have n: "length bytes \<le> 65536" using v unat_u16_less [of v] by simp
  have add: "checked_add (unat v) 1 = Some (length bytes)" using v n by (simp add: checked_add_def)
  have ok: "slice_ok (moved 2 ?c)" "length (sc_bytes (moved 2 ?c)) + 65536 < 2 ^ 64" using at2 by (simp_all add: reading_def)
  have range: "get_range (sc_bytes (moved 2 ?c)) (sc_position (moved 2 ?c)) (sc_position (moved 2 ?c) + length bytes) = Some bytes"
  proof -
    have d: "drop (sc_position (moved 2 ?c)) (sc_bytes (moved 2 ?c)) = bytes @ rest" using at2 by (simp add: reading_def)
    then have "length (bytes @ rest) = length (sc_bytes (moved 2 ?c)) - sc_position (moved 2 ?c)" by (metis length_drop)
    then have "sc_position (moved 2 ?c) + length bytes \<le> length (sc_bytes (moved 2 ?c))"
      using ok(1) by (auto simp: slice_ok_def)
    then show ?thesis by (simp add: get_range_def d)
  qed
  have sum: "checked_add (sc_position (moved 2 ?c)) (length bytes) = Some (sc_position (moved 2 ?c) + length bytes)"
    using ok n by (simp add: checked_add_def slice_ok_def)
  have bytes: "ends_with (\<lambda>_. False) (\<lambda>x. x = (bytes, moved (length bytes + 2) ?c)) (slice_read_bytes (length bytes) (moved 2 ?c) t)"
    for t :: "'a control_scheme"
    unfolding slice_read_bytes_def sum bind_some range
    by (intro ends_with_skip [OF consume_bytes_ends]) (simp add: ends_with_run moved_def add.commute)
  have room: "length (lo_bytes (l2_output l)) + length bytes < 2 ^ 64" using out by (simp add: out_ok_def)
  show ?thesis
    unfolding uncompressed_chunk_def
  proof (rule ends_with_bind, rule u16, goal_cases)
    case (1 x t)
    show ?case
      unfolding 1 prod.case add bind_some
    proof (rule ends_with_bind, rule bytes, goal_cases)
      case (1 y u)
      show ?case
        unfolding 1 prod.case
        by (rule ends_with_bind_mono, rule extend_uncompressed_ends [OF out(1) room]) (use out(2) in \<open>auto simp: ends_with_run\<close>)
    qed
  qed
qed

section \<open>Decoding the chunks\<close>

lemma stored_chunk_ends:
  assumes l: "reading (l2_input l) (stored_body bytes @ rest)" and b: "b = 1 \<or> b = 2 \<and> \<not> l2_needs_dictionary_reset l"
    and bytes: "bytes \<noteq> []" "length bytes \<le> 65536"
    and out: "out_ok (l2_output l)" "length (lo_bytes (l2_output l)) + length bytes \<le> lo_maximum (l2_output l)"
    and expected: "\<forall>n\<in>set_option expected. length (lo_bytes (l2_output l)) + length bytes \<le> n"
  shows "ends_with (\<lambda>_. False) (\<lambda>l'. reading (l2_input l') rest \<and> \<not> l2_needs_dictionary_reset l' \<and> out_ok (l2_output l')
      \<and> lo_maximum (l2_output l') = lo_maximum (l2_output l) \<and> lo_bytes (l2_output l') = lo_bytes (l2_output l) @ bytes)
    (lzma2_chunk expected b l s)"
proof -
  define v :: u16 where "v = of_nat (length bytes - 1)"
  have v: "unat v + 1 = length bytes"
  proof -
    obtain m where m: "length bytes = Suc m" using bytes(1) by (cases bytes) simp_all
    have "unat (of_nat m :: u16) = m" using m bytes(2) by (simp add: unat_of_nat)
    then show ?thesis by (simp add: v_def m)
  qed
  have input: "reading (l2_input l) (ucast (drop_bit 8 v) # ucast v # bytes @ rest)"
    using l by (simp add: stored_body_def v_def Let_def)
  have next_input: "reading (moved (length bytes + 2) (l2_input l)) rest"
    using reading_moved [of "l2_input l" "ucast (drop_bit 8 v) # ucast v # bytes" rest "length bytes + 2"] input by simp
  define l1 where "l1 = (if b = 1 then l\<lparr>l2_output := reset_dictionary (l2_output l), l2_needs_dictionary_reset := False,
    l2_needs_properties := True\<rparr> else l)"
  have l1: "l2_input l1 = l2_input l" "out_ok (l2_output l1)" "lo_bytes (l2_output l1) = lo_bytes (l2_output l)"
    "lo_maximum (l2_output l1) = lo_maximum (l2_output l)" "\<not> l2_needs_dictionary_reset l1"
    using b out by (auto simp: l1_def reset_dictionary_def out_ok_def)
  have start: "(if b \<ge> 0xe0 \<or> b = 1
           then ret (l\<lparr>l2_output := reset_dictionary (l2_output l), l2_needs_dictionary_reset := False,
                       l2_needs_properties := True\<rparr>)
           else if l2_needs_dictionary_reset l then fail e else ret l) = ret l1" for e
    using b by (auto simp: l1_def)
  have kind: "(if b \<ge> 0x80 then compressed_chunk b l1 else if b \<le> 2 then uncompressed_chunk l1 else fail e) = uncompressed_chunk l1" for e
    using b by (auto simp: word_le_nat_alt)
  have small: "length (lo_bytes (l2_output l)) + length bytes < 2 ^ 64" using out by (simp add: out_ok_def)
  show ?thesis
    unfolding lzma2_chunk_def start kind bind_ret
  proof (rule ends_with_bind, rule uncompressed_chunk_at [of _ v bytes rest], goal_cases)
    case (5 l2 t)
    have position: "output_position (l2_output l2) = ret (length (lo_bytes (l2_output l)) + length bytes)"
      using small by (simp add: 5 position_run l1)
    have fits: "(case expected of None \<Rightarrow> ret () | Some n \<Rightarrow> bind (output_position (l2_output l2))
        (\<lambda>position. guard (position \<le> n) e)) = ret ()" for e
      using expected by (cases expected) (simp_all add: position)
    have l2: "l2_input l2 = moved (length bytes + 2) (l2_input l)" "\<not> l2_needs_dictionary_reset l2"
      "l2_output l2 = (l2_output l1)\<lparr>lo_bytes := lo_bytes (l2_output l) @ bytes\<rparr>"
      using l1 by (simp_all add: 5)
    show ?case
      unfolding fits bind_ret using next_input l1 out l2 by (simp add: ends_with_run out_ok_def)
  qed (use input v l1 out in simp_all)
qed

lemma stored_chunks_ends:
  assumes "reading (l2_input l) (concat (map (\<lambda>(b, c). stored_chunk b c) cs) @ [0])"
    and "l2_needs_dictionary_reset l \<longrightarrow> (case cs of [] \<Rightarrow> True | c # _ \<Rightarrow> fst c = 1)"
    and "\<forall>(b, c)\<in>set cs. (b = 1 \<or> b = 2) \<and> c \<noteq> [] \<and> length c \<le> 65536" "out_ok (l2_output l)"
    and "length (lo_bytes (l2_output l)) + length (concat (map snd cs)) \<le> lo_maximum (l2_output l)"
    and "\<forall>n\<in>set_option expected. n = length (lo_bytes (l2_output l)) + length (concat (map snd cs))"
  shows "ends_with (\<lambda>_. False) (\<lambda>out. out = lo_bytes (l2_output l) @ concat (map snd cs)) (lzma2_loop expected l s)"
  using assms
proof (induction cs arbitrary: l s)
  case Nil
  have l: "reading (l2_input l) (0 # [])" using Nil.prems(1) by simp
  have "length (sc_bytes (l2_input l)) = sc_position (l2_input l) + 1"
  proof -
    have "length (drop (sc_position (l2_input l)) (sc_bytes (l2_input l))) = 1" using l by (simp add: reading_def)
    then show ?thesis by simp
  qed
  then have finished: "slice_is_finished (moved (Suc 0) (l2_input l))" by (simp add: slice_is_finished_def moved_def)
  have small: "length (lo_bytes (l2_output l)) < 2 ^ 64" using Nil.prems(4) by (simp add: out_ok_def)
  show ?case
    unfolding lzma2_loop.simps [of expected l] branch_eq
  proof (rule ends_with_skip [OF ends_with_checkpoint], rule ends_with_bind, rule slice_read_u8_at [OF l], goal_cases)
    case (1 x t y u)
    then show ?case
      using Nil.prems(6) by (cases expected) (simp_all add: lzma2_end_def finished position_run [OF small] ends_with_run)
  qed
next
  case (Cons p cs)
  obtain b c where p: "p = (b, c)" by (cases p)
  have c: "b = 1 \<or> b = 2" "c \<noteq> []" "length c \<le> 65536" and b: "b = 1 \<or> b = 2 \<and> \<not> l2_needs_dictionary_reset l"
    using Cons.prems(2,3) by (auto simp: p)
  define rest where "rest = concat (map (\<lambda>(b, c). stored_chunk b c) cs) @ [0]"
  have l: "reading (l2_input l) (b # stored_body c @ rest)"
    using Cons.prems(1) by (simp add: rest_def p stored_chunk_def [of b])
  have input: "reading (moved 1 (l2_input l)) (stored_body c @ rest)"
    using reading_moved [of "l2_input l" "[b]" _ 1] l by simp
  show ?case
    unfolding lzma2_loop.simps [of expected l] branch_eq
  proof (rule ends_with_skip [OF ends_with_checkpoint], rule ends_with_bind, rule slice_read_u8_at [OF l], goal_cases)
    case (1 x t y u)
    have "ends_with (\<lambda>_. False) (\<lambda>out. out = lo_bytes (l2_output l) @ concat (map snd (p # cs)))
        (bind (lzma2_chunk expected b (l\<lparr>l2_input := moved 1 (l2_input l)\<rparr>)) (lzma2_loop expected) u)"
    proof (rule ends_with_bind, rule stored_chunk_ends [where bytes = c and rest = rest], goal_cases)
      case (8 l2 v)
      then have "ends_with (\<lambda>_. False) (\<lambda>out. out = lo_bytes (l2_output l2) @ concat (map snd cs)) (lzma2_loop expected l2 v)"
        using Cons.prems by (intro Cons.IH) (auto simp: rest_def p)
      then show ?case using 8 by (simp add: p)
    next
      case 7
      show ?case
      proof
        fix n assume "n \<in> set_option expected"
        with Cons.prems(6) have "n = length (lo_bytes (l2_output l)) + length (concat (map snd (p # cs)))" by (rule bspec)
        then show "length (lo_bytes (l2_output (l\<lparr>l2_input := moved 1 (l2_input l)\<rparr>))) + length c \<le> n" by (simp add: p)
      qed
    qed (use Cons.prems input c b in \<open>simp_all add: p\<close>)
    then show ?case using c(1) by (auto simp: 1)
  qed
qed

lemma lzma2_dictionary_succeeds: "p \<le> 40 \<Longrightarrow> ends_with E (\<lambda>_. True) (lzma2_dictionary [p] s)"
  by (simp add: lzma2_dictionary_def get_at_def bind_some ends_with_run lzma2_shift Let_def)

text \<open>C17: Stored LZMA2 data decodes to itself: for every byte string, the stream of its chunks of at most
  65536 bytes, the first one resetting the dictionary, decodes to the string for every valid
  dictionary property, with or without a declared size, whenever the limit allows its length; the only
  errors are those of the environment.\<close>

theorem decode_lzma2_stored:
  assumes "p \<le> 40" "length bytes \<le> maximum" "maximum + 2 ^ 22 < 2 ^ 64" "length (stored_stream bytes) + 65536 < 2 ^ 64"
    and "\<forall>n\<in>set_option expected. n = length bytes"
  shows "ends_with (\<lambda>_. False) (\<lambda>out. out = bytes) (decode_lzma2 (stored_stream bytes) [p] expected maximum s)"
proof -
  have new: "ends_with (\<lambda>_. False) (\<lambda>out. out_ok out \<and> lo_maximum out = maximum \<and> lo_bytes out = [])
      (output_new maximum d expected t)" for d and t :: "'a control_scheme"
    unfolding output_new_def
    by (rule ends_with_limit, use assms in \<open>force split: option.splits\<close>, rule ends_with_reserve_option)
      (use assms in \<open>auto simp: ends_with_run out_ok_def\<close>)
  define cs where "cs = (case chunks 65536 bytes of [] \<Rightarrow> [] | c # cs \<Rightarrow> (1 :: u8, c) # map (Pair 2) cs)"
  have snd_cs: "map snd cs = chunks 65536 bytes" by (simp add: cs_def o_def split: list.split)
  have stream: "stored_stream bytes = concat (map (\<lambda>(b, c). stored_chunk b c) cs) @ [0]"
    by (simp add: stored_stream_def cs_def o_def split: list.split)
  have sizes: "\<forall>(b, c)\<in>set cs. (b = 1 \<or> b = 2) \<and> c \<noteq> [] \<and> length c \<le> 65536"
  proof -
    have "c \<noteq> [] \<and> length c \<le> 65536" if "c \<in> set (chunks 65536 bytes)" for c
      using length_chunks_le [OF that] by simp
    then show ?thesis by (cases "chunks 65536 bytes") (auto simp: cs_def)
  qed
  have all: "concat (map snd cs) = bytes" by (simp add: snd_cs)
  have first: "case cs of [] \<Rightarrow> True | c # _ \<Rightarrow> fst c = 1" by (simp add: cs_def split: list.split)
  have loop: "ends_with (\<lambda>_. False) (\<lambda>out. out = bytes) (lzma2_loop expected
      \<lparr>l2_input = \<lparr>sc_bytes = stored_stream bytes, sc_position = 0\<rparr>, l2_output = out, l2_state = None,
        l2_needs_dictionary_reset = True, l2_needs_properties = True\<rparr> t)"
    if "out_ok out \<and> lo_maximum out = maximum \<and> lo_bytes out = []" for out and t :: "'a control_scheme"
    by (rule ends_with_mono, rule stored_chunks_ends [where cs = cs])
      (use that all sizes first assms in \<open>simp_all add: reading_def slice_ok_def stream\<close>)
  show ?thesis
    unfolding decode_lzma2_def
    by (rule ends_with_bind, rule lzma2_dictionary_succeeds [OF assms(1)], rule ends_with_bind, rule new, rule loop)
qed

theorem decode_lzma2_stored_witness:
  "stored_stream [7, 8, 9] = [1, 0, 2, 7, 8, 9, 0]
    \<and> ends_with (\<lambda>_. False) (\<lambda>out. out = [7, 8, 9 :: u8]) (decode_lzma2 (stored_stream [7, 8, 9]) [24] (Some 3) 5 unlimited)"
proof
  show encoded: "stored_stream [7, 8, 9] = [1, 0, 2, 7, 8, 9, 0]"
    by (simp add: stored_stream_def chunks_short stored_chunk_def stored_body_def Let_def)
  show "ends_with (\<lambda>_. False) (\<lambda>out. out = [7, 8, 9 :: u8]) (decode_lzma2 (stored_stream [7, 8, 9]) [24] (Some 3) 5 unlimited)"
    by (rule decode_lzma2_stored) (simp_all add: encoded)
qed

end
