(* ===== verification/Spec2Isabelle.thy ===== *)
theory Spec2Isabelle
  imports Paths RawShape CoderProps StreamFacts FileFacts Envelope Lzma2Stored
begin

text \<open>
  A model of the un7z archive library (\<open>src/crates/un7z\<close>) and the theorems that make it correct.

  \<^bold>\<open>What the program does.\<close> A 7z file starts with a fixed signature header that says where the next
  header lies. The parser (\<open>parser.rs\<close>) finds the signature, possibly behind an executable stub,
  checks both checksums, reads the next header with a recursive-descent grammar (\<open>raw.rs\<close>) into raw
  records, and validates them (\<open>validate.rs\<close>, \<open>graph.rs\<close>) into the archive model (\<open>model.rs\<close>): folders,
  which are graphs of coders over packed streams, and files, which own the streams that the folders
  decode to. The decoders (\<open>decode/\<close>) turn packed streams into files. Every operation takes a control
  (\<open>cancel.rs\<close>, \<open>parse_util.rs\<close>) that can cancel it, meters its work and refuses memory, and every
  count is limited (\<open>limits.rs\<close>).

  \<^bold>\<open>How code becomes definitions.\<close> A fallible operation is a computation of type \<open>('s, error, 'a) comp\<close>
  (\<open>Prelude\<close>): a function from the state to an error or a value, and the new state. The state is the
  record \<open>control\<close>, extended by the reader of \<open>bounded.rs\<close> and by the running totals of \<open>raw.rs\<close> where the
  source threads them. Cancellation and memory are schedules of the environment inside the control, so
  every theorem holds whenever the token is cancelled and whichever allocation fails. Sizes, counts
  and offsets (\<open>u64\<close>, and \<open>usize\<close> on the 64-bit targets modelled) are naturals with the bound of
  \<open>2 ^ 64\<close> written into each checked operation; bytes and wrapping arithmetic are machine words. A
  buffer that the source mutates in place is a value that the operation returns. A loop is recursion
  over the data it iterates, or a \<open>function\<close> with a termination proof: no fuel can run out, so every model
  is total and its termination is proved. Library code that the source only calls has no definition
  here; the sort of \<open>validate.rs\<close> is modelled by a stable sort, and the theorem about it does not depend
  on the order of equal keys.

  \<^bold>\<open>Theories.\<close>
  \<^item> \<open>Prelude\<close>, \<open>Outcome\<close>: computations, their rules, and \<open>ends_with\<close>, which says how a run may end: a
    success satisfies a predicate, and an error is a named one unless the run was cancelled, ran out
    of its budget or out of memory.
  \<^item> \<open>Errors\<close> (\<open>error.rs\<close>), \<open>Limits\<close> (\<open>limits.rs\<close>), \<open>Control\<close> (\<open>cancel.rs\<close>, \<open>parse_util.rs\<close>): paying
    for bytes succeeds exactly when the token and the budget allow it, and takes exactly their number.
  \<^item> \<open>Bounded\<close>, \<open>Uint7z\<close> (\<open>bounded.rs\<close>): the slice reader; the 7z variable-length integer is decoded
    exactly and undoes an encoder.
  \<^item> \<open>Crc\<close> (\<open>checksum.rs\<close>): the table-driven CRC-32 equals the bitwise one and detects any single
    changed byte.
  \<^item> \<open>Paths\<close> (\<open>path.rs\<close>): accepted paths stay below the destination and name no drive, and both
    validators agree.
  \<^item> \<open>Raw\<close>, \<open>RawFacts\<close>, \<open>RawShape\<close> (\<open>raw.rs\<close>), \<open>CoderProps\<close> (\<open>coder_properties.rs\<close>), \<open>Model\<close> (\<open>model.rs\<close>): the
    grammar of the next header, whose result is well formed and within the structural limits.
  \<^item> \<open>Graph\<close>, \<open>GraphFacts\<close>, \<open>FolderGraph\<close> (\<open>graph.rs\<close>): the coder graph is accepted exactly when it is a
    graph with every port used once, one root and no cycle, and then the order is topological.
  \<^item> \<open>ValidateCoders\<close>, \<open>ValidateStreams\<close>, \<open>ValidateFiles\<close>, \<open>ValidateFacts\<close>, \<open>PackRanges\<close>, \<open>StreamFacts\<close>,
    \<open>FileFacts\<close> (\<open>validate.rs\<close>): folders are sound, the packed streams a header declares, those of a
    header whose folder list is still external included, lie apart and inside the file, and the files own the streams of the folders, in order.
  \<^item> \<open>Parser\<close>, \<open>ParserFacts\<close>, \<open>Envelope\<close> (\<open>parser.rs\<close>): the header that is found is exactly the first valid
    one, the whole archive is sound, a written archive parses back, and every window and every
    candidate of the scan is paid for.
  \<^item> \<open>FilterWords\<close>, \<open>Phase5\<close>, \<open>Filters\<close>, \<open>FilterFacts\<close>, \<open>DeltaFacts\<close>, \<open>BranchWords\<close>, \<open>FilterEnds\<close>, \<open>Bcj2\<close>,
    \<open>Bcj2Facts\<close> (\<open>decode/filters.rs\<close>, \<open>decode/phase5_filters.rs\<close>): the size-preserving filters are total,
    Delta and three branch filters undo their encoders, and BCJ2 is exact about sizes.
  \<^item> \<open>LzmaRange\<close>, \<open>Lzma\<close>, \<open>LzmaRangeFacts\<close>, \<open>LzmaLiteral\<close>, \<open>LzmaState\<close>, \<open>LzmaOutput\<close>, \<open>LzmaFacts\<close>,
    \<open>Lzma2Facts\<close>, \<open>Lzma2Stored\<close> (\<open>decode/lzma.rs\<close>): the range decoder keeps its probabilities and its
    range inside their bounds, a match copies what LZ77 says, both decoders return on every input
    with a named error or an output of the right size, and stored LZMA2 data decodes to itself.
    The two loops over the eight bits of a literal are the only ones with a fixed number of rounds;
    \<open>LzmaLiteral\<close> shows that eight are enough.

  \<^bold>\<open>Interfaces.\<close> The locale \<open>branch_code\<close> (\<open>BranchWords\<close>) states what the loop over an instruction buffer
  needs of an instruction set; PowerPC, ARM and SPARC interpret it on the code's own steps.

  \<^bold>\<open>Not modelled.\<close> PPMd and Deflate64; the adapters around third-party decompressors and ciphers (\<open>decode/codecs.rs\<close>,
  \<open>decode/aes.rs\<close>), whose behaviour is outside the repository; folder execution and the public
  facade (\<open>execute.rs\<close>, \<open>archive.rs\<close>) with the listings, volumes and passwords behind it
  (\<open>metadata.rs\<close>, \<open>volume.rs\<close>, \<open>password.rs\<close>); the single-stream formats that are not 7z
  (\<open>stream/\<close>); the command line and the bindings, which only do input and output.
\<close>

end
